(* ===== verification/Prelude.thy ===== *)
theory Prelude
  imports Main "HOL-Library.Word" "HOL-Library.Monad_Syntax"
begin

section \<open>Prelude: collections and generic lemmas\<close>

text \<open>
  The lemma collections of the development and the facts about options, lists and
  association lists that its components share. Nothing here is about the plugin itself.
  \<open>umap_simps\<close> collects the laws of the association lists that stand for
  \<open>std::unordered_map\<close>, \<open>frame_simps\<close> the fields an operation does not write.
\<close>

named_theorems umap_simps \<open>laws of the associative containers\<close>
named_theorems frame_simps \<open>fields an operation leaves alone\<close>

subsection \<open>Options\<close>

lemma bind_SomeE:
  assumes "Option.bind m f = Some y"
  obtains x where "m = Some x" and "f x = Some y"
  using assms by (cases m) auto

lemma bind_cong_Some: "(\<And>x. m = Some x \<Longrightarrow> f x = g x) \<Longrightarrow> Option.bind m f = Option.bind m g"
  by (cases m) auto

lemma bind_total: "\<exists>x. m = Some x \<Longrightarrow> (\<And>x. m = Some x \<Longrightarrow> \<exists>y. f x = Some y) \<Longrightarrow>
    \<exists>y. Option.bind m f = Some y"
  by auto

subsection \<open>Lists\<close>

lemma takeWhile_all: "(\<And>x. x \<in> set xs \<Longrightarrow> P x) \<Longrightarrow> takeWhile P xs = xs"
  by (simp add: takeWhile_eq_all_conv)

lemma dropWhile_all: "(\<And>x. x \<in> set xs \<Longrightarrow> P x) \<Longrightarrow> dropWhile P xs = []"
  by (simp add: dropWhile_eq_Nil_conv)

lemma dropWhile_id: "xs = [] \<or> \<not> P (hd xs) \<Longrightarrow> dropWhile P xs = xs"
  by (cases xs) auto

lemma map_of_filter_key:
  "map_of (filter (\<lambda>p. P (fst p)) xs) k = (if P k then map_of xs k else None)"
  by (induction xs) auto

lemma map_of_map_snd: "map_of (map (\<lambda>(k, v). (k, f v)) xs) k = map_option f (map_of xs k)"
  by (induction xs) auto

lemma map_of_filter_val:
  "distinct (map fst xs) \<Longrightarrow>
   map_of (filter (\<lambda>p. P (snd p)) xs) k =
     (case map_of xs k of None \<Rightarrow> None | Some v \<Rightarrow> if P v then Some v else None)"
proof (induction xs)
  case Nil
  then show ?case by simp
next
  case (Cons x xs)
  obtain k' v' where x: "x = (k', v')" by (cases x)
  with Cons have "map_of xs k' = None"
    by (auto simp: map_of_eq_None_iff)
  with Cons x show ?case by (auto split: option.splits)
qed

text \<open>Pools of threads are lists updated at one index.\<close>

lemma sum_list_update_diff:
  fixes f :: "'a \<Rightarrow> int"
  shows "i < length ts \<Longrightarrow> sum_list (map f (ts[i := t])) = sum_list (map f ts) - f (ts ! i) + f t"
  by (induction ts arbitrary: i) (auto split: nat.splits)

lemma sum_list_nat_update:
  fixes f :: "'a \<Rightarrow> nat"
  assumes "i < length ts"
  shows "sum_list (map f (ts[i := t])) + f (ts ! i) = sum_list (map f ts) + f t"
  using assms by (induction ts arbitrary: i) (auto split: nat.splits)

lemma filter_update_le:
  "i < length ts \<Longrightarrow> (P t \<longrightarrow> P (ts ! i)) \<Longrightarrow> length (filter P (ts[i := t])) \<le> length (filter P ts)"
  by (induction ts arbitrary: i) (auto split: nat.splits simp: le_SucI)

lemma filter_update_one:
  "i < length ts \<Longrightarrow> \<forall>x \<in> set ts. \<not> P x \<Longrightarrow> length (filter P (ts[i := t])) \<le> 1"
  by (induction ts arbitrary: i) (auto split: nat.splits simp: filter_empty_conv)

lemma one_only:
  assumes "length (filter P ps) \<le> 1" "i < length ps" "j < length ps" "i \<noteq> j" "P (ps ! i)"
  shows "\<not> P (ps ! j)"
proof
  assume "P (ps ! j)"
  with assms have "{i, j} \<subseteq> {n. n < length ps \<and> P (ps ! n)}" by simp
  then have "card {i, j} \<le> length (filter P ps)" by (subst length_filter_conv_card) (rule card_mono; simp)
  with assms(1,4) show False by simp
qed

end
