(* ===== verification/CppStrings.thy ===== *)
theory CppStrings
  imports Prelude
begin

section \<open>Strings and integers of the C++ library\<close>

text \<open>
  What the plugin uses of the C and C++ libraries on strings: \<open>std::to_string\<close> on
  signed and unsigned 64-bit integers, \<open>strtoll\<close> in base 10, \<open>std::stoll\<close> with its
  exceptions, and \<open>tolower\<close>. A \<open>std::string\<close> is a \<open>string\<close> (a list of bytes); a
  \<open>long long\<close> is an \<open>int\<close> whose range \<open>LLONG_MIN .. LLONG_MAX\<close> is checked
  where the library checks it.
\<close>

abbreviation NUL :: char where "NUL \<equiv> CHR 0x00"

definition LLONG_MAX :: int where "LLONG_MAX = 9223372036854775807"
definition LLONG_MIN :: int where "LLONG_MIN = - 9223372036854775808"

definition is_ll :: "int \<Rightarrow> bool" where
  "is_ll i \<longleftrightarrow> LLONG_MIN \<le> i \<and> i \<le> LLONG_MAX"

text \<open>The exceptions \<open>std::stoll\<close> throws, and the null pointer given to \<open>std::string\<close>.\<close>

datatype cpp_exception = invalid_argument | out_of_range | null_c_string

subsection \<open>Decimal output: \<open>std::to_string\<close>\<close>

definition digit_char :: "nat \<Rightarrow> char" where
  "digit_char d = char_of (48 + d)"

fun nat_to_string :: "nat \<Rightarrow> string" where
  "nat_to_string n =
     (if n < 10 then [digit_char n] else nat_to_string (n div 10) @ [digit_char (n mod 10)])"

declare nat_to_string.simps [simp del]

definition to_string_ll :: "int \<Rightarrow> string" where
  "to_string_ll i = (if i < 0 then CHR ''-'' # nat_to_string (nat (- i)) else nat_to_string (nat i))"

definition to_string_ull :: "64 word \<Rightarrow> string" where
  "to_string_ull w = nat_to_string (unat w)"

subsection \<open>Decimal input: \<open>strtoll\<close> and \<open>std::stoll\<close>\<close>

definition is_space :: "char \<Rightarrow> bool" where
  "is_space c \<longleftrightarrow> c = CHR '' '' \<or> (9 \<le> (of_char c :: nat) \<and> (of_char c :: nat) \<le> 13)"

definition is_digit :: "char \<Rightarrow> bool" where
  "is_digit c \<longleftrightarrow> 48 \<le> (of_char c :: nat) \<and> (of_char c :: nat) \<le> 57"

definition digits_value :: "string \<Rightarrow> nat" where
  "digits_value ds = foldl (\<lambda>a c. 10 * a + (of_char c - 48)) 0 ds"

text \<open>
  The result of \<open>strtoll (s.c_str(), &end, 10)\<close>: the value (clamped on overflow), whether
  \<open>errno\<close> was set to \<open>ERANGE\<close>, whether nothing was converted (\<open>end\<close> is the start), and
  the characters from \<open>end\<close> to the terminating NUL.
\<close>

record strtoll_result =
  st_value :: int
  st_erange :: bool
  st_noconv :: bool
  st_rest :: string

definition c_str :: "string \<Rightarrow> string" where
  "c_str s = takeWhile (\<lambda>c. c \<noteq> NUL) s"

definition split_sign :: "string \<Rightarrow> bool \<times> string" where
  "split_sign t = (case t of [] \<Rightarrow> (False, [])
     | c # r \<Rightarrow> if c = CHR ''-'' then (True, r) else if c = CHR ''+'' then (False, r) else (False, t))"

definition strtoll :: "string \<Rightarrow> strtoll_result" where
  "strtoll s =
     (let t = dropWhile is_space (c_str s);
          (neg, u) = split_sign t;
          ds = takeWhile is_digit u;
          v = (if neg then - int (digits_value ds) else int (digits_value ds))
      in if ds = [] then \<lparr>st_value = 0, st_erange = False, st_noconv = True, st_rest = c_str s\<rparr>
         else if LLONG_MAX < v then
           \<lparr>st_value = LLONG_MAX, st_erange = True, st_noconv = False, st_rest = dropWhile is_digit u\<rparr>
         else if v < LLONG_MIN then
           \<lparr>st_value = LLONG_MIN, st_erange = True, st_noconv = False, st_rest = dropWhile is_digit u\<rparr>
         else \<lparr>st_value = v, st_erange = False, st_noconv = False, st_rest = dropWhile is_digit u\<rparr>)"

text \<open>\<open>std::stoll\<close> ignores what follows the number.\<close>

definition stoll :: "string \<Rightarrow> cpp_exception + int" where
  "stoll s = (let r = strtoll s in
     if st_noconv r then Inl invalid_argument
     else if st_erange r then Inl out_of_range
     else Inr (st_value r))"

definition tolower :: "char \<Rightarrow> char" where
  "tolower c = (if 65 \<le> (of_char c :: nat) \<and> (of_char c :: nat) \<le> 90
     then char_of ((of_char c :: nat) + 32) else c)"

subsection \<open>Decimal output read back\<close>

lemma of_digit_char [simp]: "d < 10 \<Longrightarrow> (of_char (digit_char d) :: nat) = 48 + d"
  by (simp add: digit_char_def)

lemma is_digit_digit_char [simp]: "d < 10 \<Longrightarrow> is_digit (digit_char d)"
  by (simp add: is_digit_def)

lemma nat_to_string_digits: "c \<in> set (nat_to_string n) \<Longrightarrow> is_digit c"
proof (induction n rule: nat_to_string.induct)
  case (1 n)
  then show ?case by (auto simp: nat_to_string.simps [of n] split: if_splits)
qed

lemma nat_to_string_nonempty [simp]: "nat_to_string n \<noteq> []"
  by (subst nat_to_string.simps) simp

lemma digits_value_snoc: "digits_value (ds @ [c]) = 10 * digits_value ds + (of_char c - 48)"
  by (simp add: digits_value_def)

lemma digits_value_nat_to_string [simp]: "digits_value (nat_to_string n) = n"
proof (induction n rule: nat_to_string.induct)
  case (1 n)
  show ?case
  proof (cases "n < 10")
    case True
    then show ?thesis by (simp add: nat_to_string.simps [of n] digits_value_def)
  next
    case False
    with "1.IH" show ?thesis
      by (simp add: nat_to_string.simps [of n] digits_value_snoc)
  qed
qed

lemma digit_not_space: "is_digit c \<Longrightarrow> \<not> is_space c"
  by (auto simp: is_digit_def is_space_def)

lemma digit_not_NUL: "is_digit c \<Longrightarrow> c \<noteq> NUL"
  by (auto simp: is_digit_def)

lemma digit_not_sign: "is_digit c \<Longrightarrow> c \<noteq> CHR ''-'' \<and> c \<noteq> CHR ''+''"
  by (auto simp: is_digit_def)

lemma c_str_digits: "(\<And>c. c \<in> set s \<Longrightarrow> is_digit c) \<Longrightarrow> c_str s = s"
  unfolding c_str_def by (rule takeWhile_all) (simp add: digit_not_NUL)

lemma nat_to_string_hd: "is_digit (hd (nat_to_string n))"
  by (rule nat_to_string_digits [of _ n]) (rule hd_in_set, simp)

lemma split_sign_digits: "s \<noteq> [] \<Longrightarrow> is_digit (hd s) \<Longrightarrow> split_sign s = (False, s)"
  by (cases s) (auto simp: split_sign_def dest: digit_not_sign)

lemma strtoll_nat:
  "strtoll (nat_to_string n) =
     (if LLONG_MAX < int n
      then \<lparr>st_value = LLONG_MAX, st_erange = True, st_noconv = False, st_rest = []\<rparr>
      else \<lparr>st_value = int n, st_erange = False, st_noconv = False, st_rest = []\<rparr>)"
proof -
  let ?s = "nat_to_string n"
  have c: "c_str ?s = ?s" by (rule c_str_digits) (rule nat_to_string_digits)
  have d: "dropWhile is_space ?s = ?s"
    by (rule dropWhile_id) (simp add: digit_not_space nat_to_string_hd)
  have t: "takeWhile is_digit ?s = ?s" by (rule takeWhile_all) (rule nat_to_string_digits)
  have r: "dropWhile is_digit ?s = []" by (rule dropWhile_all) (rule nat_to_string_digits)
  have p: "split_sign ?s = (False, ?s)" by (rule split_sign_digits) (auto simp: nat_to_string_hd)
  show ?thesis by (simp add: strtoll_def c d t r p LLONG_MIN_def)
qed

lemma minus_facts: "\<not> is_space CHR ''-''" "CHR ''-'' \<noteq> NUL"
  by (auto simp: is_space_def)

lemma strtoll_neg:
  assumes "0 < n"
  shows "strtoll (CHR ''-'' # nat_to_string n) =
     (if - int n < LLONG_MIN
      then \<lparr>st_value = LLONG_MIN, st_erange = True, st_noconv = False, st_rest = []\<rparr>
      else \<lparr>st_value = - int n, st_erange = False, st_noconv = False, st_rest = []\<rparr>)"
proof -
  let ?s = "nat_to_string n"
  have c: "c_str (CHR ''-'' # ?s) = CHR ''-'' # ?s"
    using c_str_digits [of ?s, OF nat_to_string_digits] minus_facts by (simp add: c_str_def)
  have d: "dropWhile is_space (CHR ''-'' # ?s) = CHR ''-'' # ?s" using minus_facts by simp
  have t: "takeWhile is_digit ?s = ?s" by (rule takeWhile_all) (rule nat_to_string_digits)
  have r: "dropWhile is_digit ?s = []" by (rule dropWhile_all) (rule nat_to_string_digits)
  show ?thesis by (simp add: strtoll_def c d t r split_sign_def LLONG_MAX_def Let_def minus_facts)
qed

lemma strtoll_to_string_ll:
  assumes "is_ll i"
  shows "strtoll (to_string_ll i) =
    \<lparr>st_value = i, st_erange = False, st_noconv = False, st_rest = []\<rparr>"
proof (cases "i < 0")
  case True
  with assms show ?thesis
    using strtoll_neg [of "nat (- i)"] by (simp add: to_string_ll_def is_ll_def)
next
  case False
  with assms show ?thesis
    using strtoll_nat [of "nat i"] by (simp add: to_string_ll_def is_ll_def)
qed

lemma to_string_ll_nonempty [simp]: "to_string_ll i \<noteq> []"
  by (simp add: to_string_ll_def)

lemma stoll_to_string_ll: "is_ll i \<Longrightarrow> stoll (to_string_ll i) = Inr i"
  by (simp add: stoll_def strtoll_to_string_ll)

text \<open>A handle is unsigned: one of \<open>2 ^ 63\<close> or more prints to a number \<open>stoll\<close> rejects.\<close>

lemma stoll_to_string_ull:
  "stoll (to_string_ull h) = (if uint h \<le> LLONG_MAX then Inr (uint h) else Inl out_of_range)"
  by (simp add: stoll_def to_string_ull_def strtoll_nat Let_def)

lemma strtoll_range: "\<not> st_noconv (strtoll s) \<Longrightarrow> is_ll (st_value (strtoll s))"
  by (auto simp: strtoll_def Let_def is_ll_def LLONG_MAX_def LLONG_MIN_def split: prod.splits)

lemma nat_to_string_inj: "nat_to_string m = nat_to_string n \<Longrightarrow> m = n"
  by (metis digits_value_nat_to_string)

lemma to_string_ull_inj: "to_string_ull h = to_string_ull k \<longleftrightarrow> h = k"
  by (auto simp: to_string_ull_def dest!: nat_to_string_inj intro: unsigned_word_eqI)

lemma to_string_ull_nonempty [simp]: "to_string_ull h \<noteq> []"
  by (simp add: to_string_ull_def)

end
