(* ===== verification/UMap.thy ===== *)
theory UMap
  imports Prelude "HOL-Library.AList"
begin

section \<open>The associative containers: \<open>std::unordered_map\<close>\<close>

text \<open>
  The plugin keys its device cache, the entries of the filesystem file and the members of
  a JSON object by string. Each is an association list with distinct keys: \<open>find\<close>,
  \<open>m[k] = v\<close> and \<open>erase\<close> are the operations the code uses. The order in which an
  \<open>unordered_map\<close> is iterated is not fixed by its contents; it is a parameter of the
  operations that iterate (\<open>e_order\<close> in theory Platform).

  The locale \<open>keyed_container\<close> states what the clients rely on: lookups after updates,
  and the invariant every operation keeps. Its consequences (read-modify-write of one key,
  a loop of assignments) are proved once from the laws.
\<close>

type_synonym ('k, 'v) umap = "('k \<times> 'v) list"

definition um_find :: "('k, 'v) umap \<Rightarrow> 'k \<Rightarrow> 'v option" where
  "um_find m k = map_of m k"

definition um_put :: "'k \<Rightarrow> 'v \<Rightarrow> ('k, 'v) umap \<Rightarrow> ('k, 'v) umap" where
  "um_put k v m = AList.update k v m"

definition um_erase :: "'k \<Rightarrow> ('k, 'v) umap \<Rightarrow> ('k, 'v) umap" where
  "um_erase k m = AList.delete k m"

definition um_wf :: "('k, 'v) umap \<Rightarrow> bool" where
  "um_wf m \<longleftrightarrow> distinct (map fst m)"

fun um_put_all :: "('k \<times> 'v) list \<Rightarrow> ('k, 'v) umap \<Rightarrow> ('k, 'v) umap" where
  "um_put_all [] m = m"
| "um_put_all ((k, v) # kvs) m = um_put_all kvs (um_put k v m)"

subsection \<open>The interface\<close>

locale keyed_container =
  fixes nothing :: "'m"
    and find :: "'m \<Rightarrow> 'k \<Rightarrow> 'v option"
    and put :: "'k \<Rightarrow> 'v \<Rightarrow> 'm \<Rightarrow> 'm"
    and erase :: "'k \<Rightarrow> 'm \<Rightarrow> 'm"
    and wf :: "'m \<Rightarrow> bool"
  assumes find_nothing: "find nothing k = None"
    and find_put: "find (put k v m) = (find m)(k := Some v)"
    and find_erase: "wf m \<Longrightarrow> find (erase k m) = (find m)(k := None)"
    and wf_nothing: "wf nothing"
    and wf_put: "wf m \<Longrightarrow> wf (put k v m)"
    and wf_erase: "wf m \<Longrightarrow> wf (erase k m)"
begin

lemma find_put_same: "find (put k v m) k = Some v"
  by (simp add: find_put)

lemma find_put_other: "k' \<noteq> k \<Longrightarrow> find (put k v m) k' = find m k'"
  by (simp add: find_put)

lemma put_twice: "find (put k w (put k v m)) = find (put k w m)"
  by (simp add: find_put)

lemma put_commute: "k \<noteq> k' \<Longrightarrow> find (put k v (put k' w m)) = find (put k' w (put k v m))"
  by (simp add: find_put fun_upd_twist)

lemma put_then_erase: "wf m \<Longrightarrow> find (erase k (put k v m)) = find (erase k m)"
  by (simp add: find_erase find_put wf_put)

lemma fold_put_find:
  "find (fold (\<lambda>(k, v). put k v) kvs m) k =
     (case map_of (rev kvs) k of None \<Rightarrow> find m k | Some v \<Rightarrow> Some v)"
  by (induction kvs arbitrary: m) (auto simp: find_put map_add_def split: option.splits)

lemma fold_put_wf: "wf m \<Longrightarrow> wf (fold (\<lambda>(k, v). put k v) kvs m)"
  by (induction kvs arbitrary: m) (auto simp: wf_put)

lemma fold_erase_find:
  "wf m \<Longrightarrow> find (fold erase ks m) k = (if k \<in> set ks then None else find m k)"
  by (induction ks arbitrary: m) (auto simp: find_erase wf_erase)

lemma fold_erase_wf: "wf m \<Longrightarrow> wf (fold erase ks m)"
  by (induction ks arbitrary: m) (auto simp: wf_erase)

end

subsection \<open>The association lists provide it\<close>

interpretation um: keyed_container "[]" um_find um_put um_erase um_wf
  by unfold_locales
    (auto simp: um_find_def um_put_def um_erase_def um_wf_def update_conv' delete_conv'
      distinct_update distinct_delete)

lemmas um_laws [umap_simps] = um.find_nothing um.find_put um.find_erase um.wf_nothing um.wf_put um.wf_erase

lemma um_put_all_fold: "um_put_all kvs m = fold (\<lambda>(k, v). um_put k v) kvs m"
  by (induction kvs m rule: um_put_all.induct) simp_all

lemma um_put_all_find [umap_simps]:
  "um_find (um_put_all kvs m) k =
     (case map_of (rev kvs) k of None \<Rightarrow> um_find m k | Some v \<Rightarrow> Some v)"
  unfolding um_put_all_fold by (rule um.fold_put_find)

lemma um_put_all_wf [umap_simps]: "um_wf m \<Longrightarrow> um_wf (um_put_all kvs m)"
  unfolding um_put_all_fold by (rule um.fold_put_wf)

lemma um_wf_Nil [simp]: "um_wf []"
  by (rule um.wf_nothing)

lemma um_find_Nil [simp]: "um_find [] k = None"
  by (rule um.find_nothing)

lemma um_find_Cons [simp]: "um_find ((k, v) # m) k' = (if k' = k then Some v else um_find m k')"
  by (simp add: um_find_def)

lemma um_find_put [simp]: "um_find (um_put k v m) k' = (if k' = k then Some v else um_find m k')"
  by (simp add: um.find_put)

lemma um_find_in: "um_wf m \<Longrightarrow> um_find m k = Some v \<longleftrightarrow> (k, v) \<in> set m"
  by (simp add: um_find_def um_wf_def)

lemma um_find_None: "um_find m k = None \<longleftrightarrow> k \<notin> fst ` set m"
  by (simp add: um_find_def map_of_eq_None_iff)

end
