(* ===== verification/DeviceInfo.thy ===== *)
theory DeviceInfo
  imports CppStrings UMap
begin

section \<open>The metadata of a paired device\<close>

text \<open>
  \<open>AutoConnectStatus\<close> and \<open>BluetoothDeviceInfo\<close> of \<open>BluetoothDeviceManager.h\<close>, and the
  C casts between the enumeration and an integer. The store holds any integer, so the cast
  back can yield a value that is none of the three enumerators; \<open>AUTO_CONNECT_STATUS_OTHER\<close>
  stands for those. The locale \<open>codec\<close> is the contract shared by the encodings of the
  program (an encoder with a left inverse on its domain).
\<close>

datatype AutoConnectStatus =
    AUTO_CONNECT_STATUS_DISABLED
  | AUTO_CONNECT_STATUS_ENABLED
  | AUTO_CONNECT_STATUS_UNSET
  | AUTO_CONNECT_STATUS_OTHER int

definition acs_to_int :: "AutoConnectStatus \<Rightarrow> int" where
  "acs_to_int a = (case a of AUTO_CONNECT_STATUS_DISABLED \<Rightarrow> 0
     | AUTO_CONNECT_STATUS_ENABLED \<Rightarrow> 1 | AUTO_CONNECT_STATUS_UNSET \<Rightarrow> 2
     | AUTO_CONNECT_STATUS_OTHER i \<Rightarrow> i)"

definition acs_of_int :: "int \<Rightarrow> AutoConnectStatus" where
  "acs_of_int i = (if i = 0 then AUTO_CONNECT_STATUS_DISABLED
     else if i = 1 then AUTO_CONNECT_STATUS_ENABLED
     else if i = 2 then AUTO_CONNECT_STATUS_UNSET
     else AUTO_CONNECT_STATUS_OTHER i)"

definition acs_valid :: "AutoConnectStatus \<Rightarrow> bool" where
  "acs_valid a \<longleftrightarrow> (case a of AUTO_CONNECT_STATUS_OTHER i \<Rightarrow> i \<notin> {0, 1, 2} | _ \<Rightarrow> True)"

record BluetoothDeviceInfo =
  deviceAddr :: string
  deviceType :: string
  friendlyName :: string
  lastVolumeSetting :: int
  autoConnectStatus :: AutoConnectStatus
  lastConnectTimeUtc :: string

definition defaultDeviceInfo :: BluetoothDeviceInfo where
  "defaultDeviceInfo = \<lparr>deviceAddr = '''', deviceType = ''UNKNOWN'', friendlyName = '''',
     lastVolumeSetting = 0, autoConnectStatus = AUTO_CONNECT_STATUS_UNSET,
     lastConnectTimeUtc = ''''\<rparr>"

type_synonym device_cache = "(string, BluetoothDeviceInfo) umap"

definition HID :: string where "HID = ''HUMAN INTERFACE DEVICE''"

subsection \<open>Encodings\<close>

locale codec =
  fixes enc :: "'a \<Rightarrow> 'b" and dec :: "'b \<Rightarrow> 'a" and ok :: "'a \<Rightarrow> bool"
  assumes dec_enc: "ok x \<Longrightarrow> dec (enc x) = x"
begin

lemma enc_inj: "ok x \<Longrightarrow> ok y \<Longrightarrow> enc x = enc y \<Longrightarrow> x = y"
  by (metis dec_enc)

lemma map_dec_enc: "(\<And>x. x \<in> set xs \<Longrightarrow> ok x) \<Longrightarrow> map (dec \<circ> enc) xs = xs"
  by (induction xs) (auto simp: dec_enc)

lemma map_values_dec_enc:
  "(\<And>k v. (k, v) \<in> set m \<Longrightarrow> ok v) \<Longrightarrow> map (\<lambda>(k, v). (k, dec (enc v))) m = m"
  by (rule map_idI) (auto simp: dec_enc)

end

interpretation acs: codec acs_to_int acs_of_int acs_valid
  by unfold_locales
    (auto simp: acs_to_int_def acs_of_int_def acs_valid_def split: AutoConnectStatus.splits)

interpretation decimal: codec to_string_ll "\<lambda>s. st_value (strtoll s)" is_ll
  by unfold_locales (simp add: strtoll_to_string_ll)

lemma acs_valid_of_int [simp]: "acs_valid (acs_of_int i)"
  by (auto simp: acs_valid_def acs_of_int_def)

lemma acs_to_of_int [simp]: "acs_to_int (acs_of_int i) = i"
  by (auto simp: acs_to_int_def acs_of_int_def)

end
