(* ===== verification/Platform.thy ===== *)
theory Platform
  imports DeviceInfo "HOL-Library.Multiset"
begin

section \<open>The platform: everything the plugin calls\<close>

text \<open>
  The code that is not in the repository (BTRMGR, the PersistentStore service, Thunder's
  JSON classes and helper macros, the operating system's failures) is the parameter
  \<open>env\<close> of every definition: one function per call, from the history of external calls
  made so far (\<open>trace\<close>) and the arguments to the reply. An environment that depends on
  the whole history is as general as a stateful one. What the code relies on of it is
  stated by the named predicates at the end of this theory.

  The state \<open>world\<close> holds that history and the files; the components extend the record
  with their own fields. POSIX calls act on \<open>files\<close> as documented unless \<open>e_fault\<close>
  makes them fail; short writes are \<open>e_iolen\<close>.
\<close>

subsection \<open>Result codes\<close>

datatype hresult = ERROR_NONE | ERROR_GENERAL | ERROR_NOT_EXIST | ERROR_UNKNOWN_KEY
  | ERROR_INVALID_PARAMETER | ERROR_OTHER nat

datatype BTRMGR_Result = BTRMGR_RESULT_SUCCESS | BTRMGR_RESULT_GENERIC_FAILURE
  | BTRMGR_RESULT_INIT_FAILED | BTRMGR_RESULT_OTHER nat

datatype errno = ENOENT | EINTR | ERRNO_OTHER nat

subsection \<open>JSON values\<close>

text \<open>
  A \<open>Core::JSON::Variant\<close> by its content type (\<open>JOther\<close>: the types the code never tests
  for), a \<open>JsonArray\<close> as a list of at most 65535 elements (the code counts them with a
  \<open>uint16_t\<close>), a \<open>JsonObject\<close> as its labels and values in order of insertion.
\<close>

datatype json = JEmpty | JBool bool | JNum int | JStr string | JArr "json list"
  | JObj "(string \<times> json) list" | JOther nat

type_synonym json_object = "(string, json) umap"

definition HasLabel :: "json_object \<Rightarrow> string \<Rightarrow> bool" where
  "HasLabel obj label \<longleftrightarrow> um_find obj label \<noteq> None"

definition json_at :: "json_object \<Rightarrow> string \<Rightarrow> json" where
  "json_at obj label = (case um_find obj label of None \<Rightarrow> JEmpty | Some v \<Rightarrow> v)"

subsection \<open>BTRMGR: operation types, commands, devices\<close>

type_synonym handle = "64 word"
type_synonym device_type = nat

datatype BTRMGR_DeviceOperationType =
    BTRMGR_DEVICE_OP_TYPE_AUDIO_OUTPUT | BTRMGR_DEVICE_OP_TYPE_AUDIO_INPUT
  | BTRMGR_DEVICE_OP_TYPE_LE | BTRMGR_DEVICE_OP_TYPE_HID
  | BTRMGR_DEVICE_OP_TYPE_AUDIO_AND_HID | BTRMGR_DEVICE_OP_TYPE_UNKNOWN

datatype BTRMGR_StreamOut = BTRMGR_STREAM_PRIMARY | BTRMGR_STREAM_AUXILIARY

datatype BTRMGR_MediaCtrl = BTRMGR_MEDIA_CTRL_PLAY | BTRMGR_MEDIA_CTRL_PAUSE
  | BTRMGR_MEDIA_CTRL_STOP | BTRMGR_MEDIA_CTRL_NEXT | BTRMGR_MEDIA_CTRL_PREVIOUS
  | BTRMGR_MEDIA_CTRL_VOLUMEUP | BTRMGR_MEDIA_CTRL_VOLUMEDOWN
  | BTRMGR_MEDIA_CTRL_MUTE | BTRMGR_MEDIA_CTRL_UNMUTE | BTRMGR_MEDIA_CTRL_OTHER nat

datatype BTRMGR_ResponseEvent = RESP_EXTERNAL_PAIR_REQUEST | RESP_EXTERNAL_CONNECT_REQUEST
  | RESP_EXTERNAL_PLAYBACK_REQUEST | RESP_EVENT_MAX

text \<open>The BTRMGR calls, all on adapter 0 as in the source.\<close>

datatype bt_call =
    RegisterForCallbacks | RegisterEventCallback | UnRegisterFromCallbacks
  | GetNumberOfAdapters | GetAdapterPowerStatus | IsAdapterDiscoverable
  | SetAdapterPowerStatus bool | SetAdapterDiscoverable bool int
  | GetAdapterName | SetAdapterName string
  | StartDeviceDiscovery BTRMGR_DeviceOperationType
  | StopDeviceDiscovery BTRMGR_DeviceOperationType
  | GetDiscoveredDevices | GetPairedDevices | GetConnectedDevices
  | PairDevice handle | UnpairDevice handle
  | ConnectToDevice handle BTRMGR_DeviceOperationType | DisconnectFromDevice handle
  | StartAudioStreamingIn handle BTRMGR_DeviceOperationType | StopAudioStreamingIn handle
  | StartAudioStreamingOut handle BTRMGR_DeviceOperationType | StopAudioStreamingOut handle
  | SetAudioStreamingOutType BTRMGR_StreamOut
  | MediaControl handle BTRMGR_MediaCtrl
  | SetDeviceVolumeMute handle BTRMGR_DeviceOperationType "8 word" "8 word"
  | GetDeviceVolumeMute handle BTRMGR_DeviceOperationType
  | SetEventResponse handle BTRMGR_ResponseEvent bool
  | GetDeviceProperties handle | GetMediaTrackInfo handle

text \<open>
  The device structures BTRMGR fills in. A \<open>char\<close> array is its C string; the entries of a
  list are the first \<open>m_numOfDevices\<close> of the array.
\<close>

record bt_device =
  m_deviceHandle :: handle
  m_name :: string
  m_deviceAddress :: string
  m_deviceType :: device_type
  m_ui32DevClassBtSpec :: "32 word"
  m_ui16DevAppearanceBleSpec :: "16 word"

record paired_device = bt_device +
  pd_isConnected :: bool
  pd_isLastConnectedDevice :: bool

record discovered_device = bt_device +
  dd_isConnected :: bool
  dd_isPairedDevice :: bool
  dd_isLastConnectedDevice :: bool
  dd_isDiscovered :: bool

record connected_device = bt_device +
  cd_powerStatus :: nat

record device_properties = bt_device +
  dp_vendorID :: "16 word"
  dp_signalLevel :: int
  dp_rssi :: int
  dp_batteryLevel :: "8 word"
  dp_modalias :: string
  dp_firmwareRevision :: string
  dp_profiles :: "string list"

record media_track =
  pcAlbum :: string
  pcGenre :: string
  pcTitle :: string
  pcArtist :: string
  ui32Duration :: "32 word"
  ui32TrackNumber :: "32 word"
  ui32NumberOfTracks :: "32 word"

subsection \<open>Power states\<close>

datatype PowerState = POWER_STATE_UNKNOWN | POWER_STATE_OFF | POWER_STATE_STANDBY
  | POWER_STATE_ON | POWER_STATE_STANDBY_LIGHT_SLEEP | POWER_STATE_STANDBY_DEEP_SLEEP

subsection \<open>The file system\<close>

datatype fs_call =
    FsAccess string | FsOpenRead string | FsTell string | FsRead string
  | FsOpenTrunc string | FsWrite string string | FsFsync string | FsClose string
  | FsRemove string | FsRename string string | FsOpenDir string

type_synonym files = "string \<Rightarrow> string option"

text \<open>What a successful call does to the files, and the failure POSIX prescribes.\<close>

fun fs_effect :: "fs_call \<Rightarrow> files \<Rightarrow> files" where
  "fs_effect (FsOpenTrunc p) f = f(p := Some '''')"
| "fs_effect (FsWrite p d) f = f(p := Some ((case f p of None \<Rightarrow> '''' | Some c \<Rightarrow> c) @ d))"
| "fs_effect (FsRemove p) f = f(p := None)"
| "fs_effect (FsRename p q) f = (case f p of None \<Rightarrow> f | Some c \<Rightarrow> f(p := None, q := Some c))"
| "fs_effect _ f = f"

fun fs_natural :: "fs_call \<Rightarrow> files \<Rightarrow> errno option" where
  "fs_natural (FsAccess p) f = (if f p = None then Some ENOENT else None)"
| "fs_natural (FsOpenRead p) f = (if f p = None then Some ENOENT else None)"
| "fs_natural (FsRemove p) f = (if f p = None then Some ENOENT else None)"
| "fs_natural (FsRename p q) f = (if f p = None then Some ENOENT else None)"
| "fs_natural _ f = None"

subsection \<open>The history of external calls and the state\<close>

datatype ext_event =
    EvStoreAcquire bool | EvStoreRelease
  | EvStoreGet string hresult | EvStoreSet string string hresult | EvStoreDel string hresult
  | EvBT bt_call BTRMGR_Result
  | EvNotify string json_object
  | EvTimerSchedule int | EvTimerRevoke
  | EvShellAddRef | EvShellRelease
  | EvPowerAcquire bool | EvPowerRegister | EvPowerUnregister | EvPowerRead hresult
  | EvIarmInit | EvRegisterMethod string
  | EvFs fs_call "errno option"

type_synonym trace = "ext_event list"

record world =
  trace :: trace
  files :: files

definition emit :: "ext_event \<Rightarrow> 'z world_scheme \<Rightarrow> 'z world_scheme" where
  "emit e w = w\<lparr>trace := trace w @ [e]\<rparr>"

subsection \<open>The environment\<close>

record env =
  e_migration :: bool \<comment> \<open>\<open>BLUETOOTH_ENABLE_PERSISTENCE_MIGRATION\<close>\<close>
  e_path :: string \<comment> \<open>\<open>BLUETOOTH_PERSISTENT_FILE_PATH\<close>\<close>
  e_storeUp :: "trace \<Rightarrow> bool"
  e_storeGet :: "trace \<Rightarrow> string \<Rightarrow> hresult \<times> string"
  e_storeSet :: "trace \<Rightarrow> string \<Rightarrow> string \<Rightarrow> hresult"
  e_storeDel :: "trace \<Rightarrow> string \<Rightarrow> hresult"
  e_bt :: "trace \<Rightarrow> bt_call \<Rightarrow> BTRMGR_Result"
  e_paired :: "trace \<Rightarrow> paired_device list"
  e_discovered :: "trace \<Rightarrow> discovered_device list"
  e_connected :: "trace \<Rightarrow> connected_device list"
  e_devProps :: "trace \<Rightarrow> handle \<Rightarrow> device_properties"
  e_numAdapters :: "trace \<Rightarrow> 8 word"
  e_powerStatus :: "trace \<Rightarrow> 8 word"
  e_discoverable :: "trace \<Rightarrow> 8 word"
  e_adapterName :: "trace \<Rightarrow> string"
  e_volumeMute :: "trace \<Rightarrow> handle \<Rightarrow> 8 word \<times> 8 word"
  e_mediaTrack :: "trace \<Rightarrow> handle \<Rightarrow> media_track"
  e_typeString :: "device_type \<Rightarrow> string option" \<comment> \<open>\<open>BTRMGR_GetDeviceTypeAsString\<close>, None for a null pointer\<close>
  e_now :: "trace \<Rightarrow> int" \<comment> \<open>\<open>time_t\<close>\<close>
  e_fault :: "trace \<Rightarrow> fs_call \<Rightarrow> errno option"
  e_iolen :: "trace \<Rightarrow> nat"
  e_order :: "device_cache \<Rightarrow> device_cache"
  e_parseObj :: "string \<Rightarrow> json_object option"
  e_printObj :: "json_object \<Rightarrow> string"
  e_parseArr :: "string \<Rightarrow> json list"
  e_printArr :: "json list \<Rightarrow> string"
  e_asString :: "json \<Rightarrow> string"
  e_asNumber :: "json \<Rightarrow> int"
  e_asBool :: "json \<Rightarrow> bool"
  e_asArray :: "json \<Rightarrow> json list"
  e_asObject :: "json \<Rightarrow> json_object"
  e_ofCStr :: "string option \<Rightarrow> json" \<comment> \<open>a Variant assigned from a \<open>const char*\<close>\<close>
  e_nullThrows :: bool \<comment> \<open>whether a Variant assigned from a null \<open>const char*\<close> throws\<close>
  e_contains :: "string \<Rightarrow> string \<Rightarrow> bool" \<comment> \<open>\<open>Utils::String::contains\<close>\<close>
  e_equal :: "string \<Rightarrow> string \<Rightarrow> bool" \<comment> \<open>\<open>Utils::String::equal\<close>\<close>
  e_getString :: "json_object \<Rightarrow> string \<Rightarrow> string \<Rightarrow> string" \<comment> \<open>\<open>getStringParameter\<close>\<close>
  e_getNumber :: "json_object \<Rightarrow> string \<Rightarrow> int \<Rightarrow> int" \<comment> \<open>\<open>getNumberParameter\<close>, \<open>getNumberParameterObject\<close>\<close>
  e_getBool :: "json_object \<Rightarrow> string \<Rightarrow> bool \<Rightarrow> bool" \<comment> \<open>\<open>getBoolParameter\<close>\<close>
  e_powerManager :: "trace \<Rightarrow> bool"
  e_powerState :: "trace \<Rightarrow> hresult \<times> PowerState \<times> PowerState" \<comment> \<open>result, current, previous\<close>
  e_intOverflow :: "int \<Rightarrow> int" \<comment> \<open>what the compiled code makes of an overflowing \<open>int\<close> product\<close>
  e_uninitBool :: bool \<comment> \<open>the contents of a local variable that was not initialised\<close>
  e_uninitInt :: int

subsection \<open>External calls\<close>

definition btCall :: "env \<Rightarrow> bt_call \<Rightarrow> 'z world_scheme \<Rightarrow> BTRMGR_Result \<times> 'z world_scheme" where
  "btCall E c w = (let rc = e_bt E (trace w) c in (rc, emit (EvBT c rc) w))"

definition fsCall :: "env \<Rightarrow> fs_call \<Rightarrow> 'z world_scheme \<Rightarrow> errno option \<times> 'z world_scheme" where
  "fsCall E c w =
     (let r = (case e_fault E (trace w) c of Some e \<Rightarrow> Some e | None \<Rightarrow> fs_natural c (files w))
      in (r, emit (EvFs c r) (w\<lparr>files := (if r = None then fs_effect c (files w) else files w)\<rparr>)))"

definition storeAcquire :: "env \<Rightarrow> 'z world_scheme \<Rightarrow> bool \<times> 'z world_scheme" where
  "storeAcquire E w = (let ok = e_storeUp E (trace w) in (ok, emit (EvStoreAcquire ok) w))"

definition storeRelease :: "'z world_scheme \<Rightarrow> 'z world_scheme" where
  "storeRelease w = emit EvStoreRelease w"

definition storeGetValue :: "env \<Rightarrow> string \<Rightarrow> 'z world_scheme \<Rightarrow> hresult \<times> string \<times> 'z world_scheme" where
  "storeGetValue E key w =
     (let (r, v) = e_storeGet E (trace w) key in (r, v, emit (EvStoreGet key r) w))"

definition storeSetValue :: "env \<Rightarrow> string \<Rightarrow> string \<Rightarrow> 'z world_scheme \<Rightarrow> hresult \<times> 'z world_scheme" where
  "storeSetValue E key v w =
     (let r = e_storeSet E (trace w) key v in (r, emit (EvStoreSet key v r) w))"

definition storeDeleteKey :: "env \<Rightarrow> string \<Rightarrow> 'z world_scheme \<Rightarrow> hresult \<times> 'z world_scheme" where
  "storeDeleteKey E key w = (let r = e_storeDel E (trace w) key in (r, emit (EvStoreDel key r) w))"

definition sendNotify :: "string \<Rightarrow> json_object \<Rightarrow> 'z world_scheme \<Rightarrow> 'z world_scheme" where
  "sendNotify ev params w = emit (EvNotify ev params) w"

subsection \<open>What the code relies on\<close>

text \<open>Reading a Variant at its own content type gives the value it holds.\<close>

definition json_accessors :: "env \<Rightarrow> bool" where
  "json_accessors E \<longleftrightarrow>
     (\<forall>s. e_asString E (JStr s) = s) \<and> (\<forall>n. e_asNumber E (JNum n) = n) \<and>
     (\<forall>b. e_asBool E (JBool b) = b) \<and> (\<forall>a. e_asArray E (JArr a) = a) \<and>
     (\<forall>ob. e_asObject E (JObj ob) = ob)"

text \<open>Iterating a container visits each of its entries once.\<close>

definition iterates_all :: "env \<Rightarrow> bool" where
  "iterates_all E \<longleftrightarrow> (\<forall>m. mset (e_order E m) = mset m)"

text \<open>
  The value the store holds under a key after a history: what the last successful
  \<open>SetValue\<close> wrote, unless a successful \<open>DeleteKey\<close> followed.
\<close>

definition store_step :: "ext_event \<Rightarrow> (string \<Rightarrow> string option) \<Rightarrow> (string \<Rightarrow> string option)" where
  "store_step ev m = (case ev of
      EvStoreSet k v r \<Rightarrow> if r = ERROR_NONE then m(k := Some v) else m
    | EvStoreDel k r \<Rightarrow> if r = ERROR_NONE then m(k := None) else m
    | _ \<Rightarrow> m)"

definition store_contents :: "trace \<Rightarrow> string \<Rightarrow> string option" where
  "store_contents tr = fold store_step tr (\<lambda>_. None)"

definition missingFromPersistentStore :: "hresult \<Rightarrow> bool" where
  "missingFromPersistentStore r \<longleftrightarrow> r = ERROR_NOT_EXIST \<or> r = ERROR_UNKNOWN_KEY"

text \<open>
  A store that answers truthfully: \<open>GetValue\<close> returns what is stored, or that it is missing.
\<close>

definition store_faithful :: "env \<Rightarrow> bool" where
  "store_faithful E \<longleftrightarrow>
     (\<forall>tr k. case store_contents tr k of
        Some v \<Rightarrow> e_storeGet E tr k = (ERROR_NONE, v)
      | None \<Rightarrow> missingFromPersistentStore (fst (e_storeGet E tr k)))"

text \<open>
  Writes make progress but for finitely many interruptions: a \<open>write\<close> that accepts
  nothing or fails with \<open>EINTR\<close> brings the history closer to one that does not.
\<close>

definition no_progress :: "env \<Rightarrow> trace \<Rightarrow> string \<Rightarrow> string \<Rightarrow> bool" where
  "no_progress E tr p d \<longleftrightarrow>
     (case e_fault E tr (FsWrite p d) of None \<Rightarrow> e_iolen E tr = 0 | Some e \<Rightarrow> e = EINTR)"

definition bounded_retries :: "env \<Rightarrow> (trace \<Rightarrow> nat) \<Rightarrow> bool" where
  "bounded_retries E B \<longleftrightarrow>
     (\<forall>tr p d c r. no_progress E tr p d \<longrightarrow> B (tr @ [EvFs c r]) < B tr)"

end
