(* ===== verification/Ledger.thy ===== *)
theory Ledger
  imports Platform
begin

section \<open>The ledger of external calls\<close>

text \<open>
  Every operation only appends to the history and changes files only through logged calls.
  \<open>evolves P w w'\<close> says so, with every new event satisfying \<open>P\<close>; it is reflexive and
  transitive, so the fact about an operation is composed from those of its steps.
  \<open>replay\<close> recomputes the files from a history: a crash after a prefix of the events of
  an operation leaves the files \<open>replay\<close> gives for that prefix.
\<close>

definition replay_step :: "ext_event \<Rightarrow> files \<Rightarrow> files" where
  "replay_step ev f = (case ev of EvFs c None \<Rightarrow> fs_effect c f | _ \<Rightarrow> f)"

definition replay :: "trace \<Rightarrow> files \<Rightarrow> files" where
  "replay es f = fold replay_step es f"

definition ledger :: "'z world_scheme \<Rightarrow> trace \<Rightarrow> 'z world_scheme \<Rightarrow> bool" where
  "ledger w es w' \<longleftrightarrow> trace w' = trace w @ es \<and> files w' = replay es (files w)"

definition evolves :: "(ext_event \<Rightarrow> bool) \<Rightarrow> 'z world_scheme \<Rightarrow> 'z world_scheme \<Rightarrow> bool" where
  "evolves P w w' \<longleftrightarrow> (\<exists>es. ledger w es w' \<and> (\<forall>ev \<in> set es. P ev))"

fun fs_touches :: "string \<Rightarrow> fs_call \<Rightarrow> bool" where
  "fs_touches p (FsOpenTrunc q) = (q = p)"
| "fs_touches p (FsWrite q d) = (q = p)"
| "fs_touches p (FsRemove q) = (q = p)"
| "fs_touches p (FsRename q r) = (q = p \<or> r = p)"
| "fs_touches p _ = False"

definition touches :: "string \<Rightarrow> ext_event \<Rightarrow> bool" where
  "touches p ev = (case ev of EvFs c None \<Rightarrow> fs_touches p c | _ \<Rightarrow> False)"

definition is_fs :: "ext_event \<Rightarrow> bool" where
  "is_fs ev = (case ev of EvFs _ _ \<Rightarrow> True | _ \<Rightarrow> False)"

subsection \<open>Replaying\<close>

lemma replay_Nil [simp]: "replay [] f = f"
  by (simp add: replay_def)

lemma replay_Cons [simp]: "replay (ev # es) f = replay es (replay_step ev f)"
  by (simp add: replay_def)

lemma replay_append [simp]: "replay (es @ es') f = replay es' (replay es f)"
  by (simp add: replay_def)

lemma fs_effect_untouched: "\<not> fs_touches p c \<Longrightarrow> fs_effect c f p = f p"
  by (cases c) (auto split: option.splits)

lemma replay_step_untouched: "\<not> touches p ev \<Longrightarrow> replay_step ev f p = f p"
  by (auto simp: touches_def replay_step_def fs_effect_untouched split: ext_event.splits option.splits)

lemma replay_untouched: "(\<forall>ev \<in> set es. \<not> touches p ev) \<Longrightarrow> replay es f p = f p"
  by (induction es arbitrary: f) (auto simp: replay_step_untouched)

subsection \<open>Composition\<close>

lemma ledger_trans: "ledger w es w' \<Longrightarrow> ledger w' es' w'' \<Longrightarrow> ledger w (es @ es') w''"
  by (simp add: ledger_def)

lemma evolves_refl [simp, intro]: "evolves P w w"
  unfolding evolves_def by (rule exI [of _ "[]"]) (simp add: ledger_def)

lemma evolves_trans [trans]: "evolves P w w' \<Longrightarrow> evolves P w' w'' \<Longrightarrow> evolves P w w''"
  unfolding evolves_def by (metis Un_iff ledger_trans set_append)

lemma evolves_mono: "evolves P w w' \<Longrightarrow> (\<And>ev. P ev \<Longrightarrow> Q ev) \<Longrightarrow> evolves Q w w'"
  unfolding evolves_def by blast

lemma evolves_untouched:
  assumes "evolves P w w'" and "\<And>ev. P ev \<Longrightarrow> \<not> touches p ev"
  shows "files w' p = files w p"
proof -
  from assms(1) obtain es where "ledger w es w'" and "\<forall>ev \<in> set es. P ev"
    by (auto simp: evolves_def)
  with assms(2) show ?thesis
    by (auto simp: ledger_def intro: replay_untouched)
qed

lemma evolves_trace: "evolves P w w' \<Longrightarrow> \<exists>es. trace w' = trace w @ es \<and> (\<forall>ev \<in> set es. P ev)"
  by (auto simp: evolves_def ledger_def)

lemma evolves_same:
  "trace w' = trace w \<Longrightarrow> files w' = files w \<Longrightarrow> evolves P w w'"
  unfolding evolves_def by (rule exI [of _ "[]"]) (simp add: ledger_def)

text \<open>An external call changes only the history and the files, none of the component's fields.\<close>

definition io :: "(ext_event \<Rightarrow> bool) \<Rightarrow> 'z world_scheme \<Rightarrow> 'z world_scheme \<Rightarrow> bool" where
  "io P w w' \<longleftrightarrow> evolves P w w' \<and> world.more w' = world.more w"

lemma io_refl [simp, intro]: "io P w w"
  by (simp add: io_def)

lemma io_trans [trans]: "io P w w' \<Longrightarrow> io P w' w'' \<Longrightarrow> io P w w''"
  by (auto simp: io_def intro: evolves_trans)

lemma io_mono: "io P w w' \<Longrightarrow> (\<And>ev. P ev \<Longrightarrow> Q ev) \<Longrightarrow> io Q w w'"
  by (auto simp: io_def intro: evolves_mono)

lemma io_evolves: "io P w w' \<Longrightarrow> evolves P w w'"
  by (simp add: io_def)

lemma io_more [frame_simps]: "io P w w' \<Longrightarrow> world.more w' = world.more w"
  by (simp add: io_def)

lemma io_untouched: "io P w w' \<Longrightarrow> (\<And>ev. P ev \<Longrightarrow> \<not> touches p ev) \<Longrightarrow> files w' p = files w p"
  using evolves_untouched [of P w w' p] by (auto simp: io_def)

subsection \<open>The external calls\<close>

lemma emit_simps [simp]:
  "trace (emit e w) = trace w @ [e]" "files (emit e w) = files w"
  by (simp_all add: emit_def)

lemma more_emit [simp]: "world.more (emit e w) = world.more w"
  by (simp add: emit_def)

lemma evolves_emit: "P e \<Longrightarrow> \<not> is_fs e \<Longrightarrow> evolves P w (emit e w)"
  unfolding evolves_def
  by (rule exI [of _ "[e]"]) (auto simp: ledger_def replay_step_def is_fs_def split: ext_event.splits)

lemma fsCall_ledger: "fsCall E c w = (r, w') \<Longrightarrow> ledger w [EvFs c r] w'"
  by (auto simp: fsCall_def Let_def ledger_def replay_step_def emit_def)

lemma fsCall_io: "fsCall E c w = (r, w') \<Longrightarrow> P (EvFs c r) \<Longrightarrow> io P w w'"
  unfolding io_def evolves_def
  by (intro conjI exI [of _ "[EvFs c r]"] fsCall_ledger) (auto simp: fsCall_def Let_def emit_def)

lemma emit_io: "P e \<Longrightarrow> \<not> is_fs e \<Longrightarrow> io P w (emit e w)"
  by (simp add: io_def evolves_emit)

text \<open>Used backwards: an event more keeps the property.\<close>

lemma io_emit: "io P w v \<Longrightarrow> P e \<Longrightarrow> \<not> is_fs e \<Longrightarrow> io P w (emit e v)"
  by (rule io_trans [OF _ emit_io])

lemma is_fs_simps [simp]:
  "is_fs (EvFs f x)" "\<not> is_fs (EvStoreAcquire ok)" "\<not> is_fs EvStoreRelease" "\<not> is_fs (EvStoreGet k r)"
  "\<not> is_fs (EvStoreSet k v r)" "\<not> is_fs (EvStoreDel k r)" "\<not> is_fs (EvBT c rc)" "\<not> is_fs (EvNotify n ps)"
  "\<not> is_fs EvShellAddRef" "\<not> is_fs EvShellRelease"
  by (simp_all add: is_fs_def)

lemma btCall_io: "btCall E c w = (rc, w') \<Longrightarrow> P (EvBT c rc) \<Longrightarrow> io P w w'"
  by (auto simp: btCall_def Let_def is_fs_def intro!: emit_io)

lemma storeAcquire_io: "storeAcquire E w = (ok, w') \<Longrightarrow> P (EvStoreAcquire ok) \<Longrightarrow> io P w w'"
  by (auto simp: storeAcquire_def Let_def is_fs_def intro!: emit_io)

lemma storeRelease_io: "P EvStoreRelease \<Longrightarrow> io P w (storeRelease w)"
  by (auto simp: storeRelease_def is_fs_def intro!: emit_io)

lemma storeGetValue_io: "storeGetValue E k w = (r, v, w') \<Longrightarrow> P (EvStoreGet k r) \<Longrightarrow> io P w w'"
  by (auto simp: storeGetValue_def is_fs_def split: prod.splits intro!: emit_io)

lemma storeSetValue_io: "storeSetValue E k v w = (r, w') \<Longrightarrow> P (EvStoreSet k v r) \<Longrightarrow> io P w w'"
  by (auto simp: storeSetValue_def Let_def is_fs_def intro!: emit_io)

lemma storeDeleteKey_io: "storeDeleteKey E k w = (r, w') \<Longrightarrow> P (EvStoreDel k r) \<Longrightarrow> io P w w'"
  by (auto simp: storeDeleteKey_def Let_def is_fs_def intro!: emit_io)

lemma sendNotify_io: "P (EvNotify ev ps) \<Longrightarrow> io P w (sendNotify ev ps w)"
  by (auto simp: sendNotify_def is_fs_def intro!: emit_io)

lemma fsCall_files: "fsCall E c w = (r, w') \<Longrightarrow>
    files w' = (if r = None then fs_effect c (files w) else files w)"
  by (auto simp: fsCall_def Let_def emit_def)

lemma fsCall_natural: "fsCall E c w = (None, w') \<Longrightarrow> fs_natural c (files w) = None"
  by (auto simp: fsCall_def Let_def split: option.splits)

subsection \<open>The contents of the store\<close>

lemma store_contents_Nil [simp]: "store_contents [] = (\<lambda>_. None)"
  by (simp add: store_contents_def)

lemma store_contents_snoc [simp]:
  "store_contents (tr @ [ev]) = store_step ev (store_contents tr)"
  by (simp add: store_contents_def)

definition store_write :: "ext_event \<Rightarrow> bool" where
  "store_write ev = (case ev of EvStoreSet _ _ r \<Rightarrow> r = ERROR_NONE
     | EvStoreDel _ r \<Rightarrow> r = ERROR_NONE | _ \<Rightarrow> False)"

lemma store_step_id: "\<not> store_write ev \<Longrightarrow> store_step ev m = m"
  by (auto simp: store_write_def store_step_def split: ext_event.splits)

lemma store_contents_append: "store_contents (tr @ es) = fold store_step es (store_contents tr)"
  by (simp add: store_contents_def)

lemma fold_store_step_id: "\<forall>ev \<in> set es. \<not> store_write ev \<Longrightarrow> fold store_step es m = m"
  by (induction es arbitrary: m) (auto simp: store_step_id)

lemma evolves_store:
  assumes "evolves P w w'" and "\<And>ev. P ev \<Longrightarrow> \<not> store_write ev"
  shows "store_contents (trace w') = store_contents (trace w)"
proof -
  from evolves_trace [OF assms(1)] obtain es
    where tr: "trace w' = trace w @ es" and "\<forall>ev \<in> set es. P ev" by blast
  with assms(2) have "fold store_step es (store_contents (trace w)) = store_contents (trace w)"
    by (intro fold_store_step_id) blast
  with tr show ?thesis by (simp add: store_contents_append)
qed

text \<open>Events that write one key of the store.\<close>

definition writes_key :: "string \<Rightarrow> ext_event \<Rightarrow> bool" where
  "writes_key k ev = (case ev of EvStoreSet k' _ r \<Rightarrow> k' = k \<and> r = ERROR_NONE
     | EvStoreDel k' r \<Rightarrow> k' = k \<and> r = ERROR_NONE | _ \<Rightarrow> False)"

lemma writes_key_write: "writes_key k ev \<Longrightarrow> store_write ev"
  by (auto simp: writes_key_def store_write_def split: ext_event.splits)

lemma store_step_other: "\<not> writes_key k ev \<Longrightarrow> store_step ev m k = m k"
  by (auto simp: writes_key_def store_step_def split: ext_event.splits)

lemma fold_store_other: "\<forall>ev \<in> set es. \<not> writes_key k ev \<Longrightarrow> fold store_step es m k = m k"
  by (induction es arbitrary: m) (auto simp: store_step_other)

lemma store_contents_other:
  "\<forall>ev \<in> set es. \<not> writes_key k ev \<Longrightarrow> store_contents (tr @ es) k = store_contents tr k"
  by (simp add: store_contents_append fold_store_other)

lemma prefix_of_append:
  "p @ q = xs @ ys \<Longrightarrow> (\<exists>zs. xs = p @ zs) \<or> (\<exists>zs. p = xs @ zs \<and> ys = zs @ q)"
  by (metis append_eq_append_conv2)

lemma faithful_Some:
  assumes "store_faithful E" "store_contents tr k = Some v"
  shows "e_storeGet E tr k = (ERROR_NONE, v)"
  using assms(1) [unfolded store_faithful_def, rule_format, of tr k] assms(2) by simp

lemma faithful_None:
  assumes "store_faithful E" "store_contents tr k = None"
  shows "missingFromPersistentStore (fst (e_storeGet E tr k))"
  using assms(1) [unfolded store_faithful_def, rule_format, of tr k] assms(2) by simp

end
