(* ===== verification/PersistenceAdapter.thy ===== *)
theory PersistenceAdapter
  imports Ledger
begin

section \<open>The filesystem persistence file: \<open>BluetoothPersistenceAdapter\<close>\<close>

text \<open>
  \<open>Bluetooth/BluetoothPersistenceAdapter.cpp\<close>: reading the file shared with the legacy AS
  component (\<open>Read\<close>, \<open>ReadRaw\<close>), turning its JSON into device records (\<open>Parse\<close>), and
  replacing it by the current cache (\<open>Write\<close>), which merges the entries already there, writes a
  temporary file in a retry loop and renames it over the target. The loop may run forever
  when the system keeps interrupting it, so \<open>Write\<close> returns an option and None is a call
  that never returns.
\<close>

definition kMaxFilesystemPersistencePayloadBytes :: int where
  "kMaxFilesystemPersistencePayloadBytes = 1024 * 1024"

subsection \<open>Reading numbers and booleans of any JSON type\<close>

definition tryParseInt64 :: "string \<Rightarrow> int option" where
  "tryParseInt64 value =
     (if value = '''' then None
      else let r = strtoll value in
        if st_erange r \<or> st_noconv r \<or> st_rest r \<noteq> '''' then None else Some (st_value r))"

definition tryGetNumericAsInt64 :: "env \<Rightarrow> json_object \<Rightarrow> string \<Rightarrow> int option" where
  "tryGetNumericAsInt64 E object fieldName =
     (if \<not> HasLabel object fieldName then None
      else let value = json_at object fieldName in
        case value of
          JNum _ \<Rightarrow> Some (e_asNumber E value)
        | JStr _ \<Rightarrow> tryParseInt64 (e_asString E value)
        | _ \<Rightarrow> None)"

definition tryGetBoolean :: "env \<Rightarrow> json_object \<Rightarrow> string \<Rightarrow> bool option" where
  "tryGetBoolean E object fieldName =
     (if \<not> HasLabel object fieldName then None
      else let value = json_at object fieldName in
        case value of
          JBool _ \<Rightarrow> Some (e_asBool E value)
        | JNum _ \<Rightarrow> Some (e_asNumber E value \<noteq> 0)
        | JStr _ \<Rightarrow>
            (let lowered = map tolower (e_asString E value) in
             if lowered = ''true'' \<or> lowered = ''1'' then Some True
             else if lowered = ''false'' \<or> lowered = ''0'' then Some False
             else None)
        | _ \<Rightarrow> None)"

subsection \<open>\<open>Parse\<close>\<close>

definition is_JArr :: "json \<Rightarrow> bool" where
  "is_JArr v = (case v of JArr _ \<Rightarrow> True | _ \<Rightarrow> False)"

definition is_JStr :: "json \<Rightarrow> bool" where
  "is_JStr v = (case v of JStr _ \<Rightarrow> True | _ \<Rightarrow> False)"

text \<open>One iteration of the loop of \<open>Parse\<close>.\<close>

definition parseEntry :: "env \<Rightarrow> json \<Rightarrow> BluetoothDeviceInfo" where
  "parseEntry E v =
     (let entry = e_asObject E v;
          info = defaultDeviceInfo;
          info = (if HasLabel entry ''deviceAddr''
                  then info\<lparr>deviceAddr := e_asString E (json_at entry ''deviceAddr'')\<rparr> else info);
          info = (if HasLabel entry ''deviceType''
                  then info\<lparr>deviceType := e_asString E (json_at entry ''deviceType'')\<rparr> else info);
          info = (if HasLabel entry ''friendlyName'' \<and> is_JStr (json_at entry ''friendlyName'')
                  then info\<lparr>friendlyName := e_asString E (json_at entry ''friendlyName'')\<rparr> else info);
          info = (case tryGetNumericAsInt64 E entry ''lastVolumeSetting'' of
                    None \<Rightarrow> info
                  | Some volumeSetting \<Rightarrow> info\<lparr>lastVolumeSetting := volumeSetting\<rparr>);
          info = (case tryGetBoolean E entry ''autoConnectStatus'' of
                    None \<Rightarrow> info
                  | Some autoConnectEnabled \<Rightarrow> info\<lparr>autoConnectStatus :=
                      (if autoConnectEnabled then AUTO_CONNECT_STATUS_ENABLED
                       else AUTO_CONNECT_STATUS_DISABLED)\<rparr>);
          info = (case tryGetNumericAsInt64 E entry ''lastConnectionTimeUTC'' of
                    None \<Rightarrow> info
                  | Some lastConnectionUtc \<Rightarrow>
                      info\<lparr>lastConnectTimeUtc := to_string_ll lastConnectionUtc\<rparr>)
      in info)"

definition Parse :: "env \<Rightarrow> string \<Rightarrow> BluetoothDeviceInfo list
    \<Rightarrow> hresult \<times> BluetoothDeviceInfo list" where
  "Parse E payload devices =
     (case e_parseObj E payload of
        None \<Rightarrow> (ERROR_GENERAL, devices)
      | Some root \<Rightarrow>
          if \<not> HasLabel root ''pairedDevices'' \<or> \<not> is_JArr (json_at root ''pairedDevices'')
          then (ERROR_GENERAL, devices)
          else (ERROR_NONE,
                devices @ map (parseEntry E) (e_asArray E (json_at root ''pairedDevices''))))"

subsection \<open>\<open>Read\<close> and \<open>ReadRaw\<close>\<close>

definition contents :: "string \<Rightarrow> 'z world_scheme \<Rightarrow> string" where
  "contents path w = (case files w path of None \<Rightarrow> '''' | Some c \<Rightarrow> c)"

text \<open>\<open>seekg\<close> to the end and \<open>tellg\<close>: -1 when the stream cannot tell.\<close>

definition fileSize :: "env \<Rightarrow> string \<Rightarrow> 'z world_scheme \<Rightarrow> int \<times> 'z world_scheme" where
  "fileSize E path w = (let (r, w1) = fsCall E (FsTell path) w
     in (if r = None then int (length (contents path w)) else - 1, w1))"

text \<open>\<open>buffer << input.rdbuf()\<close>: what was read, and whether the stream went bad on the way.\<close>

definition readAll :: "env \<Rightarrow> string \<Rightarrow> 'z world_scheme \<Rightarrow> string \<times> bool \<times> 'z world_scheme" where
  "readAll E path w = (let n = e_iolen E (trace w); (r, w1) = fsCall E (FsRead path) w
     in if r = None then (contents path w, False, w1) else (take n (contents path w), True, w1))"

definition readPersistenceFile :: "env \<Rightarrow> 'z world_scheme \<Rightarrow> (hresult + string) \<times> 'z world_scheme" where
  "readPersistenceFile E w =
     (let path = e_path E; (a, w1) = fsCall E (FsAccess path) w in
      case a of
        Some e \<Rightarrow> (Inl (if e = ENOENT then ERROR_NOT_EXIST else ERROR_GENERAL), w1)
      | None \<Rightarrow>
          let (op, w2) = fsCall E (FsOpenRead path) w1 in
          if op \<noteq> None then (Inl ERROR_GENERAL, w2)
          else let (size, w3) = fileSize E path w2 in
            if size < 0 then (Inl ERROR_GENERAL, w3)
            else if kMaxFilesystemPersistencePayloadBytes < size then (Inl ERROR_GENERAL, w3)
            else let (buffer, bad, w4) = readAll E path w3 in
              if bad then (Inl ERROR_GENERAL, w4) else (Inr buffer, w4))"

definition ReadRaw :: "env \<Rightarrow> string \<Rightarrow> 'z world_scheme \<Rightarrow> hresult \<times> string \<times> 'z world_scheme" where
  "ReadRaw E content w =
     (case readPersistenceFile E w of
        (Inl e, w1) \<Rightarrow> (e, content, w1)
      | (Inr buffer, w1) \<Rightarrow> (ERROR_NONE, buffer, w1))"

definition Read :: "env \<Rightarrow> BluetoothDeviceInfo list \<Rightarrow> 'z world_scheme
    \<Rightarrow> hresult \<times> BluetoothDeviceInfo list \<times> 'z world_scheme" where
  "Read E devices w =
     (case readPersistenceFile E w of
        (Inl e, w1) \<Rightarrow> (e, devices, w1)
      | (Inr buffer, w1) \<Rightarrow>
          (case Parse E buffer [] of
             (r, loaded) \<Rightarrow> if r \<noteq> ERROR_NONE then (r, devices, w1) else (ERROR_NONE, loaded, w1)))"

subsection \<open>\<open>Write\<close>: what is written\<close>

text \<open>The entries of the existing file by address: the last entry of an address wins.\<close>

fun collectEntries :: "env \<Rightarrow> json list \<Rightarrow> (string, json_object) umap \<Rightarrow> (string, json_object) umap" where
  "collectEntries E [] acc = acc"
| "collectEntries E (v # vs) acc =
     (let existing = e_asObject E v in
      if \<not> HasLabel existing ''deviceAddr'' then collectEntries E vs acc
      else let addr = e_asString E (json_at existing ''deviceAddr'') in
        if addr \<noteq> '''' then collectEntries E vs (um_put addr existing acc)
        else collectEntries E vs acc)"

definition entriesOfPayload :: "env \<Rightarrow> string \<Rightarrow> (string, json_object) umap" where
  "entriesOfPayload E buffer =
     (case e_parseObj E buffer of
        None \<Rightarrow> []
      | Some root \<Rightarrow>
          if HasLabel root ''pairedDevices'' \<and> is_JArr (json_at root ''pairedDevices'')
          then collectEntries E (e_asArray E (json_at root ''pairedDevices'')) []
          else [])"

definition readExistingEntries :: "env \<Rightarrow> 'z world_scheme \<Rightarrow> (string, json_object) umap \<times> 'z world_scheme" where
  "readExistingEntries E w =
     (let path = e_path E; (op, w1) = fsCall E (FsOpenRead path) w in
      if op \<noteq> None then ([], w1)
      else let (size, w2) = fileSize E path w1 in
        if kMaxFilesystemPersistencePayloadBytes < size then ([], w2)
        else if 0 \<le> size then
          let (buffer, bad, w3) = readAll E path w2 in (entriesOfPayload E buffer, w3)
        else ([], w2))"

text \<open>One iteration of the loop over the cache, for a device with an address.\<close>

definition writeEntry :: "env \<Rightarrow> (string, json_object) umap \<Rightarrow> BluetoothDeviceInfo \<Rightarrow> json_object" where
  "writeEntry E existingEntries info =
     (let addr = deviceAddr info;
          device = (case um_find existingEntries addr of Some d \<Rightarrow> d | None \<Rightarrow> []);
          device = um_put ''deviceAddr'' (JStr addr) device;
          device = um_put ''friendlyName''
            (JStr (if friendlyName info \<noteq> '''' then friendlyName info else addr)) device;
          device = um_put ''deviceType''
            (JStr (if deviceType info \<noteq> '''' then deviceType info else ''UNKNOWN'')) device;
          device = um_put ''lastVolumeSetting'' (JNum (lastVolumeSetting info)) device;
          device =
            (if autoConnectStatus info = AUTO_CONNECT_STATUS_UNSET then
               um_put ''autoConnectStatus''
                 (JBool (case tryGetBoolean E device ''autoConnectStatus'' of
                           Some existingStatus \<Rightarrow> existingStatus | None \<Rightarrow> False)) device
             else um_put ''autoConnectStatus''
                 (JBool (autoConnectStatus info = AUTO_CONNECT_STATUS_ENABLED)) device);
          utc = (if lastConnectTimeUtc info \<noteq> '''' then tryParseInt64 (lastConnectTimeUtc info) else None);
          device =
            (case utc of
               Some lastConnectionUtc \<Rightarrow> um_put ''lastConnectionTimeUTC'' (JNum lastConnectionUtc) device
             | None \<Rightarrow>
                 (case tryGetNumericAsInt64 E device ''lastConnectionTimeUTC'' of
                    Some lastConnectionUtc \<Rightarrow> um_put ''lastConnectionTimeUTC'' (JNum lastConnectionUtc) device
                  | None \<Rightarrow> um_put ''lastConnectionTimeUTC'' (JNum 0) device))
      in device)"

fun writeEntries :: "env \<Rightarrow> (string, json_object) umap \<Rightarrow> (string \<times> BluetoothDeviceInfo) list \<Rightarrow> json list" where
  "writeEntries E existingEntries [] = []"
| "writeEntries E existingEntries ((deviceID, info) # rest) =
     (if deviceAddr info = '''' then writeEntries E existingEntries rest
      else JObj (writeEntry E existingEntries info) # writeEntries E existingEntries rest)"

definition writePayload :: "env \<Rightarrow> (string, json_object) umap \<Rightarrow> device_cache \<Rightarrow> string" where
  "writePayload E existingEntries deviceCache =
     e_printObj E [(''pairedDevices'', JArr (writeEntries E existingEntries (e_order E deviceCache)))]"

subsection \<open>\<open>Write\<close>: how it is written\<close>

text \<open>
  \<open>Write\<close> holds \<open>gFilesystemPersistenceWriteMutex\<close> from its first line to its return, which makes
  no difference to one call; theory Writers has the mutex and the threads that wait for it.
\<close>

definition writeStep :: "env \<Rightarrow> string \<Rightarrow> string \<Rightarrow> 'z world_scheme \<Rightarrow> errno option \<times> nat \<times> 'z world_scheme" where
  "writeStep E path data w =
     (let n = min (e_iolen E (trace w)) (length data) in
      case e_fault E (trace w) (FsWrite path data) of
        Some e \<Rightarrow> (Some e, 0, emit (EvFs (FsWrite path data) (Some e)) w)
      | None \<Rightarrow> (None, n, emit (EvFs (FsWrite path (take n data)) None)
                   (w\<lparr>files := fs_effect (FsWrite path (take n data)) (files w)\<rparr>)))"

text \<open>The \<open>while (remaining > 0)\<close> loop; the result says whether it ended in a write error.\<close>

partial_function (option) writeLoop :: "env \<Rightarrow> string \<Rightarrow> string \<Rightarrow> 'z world_scheme
    \<Rightarrow> (bool \<times> 'z world_scheme) option" where
  "writeLoop E path data w =
     (if data = '''' then Some (False, w)
      else case writeStep E path data w of
        (Some e, _, w1) \<Rightarrow> if e = EINTR then writeLoop E path data w1 else Some (True, w1)
      | (None, n, w1) \<Rightarrow> writeLoop E path (drop n data) w1)"

declare writeLoop.simps [code]

definition parentDir :: "string \<Rightarrow> string" where
  "parentDir path =
     (if CHR ''/'' \<in> set path then rev (tl (dropWhile (\<lambda>c. c \<noteq> CHR ''/'') (rev path))) else ''.'')"

definition tmpPath :: "env \<Rightarrow> string" where
  "tmpPath E = e_path E @ ''.tmp''"

text \<open>The tail of \<open>Write\<close> after the data is in the temporary file.\<close>

definition commitFile :: "env \<Rightarrow> 'z world_scheme \<Rightarrow> hresult \<times> 'z world_scheme" where
  "commitFile E w =
     (let tmp = tmpPath E;
          (_, w1) = fsCall E (FsFsync tmp) w;
          (_, w2) = fsCall E (FsClose tmp) w1;
          (r, w3) = fsCall E (FsRename tmp (e_path E)) w2
      in if r \<noteq> None then
           let (_, w4) = fsCall E (FsRemove tmp) w3 in (ERROR_GENERAL, w4)
         else
           let dir = parentDir (e_path E); (d, w4) = fsCall E (FsOpenDir dir) w3 in
           if d \<noteq> None then (ERROR_NONE, w4)
           else let (_, w5) = fsCall E (FsFsync dir) w4; (_, w6) = fsCall E (FsClose dir) w5
             in (ERROR_NONE, w6))"

definition Write :: "env \<Rightarrow> device_cache \<Rightarrow> 'z world_scheme \<Rightarrow> (hresult \<times> 'z world_scheme) option" where
  "Write E deviceCache w =
     (let (existingEntries, w1) = readExistingEntries E w;
          serialized = writePayload E existingEntries deviceCache;
          tmp = tmpPath E;
          (fd, w2) = fsCall E (FsOpenTrunc tmp) w1
      in if fd \<noteq> None then Some (ERROR_GENERAL, w2)
         else do {
           (writeError, w3) \<leftarrow> writeLoop E tmp serialized w2;
           if writeError then
             (let (_, w4) = fsCall E (FsClose tmp) w3; (_, w5) = fsCall E (FsRemove tmp) w4
              in Some (ERROR_GENERAL, w5))
           else Some (commitFile E w3)
         })"

end
