(* ===== verification/AdapterCorrect.thy ===== *)
theory AdapterCorrect
  imports PersistenceAdapter
begin

section \<open>The persistence adapter is correct\<close>

text \<open>
  Facts about theory PersistenceAdapter: which files its calls change and when (the target
  only by the final rename, so a crash at any point leaves the old or the complete new
  contents), when \<open>Write\<close> returns, and that \<open>Parse\<close> reads back what \<open>Write\<close> wrote.
\<close>

subsection \<open>Reading changes nothing\<close>

definition quiet :: "string \<Rightarrow> ext_event \<Rightarrow> bool" where
  "quiet p ev \<longleftrightarrow> is_fs ev \<and> \<not> touches p ev"

lemma quiet_simps [simp]: "quiet p (EvFs c r) \<longleftrightarrow> r \<noteq> None \<or> \<not> fs_touches p c"
  by (auto simp: quiet_def is_fs_def touches_def split: option.splits)

lemma fsCall_quiet:
  "fsCall E c w = (r, w') \<Longrightarrow> r \<noteq> None \<or> \<not> fs_touches p c \<Longrightarrow> io (quiet p) w w'"
  by (rule fsCall_io) simp_all

lemma fileSize_quiet: "fileSize E path w = (n, w') \<Longrightarrow> io (quiet p) w w'"
  by (auto simp: fileSize_def split: prod.splits dest: fsCall_quiet)

lemma readAll_quiet: "readAll E path w = (b, bad, w') \<Longrightarrow> io (quiet p) w w'"
  by (auto simp: readAll_def Let_def split: prod.splits if_splits dest: fsCall_quiet)

lemma readExistingEntries_quiet:
  assumes "readExistingEntries E w = (m, w')"
  shows "io (quiet p) w w'"
proof -
  obtain op w1 where op: "fsCall E (FsOpenRead (e_path E)) w = (op, w1)" by fastforce
  obtain n w2 where sz: "fileSize E (e_path E) w1 = (n, w2)" by fastforce
  obtain b bad w3 where rd: "readAll E (e_path E) w2 = (b, bad, w3)" by (metis prod_cases3)
  note steps = fsCall_quiet [OF op, of p] fileSize_quiet [OF sz, of p] readAll_quiet [OF rd, of p]
  have "w' = w1 \<or> w' = w2 \<or> w' = w3"
    using assms op sz rd by (auto simp: readExistingEntries_def Let_def split: if_splits)
  with steps show ?thesis by (auto intro: io_trans)
qed

lemma readPersistenceFile_quiet:
  assumes "readPersistenceFile E w = (m, w')"
  shows "io (quiet p) w w'"
proof -
  obtain a w1 where ac: "fsCall E (FsAccess (e_path E)) w = (a, w1)" by fastforce
  obtain op w2 where op: "fsCall E (FsOpenRead (e_path E)) w1 = (op, w2)" by fastforce
  obtain n w3 where sz: "fileSize E (e_path E) w2 = (n, w3)" by fastforce
  obtain b bad w4 where rd: "readAll E (e_path E) w3 = (b, bad, w4)" by (metis prod_cases3)
  note steps = fsCall_quiet [OF ac, of p] fsCall_quiet [OF op, of p] fileSize_quiet [OF sz, of p]
    readAll_quiet [OF rd, of p]
  have "w' = w1 \<or> w' = w2 \<or> w' = w3 \<or> w' = w4"
    using assms ac op sz rd
    by (auto simp: readPersistenceFile_def Let_def split: if_splits option.splits)
  with steps show ?thesis by (auto intro: io_trans)
qed

lemma ReadRaw_quiet: "ReadRaw E c w = (r, c', w') \<Longrightarrow> io (quiet p) w w'"
  by (auto simp: ReadRaw_def split: prod.splits sum.splits dest: readPersistenceFile_quiet)

subsection \<open>The write loop\<close>

lemma tmpPath_neq [simp]: "tmpPath E \<noteq> e_path E" "e_path E \<noteq> tmpPath E"
  by (simp_all add: tmpPath_def)

lemma writeStep_quiet:
  "writeStep E q d w = (r, n, w') \<Longrightarrow> q \<noteq> p \<Longrightarrow> io (quiet p) w w'"
  unfolding io_def evolves_def
  by (auto simp: writeStep_def Let_def emit_def ledger_def replay_step_def
      split: option.splits intro!: exI [of _ "[_]"])

lemma writeStep_data:
  "writeStep E q d w = (r, n, w') \<Longrightarrow> files w q = Some c \<Longrightarrow>
   files w' q = Some (c @ take n d) \<and> n \<le> length d \<and> (r \<noteq> None \<longrightarrow> n = 0)"
  by (auto simp: writeStep_def Let_def split: option.splits)

text \<open>
  What the loop guarantees when it returns: it only wrote to its own file, and unless it
  reports a write error the whole of the data is there.
\<close>

lemma writeLoop_result:
  assumes ret: "writeLoop E q d w = Some (err, w')" and "q \<noteq> p"
  shows "io (quiet p) w w' \<and>
    (\<forall>c. files w q = Some c \<longrightarrow> \<not> err \<longrightarrow> files w' q = Some (c @ d))"
proof -
  let ?P = "\<lambda>E q d w res. q \<noteq> p \<longrightarrow> io (quiet p) w (snd res) \<and>
    (\<forall>c. files w q = Some c \<longrightarrow> \<not> fst res \<longrightarrow> files (snd res) q = Some (c @ d))"
  have "?P E q d w (err, w')"
  proof (rule writeLoop.raw_induct [where P = ?P, OF _ ret])
    fix loop E q d w res
    assume IH: "\<And>E q d w res. loop E q d w = Some res \<Longrightarrow> ?P E q d w res"
      and eq: "(if d = '''' then Some (False, w)
        else case writeStep E q d w of
          (Some e, _, w1) \<Rightarrow> if e = EINTR then loop E q d w1 else Some (True, w1)
        | (None, n, w1) \<Rightarrow> loop E q (drop n d) w1) = Some res"
    show "?P E q d w res"
    proof (cases "d = ''''")
      case True
      with eq show ?thesis by auto
    next
      case False
      obtain r n w1 where st: "writeStep E q d w = (r, n, w1)" by (metis prod_cases3)
      have dat: "files w q = Some c \<Longrightarrow>
          files w1 q = Some (c @ take n d) \<and> (r \<noteq> None \<longrightarrow> n = 0)" for c
        using writeStep_data [OF st] by blast
      show ?thesis
      proof (cases r)
        case None
        with eq False st have "loop E q (drop n d) w1 = Some res" by simp
        from IH [OF this] show ?thesis
          using writeStep_quiet [OF st] dat by (fastforce intro: io_trans)
      next
        case (Some e)
        show ?thesis
        proof (cases "e = EINTR")
          case True
          with Some eq False st have "loop E q d w1 = Some res" by simp
          from IH [OF this] show ?thesis
            using writeStep_quiet [OF st] dat Some by (fastforce intro: io_trans)
        next
          case e: False
          with Some eq False st have "res = (True, w1)" by simp
          then show ?thesis using writeStep_quiet [OF st] by auto
        qed
      qed
    qed
  qed
  with \<open>q \<noteq> p\<close> show ?thesis by simp
qed

subsection \<open>\<open>Write\<close> replaces the target in one step\<close>

lemma commitFile_result:
  assumes "commitFile E w = (r, w')" and "files w (tmpPath E) = Some d"
  shows "(r \<noteq> ERROR_NONE \<longrightarrow> io (quiet (e_path E)) w w') \<and>
    (r = ERROR_NONE \<longrightarrow> (\<exists>w3 w4. io (quiet (e_path E)) w w3 \<and> files w3 (tmpPath E) = Some d \<and>
       fsCall E (FsRename (tmpPath E) (e_path E)) w3 = (None, w4) \<and>
       io (quiet (e_path E)) w4 w'))"
proof -
  let ?p = "e_path E" and ?t = "tmpPath E" and ?dir = "parentDir (e_path E)"
  obtain x1 w1 where s1: "fsCall E (FsFsync ?t) w = (x1, w1)" by fastforce
  obtain x2 w2 where s2: "fsCall E (FsClose ?t) w1 = (x2, w2)" by fastforce
  obtain x3 w3 where s3: "fsCall E (FsRename ?t ?p) w2 = (x3, w3)" by fastforce
  obtain x4 w4 where s4: "fsCall E (FsRemove ?t) w3 = (x4, w4)" by fastforce
  obtain y4 v4 where t4: "fsCall E (FsOpenDir ?dir) w3 = (y4, v4)" by fastforce
  obtain y5 v5 where t5: "fsCall E (FsFsync ?dir) v4 = (y5, v5)" by fastforce
  obtain y6 v6 where t6: "fsCall E (FsClose ?dir) v5 = (y6, v6)" by fastforce
  have q2: "io (quiet ?p) w w2"
    using fsCall_quiet [OF s1, of ?p] fsCall_quiet [OF s2, of ?p] by (auto intro: io_trans)
  have f2: "files w2 ?t = Some d"
    using fsCall_files [OF s1] fsCall_files [OF s2] assms(2) by auto
  have fail: "x3 \<noteq> None \<Longrightarrow> r = ERROR_GENERAL \<and> w' = w4"
    using assms(1) s1 s2 s3 s4 by (auto simp: commitFile_def Let_def)
  have succ: "x3 = None \<Longrightarrow> r = ERROR_NONE \<and> (w' = v4 \<or> w' = v6)"
    using assms(1) s1 s2 s3 t4 t5 t6 by (auto simp: commitFile_def Let_def split: if_splits)
  show ?thesis
  proof (cases "x3 = None")
    case True
    have "io (quiet ?p) w3 v4" "io (quiet ?p) v4 v5" "io (quiet ?p) v5 v6"
      using t4 t5 t6 by (auto elim: fsCall_quiet)
    then have "io (quiet ?p) w3 w'" using succ [OF True] by (auto intro: io_trans)
    with True q2 f2 s3 succ [OF True] show ?thesis by auto
  next
    case False
    have "io (quiet ?p) w2 w3" "io (quiet ?p) w3 w4"
      using s3 s4 False by (auto elim!: fsCall_quiet)
    with q2 fail [OF False] show ?thesis by (auto intro: io_trans)
  qed
qed

lemma Write_result:
  assumes ret: "Write E deviceCache w = Some (r, w')"
    and pay: "writePayload E (fst (readExistingEntries E w)) deviceCache = d"
  shows "(r \<noteq> ERROR_NONE \<longrightarrow> io (quiet (e_path E)) w w') \<and>
    (r = ERROR_NONE \<longrightarrow> (\<exists>w3 w4. io (quiet (e_path E)) w w3 \<and> files w3 (tmpPath E) = Some d \<and>
       fsCall E (FsRename (tmpPath E) (e_path E)) w3 = (None, w4) \<and>
       io (quiet (e_path E)) w4 w'))"
proof -
  let ?p = "e_path E" and ?t = "tmpPath E"
  obtain m w1 where ex: "readExistingEntries E w = (m, w1)" by fastforce
  obtain fd w2 where op: "fsCall E (FsOpenTrunc ?t) w1 = (fd, w2)" by fastforce
  have q2: "io (quiet ?p) w w2"
    using readExistingEntries_quiet [OF ex, of ?p] fsCall_quiet [OF op, of ?p] by (auto intro: io_trans)
  show ?thesis
  proof (cases "fd = None")
    case False
    with ret ex op have "r = ERROR_GENERAL \<and> w' = w2" by (simp add: Write_def Let_def)
    with q2 show ?thesis by simp
  next
    case True
    have f2: "files w2 ?t = Some ''''" using fsCall_files [OF op] True by simp
    from ret ex op True pay obtain err w3 where lp: "writeLoop E ?t d w2 = Some (err, w3)"
      and rest: "(if err then
          (let (_, w4) = fsCall E (FsClose ?t) w3; (_, w5) = fsCall E (FsRemove ?t) w4
           in Some (ERROR_GENERAL, w5))
        else Some (commitFile E w3)) = Some (r, w')"
      by (auto simp: Write_def Let_def elim!: bind_SomeE)
    note lr = writeLoop_result [OF lp, of ?p]
    have q3: "io (quiet ?p) w w3" using q2 lr by (auto intro: io_trans)
    show ?thesis
    proof (cases err)
      case True
      obtain x4 w4 where s4: "fsCall E (FsClose ?t) w3 = (x4, w4)" by fastforce
      obtain x5 w5 where s5: "fsCall E (FsRemove ?t) w4 = (x5, w5)" by fastforce
      have "io (quiet ?p) w w5"
        using q3 fsCall_quiet [OF s4, of ?p] fsCall_quiet [OF s5, of ?p] by (auto intro: io_trans)
      with True rest s4 s5 show ?thesis by auto
    next
      case False
      then have "files w3 ?t = Some d" using lr f2 by simp
      moreover have "commitFile E w3 = (r, w')" using rest False by simp
      ultimately show ?thesis
        using commitFile_result [of E w3 r w' d] q3 by (blast intro: io_trans)
    qed
  qed
qed

lemma Write_files:
  assumes "Write E deviceCache w = Some (r, w')"
  shows "files w' (e_path E) =
    (if r = ERROR_NONE then Some (writePayload E (fst (readExistingEntries E w)) deviceCache)
     else files w (e_path E))"
proof (cases "r = ERROR_NONE")
  case True
  with Write_result [OF assms refl] obtain w3 w4 where
    "files w3 (tmpPath E) = Some (writePayload E (fst (readExistingEntries E w)) deviceCache)"
    and "fsCall E (FsRename (tmpPath E) (e_path E)) w3 = (None, w4)"
    and "io (quiet (e_path E)) w4 w'" by blast
  then show ?thesis using True fsCall_files [of E _ w3 None w4] io_untouched [of "quiet (e_path E)" w4 w' "e_path E"]
    by (simp add: quiet_def)
next
  case False
  with Write_result [OF assms refl] have "io (quiet (e_path E)) w w'" by blast
  then show ?thesis using False io_untouched [of "quiet (e_path E)" w w' "e_path E"]
    by (simp add: quiet_def)
qed

lemma Write_io:
  assumes "Write E deviceCache w = Some (r, w')"
  shows "io is_fs w w'"
proof -
  let ?q = "quiet (e_path E)"
  have fs: "io ?q v v' \<Longrightarrow> io is_fs v v'" for v v' :: "'a world_scheme"
    by (erule io_mono) (simp add: quiet_def)
  show ?thesis
  proof (cases "r = ERROR_NONE")
    case True
    with Write_result [OF assms refl] obtain w3 w4 where a: "io ?q w w3"
      and b: "fsCall E (FsRename (tmpPath E) (e_path E)) w3 = (None, w4)" and c: "io ?q w4 w'" by blast
    have "io is_fs w3 w4" using b by (rule fsCall_io) (simp add: is_fs_def)
    with fs [OF a] fs [OF c] show ?thesis by (blast intro: io_trans)
  next
    case False
    with Write_result [OF assms refl] fs show ?thesis by blast
  qed
qed

subsection \<open>Crashes\<close>

text \<open>
  A crash in the middle of \<open>Write\<close> leaves the files that replaying the events so far gives.
  Before the rename the target is untouched, after it the target is complete.
\<close>

lemma append_snoc_split:
  assumes "p @ q = xs @ y # ys"
  shows "(\<exists>zs. xs = p @ zs) \<or> (\<exists>zs. p = xs @ y # zs \<and> ys = zs @ q)"
proof -
  from assms have "\<exists>us. p = xs @ us \<and> us @ q = y # ys \<or> p @ us = xs \<and> q = us @ y # ys"
    by (simp only: append_eq_append_conv2)
  then obtain us where "p = xs @ us \<and> us @ q = y # ys \<or> p @ us = xs \<and> q = us @ y # ys" ..
  then show ?thesis
  proof
    assume *: "p = xs @ us \<and> us @ q = y # ys"
    then show ?thesis by (cases us) auto
  next
    assume "p @ us = xs \<and> q = us @ y # ys"
    then show ?thesis by auto
  qed
qed

lemma Write_crash:
  assumes ret: "Write E deviceCache w = Some (r, w')"
    and hist: "trace w' = trace w @ done @ rest"
  shows "replay done (files w) (e_path E) = files w (e_path E) \<or>
    replay done (files w) (e_path E) =
      Some (writePayload E (fst (readExistingEntries E w)) deviceCache)"
proof -
  let ?p = "e_path E" and ?d = "writePayload E (fst (readExistingEntries E w)) deviceCache"
  note res = Write_result [OF ret refl]
  show ?thesis
  proof (cases "r = ERROR_NONE")
    case False
    with res obtain es where "ledger w es w'" and q: "\<forall>ev \<in> set es. quiet ?p ev"
      by (auto simp: io_def evolves_def)
    with hist have "es = done @ rest" by (simp add: ledger_def)
    with q have "replay done (files w) ?p = files w ?p"
      by (intro replay_untouched) (auto simp: quiet_def)
    then show ?thesis ..
  next
    case True
    with res obtain w3 w4 where a: "io (quiet ?p) w w3" and d: "files w3 (tmpPath E) = Some ?d"
      and ren: "fsCall E (FsRename (tmpPath E) ?p) w3 = (None, w4)" and c: "io (quiet ?p) w4 w'"
      by blast
    from a obtain es1 where l1: "ledger w es1 w3" and q1: "\<forall>ev \<in> set es1. quiet ?p ev"
      by (auto simp: io_def evolves_def)
    from c obtain es2 where l2: "ledger w4 es2 w'" and q2: "\<forall>ev \<in> set es2. quiet ?p ev"
      by (auto simp: io_def evolves_def)
    let ?ev = "EvFs (FsRename (tmpPath E) ?p) None"
    have "trace w' = trace w @ es1 @ ?ev # es2"
      using l1 fsCall_ledger [OF ren] l2 by (simp add: ledger_def)
    with hist have "done @ rest = es1 @ ?ev # es2" by simp
    then consider zs where "es1 = done @ zs" | zs where "done = es1 @ ?ev # zs" "es2 = zs @ rest"
      using append_snoc_split [of "done" rest es1 ?ev es2] by metis
    then show ?thesis
    proof cases
      case 1
      with q1 have "replay done (files w) ?p = files w ?p"
        by (intro replay_untouched) (auto simp: quiet_def)
      then show ?thesis ..
    next
      case 2
      have "replay done (files w) ?p = replay zs (files w4) ?p"
        using 2 l1 fsCall_ledger [OF ren] by (simp add: ledger_def)
      also have "\<dots> = files w4 ?p"
        using q2 2 by (intro replay_untouched) (auto simp: quiet_def)
      also have "\<dots> = Some ?d" using fsCall_files [OF ren] d by simp
      finally show ?thesis by simp
    qed
  qed
qed

subsection \<open>\<open>Write\<close> returns\<close>

lemma writeStep_trace: "writeStep E q d w = (r, n, w') \<Longrightarrow> \<exists>c x. trace w' = trace w @ [EvFs c x]"
  by (auto simp: writeStep_def Let_def split: option.splits)

lemma writeLoop_Nil [simp]: "writeLoop E q '''' w = Some (False, w)"
  by (subst writeLoop.simps) simp

lemma writeLoop_total:
  assumes retries: "bounded_retries E B"
  shows "\<exists>res. writeLoop E q d w = Some res"
proof (induction "(length d, B (trace w))" arbitrary: d w rule: wf_induct_rule [OF wf_lex_prod [OF wf_less wf_less]])
  case 1
  show ?case
  proof (cases "d = ''''")
    case True
    then show ?thesis by (metis writeLoop_Nil)
  next
    case False
    obtain r n w1 where st: "writeStep E q d w = (r, n, w1)" by (metis prod_cases3)
    show ?thesis
    proof (cases "no_progress E (trace w) q d")
      case True
      then have "B (trace w1) < B (trace w)"
        using writeStep_trace [OF st] retries unfolding bounded_retries_def by metis
      then have "\<exists>res. writeLoop E q d w1 = Some res"
        by (intro "1") simp
      moreover have "r = Some EINTR \<or> r = None \<and> n = 0"
        using st True by (auto simp: writeStep_def no_progress_def Let_def split: option.splits)
      ultimately show ?thesis using False st by (auto simp: writeLoop.simps [of E q d w])
    next
      case progress: False
      show ?thesis
      proof (cases r)
        case None
        then have "0 < n"
          using st progress False
          by (auto simp: writeStep_def no_progress_def Let_def split: option.splits)
        then have "\<exists>res. writeLoop E q (drop n d) w1 = Some res"
          using False by (intro "1") simp
        then show ?thesis using None False st by (auto simp: writeLoop.simps [of E q d w])
      next
        case (Some e)
        then have "e \<noteq> EINTR"
          using st progress by (auto simp: writeStep_def no_progress_def Let_def split: option.splits)
        then have "writeLoop E q d w = Some (True, w1)"
          using Some False st by (simp add: writeLoop.simps [of E q d w])
        then show ?thesis by blast
      qed
    qed
  qed
qed

lemma Write_total:
  assumes "bounded_retries E B"
  shows "\<exists>res. Write E deviceCache w = Some res"
proof -
  obtain m w1 where ex: "readExistingEntries E w = (m, w1)" by fastforce
  obtain fd w2 where op: "fsCall E (FsOpenTrunc (tmpPath E)) w1 = (fd, w2)" by fastforce
  obtain err w3 where lp: "writeLoop E (tmpPath E) (writePayload E m deviceCache) w2 = Some (err, w3)"
    using writeLoop_total [OF assms] by fastforce
  show ?thesis
    by (cases fd; cases err) (simp_all add: Write_def Let_def ex op lp split: prod.split)
qed

subsection \<open>\<open>Parse\<close> after \<open>Write\<close>\<close>

text \<open>What the file keeps of a device: the specification of the pair \<open>Write\<close>, \<open>Parse\<close>.\<close>

definition oldEntry :: "(string, json_object) umap \<Rightarrow> BluetoothDeviceInfo \<Rightarrow> json_object" where
  "oldEntry ex info = (case um_find ex (deviceAddr info) of Some d \<Rightarrow> d | None \<Rightarrow> [])"

definition writtenAuto :: "env \<Rightarrow> (string, json_object) umap \<Rightarrow> BluetoothDeviceInfo \<Rightarrow> bool" where
  "writtenAuto E ex info \<longleftrightarrow> autoConnectStatus info = AUTO_CONNECT_STATUS_ENABLED \<or>
     autoConnectStatus info = AUTO_CONNECT_STATUS_UNSET \<and>
     tryGetBoolean E (oldEntry ex info) ''autoConnectStatus'' = Some True"

definition writtenUtc :: "env \<Rightarrow> (string, json_object) umap \<Rightarrow> BluetoothDeviceInfo \<Rightarrow> int" where
  "writtenUtc E ex info =
     (case (if lastConnectTimeUtc info \<noteq> '''' then tryParseInt64 (lastConnectTimeUtc info) else None) of
        Some t \<Rightarrow> t
      | None \<Rightarrow> (case tryGetNumericAsInt64 E (oldEntry ex info) ''lastConnectionTimeUTC'' of
                   Some t \<Rightarrow> t | None \<Rightarrow> 0))"

definition persistedInfo :: "env \<Rightarrow> (string, json_object) umap \<Rightarrow> BluetoothDeviceInfo \<Rightarrow> BluetoothDeviceInfo" where
  "persistedInfo E ex info = info
     \<lparr>deviceType := (if deviceType info \<noteq> '''' then deviceType info else ''UNKNOWN''),
      friendlyName := (if friendlyName info \<noteq> '''' then friendlyName info else deviceAddr info),
      autoConnectStatus := (if writtenAuto E ex info then AUTO_CONNECT_STATUS_ENABLED
         else AUTO_CONNECT_STATUS_DISABLED),
      lastConnectTimeUtc := to_string_ll (writtenUtc E ex info)\<rparr>"

lemma HasLabel_put [simp]: "HasLabel (um_put k v ob) l \<longleftrightarrow> l = k \<or> HasLabel ob l"
  by (simp add: HasLabel_def)

lemma json_at_put [simp]: "json_at (um_put k v ob) l = (if l = k then v else json_at ob l)"
  by (simp add: json_at_def)

lemma tryGetBoolean_put [simp]:
  "f \<noteq> k \<Longrightarrow> tryGetBoolean E (um_put k v ob) f = tryGetBoolean E ob f"
  by (simp add: tryGetBoolean_def)

lemma tryGetNumeric_put [simp]:
  "f \<noteq> k \<Longrightarrow> tryGetNumericAsInt64 E (um_put k v ob) f = tryGetNumericAsInt64 E ob f"
  by (simp add: tryGetNumericAsInt64_def)

lemma accessors [simp]:
  assumes "json_accessors E"
  shows "e_asString E (JStr s) = s" "e_asNumber E (JNum n) = n" "e_asBool E (JBool b) = b"
    "e_asArray E (JArr a) = a" "e_asObject E (JObj ob) = ob"
  using assms by (simp_all add: json_accessors_def)

lemma tryGet_own:
  assumes "json_accessors E"
  shows "tryGetNumericAsInt64 E (um_put k (JNum n) ob) k = Some n"
    and "tryGetBoolean E (um_put k (JBool b) ob) k = Some b"
  using assms by (simp_all add: tryGetNumericAsInt64_def tryGetBoolean_def)

lemma writeEntry_puts:
  "writeEntry E ex info =
     um_put ''lastConnectionTimeUTC'' (JNum (writtenUtc E ex info))
      (um_put ''autoConnectStatus'' (JBool (writtenAuto E ex info))
       (um_put ''lastVolumeSetting'' (JNum (lastVolumeSetting info))
        (um_put ''deviceType'' (JStr (if deviceType info \<noteq> '''' then deviceType info else ''UNKNOWN''))
         (um_put ''friendlyName'' (JStr (if friendlyName info \<noteq> '''' then friendlyName info else deviceAddr info))
          (um_put ''deviceAddr'' (JStr (deviceAddr info)) (oldEntry ex info))))))"
proof -
  have b: "(case tryGetBoolean E (oldEntry ex info) ''autoConnectStatus'' of Some x \<Rightarrow> x | None \<Rightarrow> False)
      \<longleftrightarrow> tryGetBoolean E (oldEntry ex info) ''autoConnectStatus'' = Some True"
    by (simp split: option.split)
  show ?thesis
    by (simp add: writeEntry_def Let_def oldEntry_def [symmetric] writtenAuto_def writtenUtc_def b
        split: option.split)
qed

lemma parseEntry_writeEntry:
  assumes "json_accessors E"
  shows "parseEntry E (JObj (writeEntry E ex info)) = persistedInfo E ex info"
  using assms
  by (simp add: parseEntry_def Let_def writeEntry_puts persistedInfo_def is_JStr_def tryGet_own
      defaultDeviceInfo_def)

lemma writeEntries_map:
  "writeEntries E ex m =
     map (\<lambda>(k, info). JObj (writeEntry E ex info)) (filter (\<lambda>(k, info). deviceAddr info \<noteq> '''') m)"
  by (induction E ex m rule: writeEntries.induct) auto

text \<open>The devices a cache leaves in the file.\<close>

definition persistedDevices :: "env \<Rightarrow> (string, json_object) umap \<Rightarrow> device_cache \<Rightarrow> BluetoothDeviceInfo list" where
  "persistedDevices E ex m =
     map (\<lambda>(k, info). persistedInfo E ex info) (filter (\<lambda>(k, info). deviceAddr info \<noteq> '''') (e_order E m))"

definition payload_ok :: "env \<Rightarrow> (string, json_object) umap \<Rightarrow> device_cache \<Rightarrow> bool" where
  "payload_ok E ex m \<longleftrightarrow>
     (let root = [(''pairedDevices'', JArr (writeEntries E ex (e_order E m)))]
      in e_parseObj E (e_printObj E root) = Some root)"

lemma Parse_writePayload:
  assumes acc: "json_accessors E" and pay: "payload_ok E ex m"
  shows "Parse E (writePayload E ex m) ds = (ERROR_NONE, ds @ persistedDevices E ex m)"
proof -
  have "map (parseEntry E) (writeEntries E ex (e_order E m)) = persistedDevices E ex m"
    unfolding writeEntries_map persistedDevices_def
    using acc by (auto simp: parseEntry_writeEntry)
  then show ?thesis
    using acc pay by (simp add: Parse_def writePayload_def payload_ok_def HasLabel_def json_at_def is_JArr_def Let_def)
qed

subsection \<open>\<open>Write\<close> succeeds when no call fails\<close>

definition no_faults :: "env \<Rightarrow> bool" where
  "no_faults E \<longleftrightarrow> (\<forall>tr c. e_fault E tr c = None)"

lemma no_faults_fsCall: "no_faults E \<Longrightarrow> fsCall E c w = (r, w') \<Longrightarrow> r = fs_natural c (files w)"
  by (auto simp: fsCall_def no_faults_def Let_def)

lemma writeLoop_no_faults:
  assumes ret: "writeLoop E q d w = Some (err, w')" and "no_faults E"
  shows "\<not> err"
proof -
  let ?P = "\<lambda>E q d w res. no_faults E \<longrightarrow> \<not> fst res"
  have "?P E q d w (err, w')"
  proof (rule writeLoop.raw_induct [where P = ?P, OF _ ret])
    fix loop E q d w res
    assume IH: "\<And>E q d w res. loop E q d w = Some res \<Longrightarrow> ?P E q d w res"
      and eq: "(if d = '''' then Some (False, w)
        else case writeStep E q d w of
          (Some e, _, w1) \<Rightarrow> if e = EINTR then loop E q d w1 else Some (True, w1)
        | (None, n, w1) \<Rightarrow> loop E q (drop n d) w1) = Some res"
    obtain r n w1 where st: "writeStep E q d w = (r, n, w1)" by (metis prod_cases3)
    show "?P E q d w res"
    proof
      assume nf: "no_faults E"
      then have "r = None" using st by (auto simp: writeStep_def no_faults_def Let_def)
      with eq st nf show "\<not> fst res" by (cases "d = ''''") (auto dest: IH)
    qed
  qed
  with assms(2) show ?thesis by simp
qed

lemma commitFile_no_faults:
  assumes "no_faults E" "files w (tmpPath E) = Some d" "commitFile E w = (r, w')"
  shows "r = ERROR_NONE"
proof -
  obtain x1 w1 where s1: "fsCall E (FsFsync (tmpPath E)) w = (x1, w1)" by fastforce
  obtain x2 w2 where s2: "fsCall E (FsClose (tmpPath E)) w1 = (x2, w2)" by fastforce
  obtain x3 w3 where s3: "fsCall E (FsRename (tmpPath E) (e_path E)) w2 = (x3, w3)" by fastforce
  have "files w2 (tmpPath E) = Some d"
    using fsCall_files [OF s1] fsCall_files [OF s2] assms(2) by simp
  then have "x3 = None" using no_faults_fsCall [OF assms(1) s3] by simp
  then show ?thesis using assms(3) s1 s2 s3 by (simp add: commitFile_def Let_def split: prod.splits if_splits)
qed

lemma Write_succeeds:
  assumes "no_faults E" "Write E cache w = Some (r, w')"
  shows "r = ERROR_NONE"
proof -
  let ?t = "tmpPath E" and ?d = "writePayload E (fst (readExistingEntries E w)) cache"
  obtain m w1 where ex: "readExistingEntries E w = (m, w1)" by fastforce
  obtain fd w2 where op: "fsCall E (FsOpenTrunc ?t) w1 = (fd, w2)" by fastforce
  have fd: "fd = None" using no_faults_fsCall [OF assms(1) op] by simp
  then have f2: "files w2 ?t = Some ''''" using fsCall_files [OF op] by simp
  from assms(2) ex op fd obtain err w3 where lp: "writeLoop E ?t ?d w2 = Some (err, w3)"
    and rest: "\<not> err \<longrightarrow> commitFile E w3 = (r, w')"
    by (fastforce simp: Write_def Let_def elim!: bind_SomeE split: if_splits)
  have err: "\<not> err" using lp assms(1) by (rule writeLoop_no_faults)
  have "files w3 ?t = Some ?d" using writeLoop_result [OF lp, of "e_path E"] f2 err by simp
  then show ?thesis using commitFile_no_faults [OF assms(1)] rest err by blast
qed

subsection \<open>Reading what was written\<close>

lemma readPersistenceFile_no_faults:
  assumes "no_faults E" "files w (e_path E) = Some d"
  shows "fst (readPersistenceFile E w) =
    (if kMaxFilesystemPersistencePayloadBytes < int (length d) then Inl ERROR_GENERAL else Inr d)"
  using assms
  by (simp add: readPersistenceFile_def fsCall_def no_faults_def fileSize_def readAll_def contents_def
      emit_def Let_def split: if_splits)

lemma Read_no_faults:
  assumes "no_faults E" "files w (e_path E) = Some d" "Parse E d [] = (ERROR_NONE, loaded)"
  shows "(fst (Read E ds w), fst (snd (Read E ds w))) =
    (if kMaxFilesystemPersistencePayloadBytes < int (length d) then (ERROR_GENERAL, ds) else (ERROR_NONE, loaded))"
  using readPersistenceFile_no_faults [OF assms(1,2)] assms(3)
  by (auto simp: Read_def split: prod.splits sum.splits if_splits)

lemma ReadRaw_no_faults:
  assumes "no_faults E" "files w (e_path E) = Some d"
  shows "ReadRaw E c w = (r, c', w') \<Longrightarrow> r = ERROR_NONE \<Longrightarrow> c' = d"
  using readPersistenceFile_no_faults [OF assms]
  by (auto simp: ReadRaw_def split: prod.splits sum.splits if_splits)

lemma ReadRaw_present:
  assumes "no_faults E" "files w (e_path E) = Some d" "ReadRaw E c w = (r, c', w')"
  shows "r \<noteq> ERROR_NOT_EXIST"
  using readPersistenceFile_no_faults [OF assms(1,2)] assms(3)
  by (auto simp: ReadRaw_def split: prod.splits sum.splits if_splits)

end
