(* ===== verification/SampleEnv.thy ===== *)
theory SampleEnv
  imports AdapterCorrect "HOL-Library.Sublist"
begin

section \<open>A concrete platform\<close>

text \<open>
  An environment in which everything works: a truthful store, file calls that succeed,
  BTRMGR with a headphone (handle 42) and a keyboard (handle 77) paired, and a text encoding
  of JSON that is read back exactly. The witnesses of the properties evaluate the model in
  it and in variations of it.
\<close>

subsection \<open>A text encoding of JSON\<close>

fun enc_str :: "string \<Rightarrow> string" where
  "enc_str [] = ''.''"
| "enc_str (c # cs) = CHR ''_'' # c # enc_str cs"

fun dec_str :: "string \<Rightarrow> (string \<times> string) option" where
  "dec_str (m # c # r) = (if m = CHR ''_'' then
     (case dec_str r of None \<Rightarrow> None | Some (s, r') \<Rightarrow> Some (c # s, r'))
     else if m = CHR ''.'' then Some ([], c # r) else None)"
| "dec_str [m] = (if m = CHR ''.'' then Some ([], []) else None)"
| "dec_str [] = None"

definition dec_int :: "string \<Rightarrow> int" where
  "dec_int s = (case s of c # r \<Rightarrow> if c = CHR ''-'' then - int (digits_value r) else int (digits_value s) | [] \<Rightarrow> 0)"

fun enc_json :: "json \<Rightarrow> string" where
  "enc_json JEmpty = ''E''"
| "enc_json (JBool b) = (if b then ''T'' else ''F'')"
| "enc_json (JNum n) = CHR ''N'' # enc_str (to_string_ll n)"
| "enc_json (JStr s) = CHR ''S'' # enc_str s"
| "enc_json (JArr vs) = CHR ''A'' # concat (map enc_json vs) @ '']''"
| "enc_json (JObj ms) = CHR ''O'' # concat (map (\<lambda>(k, v). CHR '','' # enc_str k @ enc_json v) ms) @ '']''"
| "enc_json (JOther n) = CHR ''X'' # enc_str (nat_to_string n)"

text \<open>The reader; the fuel is the length of the text.\<close>

fun dec_json :: "nat \<Rightarrow> string \<Rightarrow> (json \<times> string) option"
  and dec_arr :: "nat \<Rightarrow> string \<Rightarrow> (json list \<times> string) option"
  and dec_obj :: "nat \<Rightarrow> string \<Rightarrow> ((string \<times> json) list \<times> string) option"
where
  "dec_json 0 s = None"
| "dec_json (Suc n) s = (case s of [] \<Rightarrow> None | c # r \<Rightarrow>
     if c = CHR ''E'' then Some (JEmpty, r)
     else if c = CHR ''T'' then Some (JBool True, r)
     else if c = CHR ''F'' then Some (JBool False, r)
     else if c = CHR ''N'' then map_option (\<lambda>(t, r'). (JNum (dec_int t), r')) (dec_str r)
     else if c = CHR ''S'' then map_option (\<lambda>(t, r'). (JStr t, r')) (dec_str r)
     else if c = CHR ''X'' then map_option (\<lambda>(t, r'). (JOther (digits_value t), r')) (dec_str r)
     else if c = CHR ''A'' then map_option (\<lambda>(t, r'). (JArr t, r')) (dec_arr n r)
     else if c = CHR ''O'' then map_option (\<lambda>(t, r'). (JObj t, r')) (dec_obj n r)
     else None)"
| "dec_arr 0 s = None"
| "dec_arr (Suc n) s = (if s \<noteq> [] \<and> hd s = CHR '']'' then Some ([], tl s)
     else case dec_json n s of None \<Rightarrow> None
       | Some (v, r) \<Rightarrow> map_option (\<lambda>(vs, r'). (v # vs, r')) (dec_arr n r))"
| "dec_obj 0 s = None"
| "dec_obj (Suc n) s = (case s of [] \<Rightarrow> None | c # r \<Rightarrow>
     if c = CHR '']'' then Some ([], r)
     else case dec_str r of None \<Rightarrow> None
       | Some (k, r1) \<Rightarrow> (case dec_json n r1 of None \<Rightarrow> None
         | Some (v, r2) \<Rightarrow> map_option (\<lambda>(ms, r3). ((k, v) # ms, r3)) (dec_obj n r2)))"

lemma dec_enc_str [simp]: "dec_str (enc_str s @ r) = Some (s, r)"
proof (induction s)
  case Nil
  then show ?case by (cases r) simp_all
qed simp

lemma enc_str_length: "length (enc_str s) = Suc (2 * length s)"
  by (induction s) simp_all

lemma dec_enc_int [simp]: "dec_int (to_string_ll n) = n"
proof (cases "n < 0")
  case True
  then show ?thesis by (simp add: dec_int_def to_string_ll_def)
next
  case False
  obtain c r where s: "nat_to_string (nat n) = c # r" by (cases "nat_to_string (nat n)") simp_all
  have "is_digit c" using nat_to_string_hd [of "nat n"] s by simp
  then have "c \<noteq> CHR ''-''" by (simp add: digit_not_sign)
  with False s show ?thesis
    using digits_value_nat_to_string [of "nat n"] by (simp add: dec_int_def to_string_ll_def)
qed

lemma enc_json_head: "\<exists>c r. enc_json v = c # r \<and> c \<noteq> CHR '']''"
  by (cases v) auto

lemma dec_enc_json: "length (enc_json v) \<le> n \<Longrightarrow> dec_json n (enc_json v @ r) = Some (v, r)"
proof (induction v arbitrary: n r rule: json.induct)
  case (JArr vs)
  have arr: "(\<And>v n r. v \<in> set us \<Longrightarrow> length (enc_json v) \<le> n \<Longrightarrow> dec_json n (enc_json v @ r) = Some (v, r)) \<Longrightarrow>
      length (concat (map enc_json us)) < n \<Longrightarrow>
      dec_arr n (concat (map enc_json us) @ CHR '']'' # r) = Some (us, r)" for us n r
  proof (induction us arbitrary: n)
    case Nil
    then show ?case by (cases n) simp_all
  next
    case (Cons u us)
    obtain c t where u: "enc_json u = c # t" "c \<noteq> CHR '']''" using enc_json_head by blast
    obtain m where n: "n = Suc m" using Cons.prems(2) by (cases n) simp_all
    have "dec_json m (enc_json u @ concat (map enc_json us) @ CHR '']'' # r) =
        Some (u, concat (map enc_json us) @ CHR '']'' # r)"
      using Cons.prems n by (intro Cons.prems(1)) simp_all
    moreover have "dec_arr m (concat (map enc_json us) @ CHR '']'' # r) = Some (us, r)"
      using Cons.prems n u by (intro Cons.IH) simp_all
    ultimately show ?case using n u by simp
  qed
  obtain m where "n = Suc m" using JArr.prems by (cases n) simp_all
  with JArr show ?case using arr [of vs m r] by simp
next
  case (JObj ms)
  let ?mem = "\<lambda>(k, v). CHR '','' # enc_str k @ enc_json v"
  have obj: "(\<And>k v n r. (k, v) \<in> set us \<Longrightarrow> length (enc_json v) \<le> n \<Longrightarrow> dec_json n (enc_json v @ r) = Some (v, r)) \<Longrightarrow>
      length (concat (map ?mem us)) < n \<Longrightarrow>
      dec_obj n (concat (map ?mem us) @ CHR '']'' # r) = Some (us, r)" for us n r
  proof (induction us arbitrary: n)
    case Nil
    then show ?case by (cases n) simp_all
  next
    case (Cons u us)
    obtain k v where u: "u = (k, v)" by (cases u)
    obtain m where n: "n = Suc m" using Cons.prems(2) by (cases n) simp_all
    have "dec_json m (enc_json v @ concat (map ?mem us) @ CHR '']'' # r) =
        Some (v, concat (map ?mem us) @ CHR '']'' # r)"
      using Cons.prems n u by (intro Cons.prems(1) [of k v]) simp_all
    moreover have "dec_obj m (concat (map ?mem us) @ CHR '']'' # r) = Some (us, r)"
      using Cons.prems n u by (intro Cons.IH) auto
    ultimately show ?case using n u by simp
  qed
  obtain m where "n = Suc m" using JObj.prems by (cases n) simp_all
  with JObj show ?case using obj [of ms m r] by force
qed (case_tac [!] n, auto split: if_splits)

lemma dec_obj_exact: "dec_json (length (enc_json v)) (enc_json v) = Some (v, [])"
  using dec_enc_json [of v "length (enc_json v)" "[]"] by simp

subsection \<open>The platform\<close>

definition headphones :: paired_device where
  "headphones = \<lparr>m_deviceHandle = 42, m_name = ''Cans'', m_deviceAddress = ''AA:01'', m_deviceType = 1,
     m_ui32DevClassBtSpec = 0, m_ui16DevAppearanceBleSpec = 0,
     pd_isConnected = True, pd_isLastConnectedDevice = True\<rparr>"

definition keyboard :: paired_device where
  "keyboard = \<lparr>m_deviceHandle = 77, m_name = ''Keys'', m_deviceAddress = ''AA:02'', m_deviceType = 2,
     m_ui32DevClassBtSpec = 0, m_ui16DevAppearanceBleSpec = 0,
     pd_isConnected = True, pd_isLastConnectedDevice = False\<rparr>"

definition sampleDiscovered :: discovered_device where
  "sampleDiscovered = \<lparr>m_deviceHandle = 99, m_name = ''Speaker'', m_deviceAddress = ''AA:03'', m_deviceType = 1,
     m_ui32DevClassBtSpec = 0, m_ui16DevAppearanceBleSpec = 0, dd_isConnected = False,
     dd_isPairedDevice = False, dd_isLastConnectedDevice = False, dd_isDiscovered = True\<rparr>"

definition sampleConnected :: connected_device where
  "sampleConnected = \<lparr>m_deviceHandle = 42, m_name = ''Cans'', m_deviceAddress = ''AA:01'', m_deviceType = 1,
     m_ui32DevClassBtSpec = 0, m_ui16DevAppearanceBleSpec = 0, cd_powerStatus = 0\<rparr>"

definition sampleProps :: "handle \<Rightarrow> device_properties" where
  "sampleProps h = \<lparr>m_deviceHandle = h, m_name = ''Speaker'', m_deviceAddress = ''AA:03'', m_deviceType = 1,
     m_ui32DevClassBtSpec = 0, m_ui16DevAppearanceBleSpec = 0,
     dp_vendorID = 0, dp_signalLevel = 0, dp_rssi = 0, dp_batteryLevel = 50, dp_modalias = '''',
     dp_firmwareRevision = '''', dp_profiles = []\<rparr>"

definition sampleStoreGet :: "trace \<Rightarrow> string \<Rightarrow> hresult \<times> string" where
  "sampleStoreGet tr k = (case store_contents tr k of Some v \<Rightarrow> (ERROR_NONE, v) | None \<Rightarrow> (ERROR_NOT_EXIST, ''''))"

definition sampleEnv :: env where
  "sampleEnv = \<lparr>
     e_migration = True, e_path = ''/opt/bt.json'',
     e_storeUp = (\<lambda>tr. True), e_storeGet = sampleStoreGet,
     e_storeSet = (\<lambda>tr k v. ERROR_NONE),
     e_storeDel = (\<lambda>tr k. if store_contents tr k = None then ERROR_NOT_EXIST else ERROR_NONE),
     e_bt = (\<lambda>tr c. BTRMGR_RESULT_SUCCESS),
     e_paired = (\<lambda>tr. [headphones, keyboard]),
     e_discovered = (\<lambda>tr. [sampleDiscovered]), e_connected = (\<lambda>tr. [sampleConnected]),
     e_devProps = (\<lambda>tr. sampleProps),
     e_numAdapters = (\<lambda>tr. 1), e_powerStatus = (\<lambda>tr. 1), e_discoverable = (\<lambda>tr. 0),
     e_adapterName = (\<lambda>tr. ''box''), e_volumeMute = (\<lambda>tr h. (100, 0)),
     e_mediaTrack = (\<lambda>tr h. \<lparr>pcAlbum = ''a'', pcGenre = ''g'', pcTitle = ''t'', pcArtist = ''r'',
        ui32Duration = 1, ui32TrackNumber = 1, ui32NumberOfTracks = 1\<rparr>),
     e_typeString = (\<lambda>t. Some (if t = 2 then HID else ''HEADPHONES'')),
     e_now = (\<lambda>tr. 7),
     e_fault = (\<lambda>tr c. None), e_iolen = (\<lambda>tr. 64),
     e_order = (\<lambda>m. m),
     e_parseObj = (\<lambda>s. case dec_json (length s) s of Some (JObj ms, []) \<Rightarrow> Some ms | _ \<Rightarrow> None),
     e_printObj = (\<lambda>ms. enc_json (JObj ms)),
     e_parseArr = (\<lambda>s. case dec_json (length s) s of Some (JArr vs, []) \<Rightarrow> vs | _ \<Rightarrow> []),
     e_printArr = (\<lambda>vs. enc_json (JArr vs)),
     e_asString = (\<lambda>v. case v of JStr s \<Rightarrow> s | _ \<Rightarrow> ''''),
     e_asNumber = (\<lambda>v. case v of JNum n \<Rightarrow> n | _ \<Rightarrow> 0),
     e_asBool = (\<lambda>v. case v of JBool b \<Rightarrow> b | _ \<Rightarrow> False),
     e_asArray = (\<lambda>v. case v of JArr a \<Rightarrow> a | _ \<Rightarrow> []),
     e_asObject = (\<lambda>v. case v of JObj ms \<Rightarrow> ms | _ \<Rightarrow> []),
     e_ofCStr = (\<lambda>s. JStr (case s of Some t \<Rightarrow> t | None \<Rightarrow> '''')),
     e_nullThrows = True,
     e_contains = (\<lambda>s t. sublist (map tolower t) (map tolower s)),
     e_equal = (\<lambda>s t. map tolower s = map tolower t),
     e_getString = (\<lambda>ob k d. case um_find ob k of Some (JStr s) \<Rightarrow> s | _ \<Rightarrow> d),
     e_getNumber = (\<lambda>ob k d. case um_find ob k of Some (JNum n) \<Rightarrow> n | _ \<Rightarrow> d),
     e_getBool = (\<lambda>ob k d. case um_find ob k of Some (JBool b) \<Rightarrow> b | _ \<Rightarrow> d),
     e_powerManager = (\<lambda>tr. True),
     e_powerState = (\<lambda>tr. (ERROR_NONE, POWER_STATE_ON, POWER_STATE_UNKNOWN)),
     e_intOverflow = (\<lambda>n. n), e_uninitBool = False, e_uninitInt = 0\<rparr>"

lemma sample_simps [simp]:
  "e_migration sampleEnv" "e_path sampleEnv = ''/opt/bt.json''" "e_storeUp sampleEnv tr"
  "e_storeGet sampleEnv = sampleStoreGet" "e_storeSet sampleEnv tr k v = ERROR_NONE"
  "e_storeDel sampleEnv tr k = (if store_contents tr k = None then ERROR_NOT_EXIST else ERROR_NONE)"
  "e_bt sampleEnv tr c = BTRMGR_RESULT_SUCCESS"
  "e_paired sampleEnv tr = [headphones, keyboard]" "e_discovered sampleEnv tr = [sampleDiscovered]"
  "e_connected sampleEnv tr = [sampleConnected]" "e_devProps sampleEnv tr = sampleProps"
  "e_typeString sampleEnv ty = Some (if ty = 2 then HID else ''HEADPHONES'')"
  "e_now sampleEnv tr = 7" "e_fault sampleEnv tr fc = None" "e_iolen sampleEnv tr = 64"
  "e_order sampleEnv m = m" "e_powerManager sampleEnv tr" "e_numAdapters sampleEnv tr = 1"
  "e_powerStatus sampleEnv tr = 1" "e_discoverable sampleEnv tr = 0"
  "e_powerState sampleEnv tr = (ERROR_NONE, POWER_STATE_ON, POWER_STATE_UNKNOWN)"
  "e_contains sampleEnv s t = sublist (map tolower t) (map tolower s)"
  "e_equal sampleEnv s t = (map tolower s = map tolower t)"
  by (simp_all add: sampleEnv_def)

text \<open>It satisfies every hypothesis on the platform.\<close>

lemma sample_accessors [simp]: "json_accessors sampleEnv"
  by (simp add: json_accessors_def sampleEnv_def)

lemma sample_iterates [simp]: "iterates_all sampleEnv"
  by (simp add: iterates_all_def)

lemma sample_faithful [simp]: "store_faithful sampleEnv"
  by (auto simp: store_faithful_def sampleStoreGet_def missingFromPersistentStore_def split: option.split)

lemma sample_faithful_get: "e_storeGet E = sampleStoreGet \<Longrightarrow> store_faithful E"
  by (auto simp: store_faithful_def sampleStoreGet_def missingFromPersistentStore_def split: option.split)

lemma sample_retries [simp]: "bounded_retries sampleEnv (\<lambda>tr. 0)"
  by (simp add: bounded_retries_def no_progress_def)

lemma sample_parse_print [simp]:
  "e_parseObj sampleEnv (e_printObj sampleEnv ob) = Some ob"
  "e_parseArr sampleEnv (e_printArr sampleEnv vs) = vs"
  unfolding sampleEnv_def by (simp_all del: enc_json.simps add: dec_obj_exact)

lemma sample_payload_ok [simp]: "payload_ok sampleEnv ex m"
  by (simp add: payload_ok_def)

subsection \<open>States to start from\<close>

definition sampleFiles :: files where
  "sampleFiles = (\<lambda>_. None)"

definition sampleInfo :: BluetoothDeviceInfo where
  "sampleInfo = defaultDeviceInfo\<lparr>deviceAddr := ''AA:01'', deviceType := ''HEADPHONES'',
     friendlyName := ''Cans'', autoConnectStatus := AUTO_CONNECT_STATUS_ENABLED,
     lastConnectTimeUtc := ''7''\<rparr>"

definition sampleCache :: device_cache where
  "sampleCache = [(''42'', sampleInfo)]"

lemma sample_no_faults [simp]: "no_faults sampleEnv"
  by (simp add: no_faults_def)

lemma sample_Write:
  "\<exists>w'. Write sampleEnv cache w = Some (ERROR_NONE, w')"
  using Write_total [OF sample_retries, of cache w] Write_succeeds [OF sample_no_faults, of cache w] by fastforce

end
