(* ===== verification/DeviceManager.thy ===== *)
theory DeviceManager
  imports PersistenceAdapter
begin

section \<open>The registry of paired devices: \<open>BluetoothDeviceManager\<close>\<close>

text \<open>
  \<open>Bluetooth/BluetoothDeviceManager.cpp\<close>: the cache of paired devices, its image in the
  PersistentStore (key \<open>deviceInfo\<close>) and, once migrated, in the filesystem file. The
  state extends \<open>world\<close> by the fields of the class; \<open>_service\<close> is the flag that it is not
  null. \<open>_adminLock\<close> guards single accesses to the cache and is omitted: theory
  Interleaving treats the operations as sequences of their critical sections. A definition
  that may write the file returns an option (None: the write loop of the adapter never
  ends); the others return their value and the new state.
\<close>

record dmgr = world +
  service :: bool
  pairedDeviceCache :: device_cache
  isMigrated :: bool

definition PERSISTENT_STORE_KEY_DEVICE_INFO :: string where
  "PERSISTENT_STORE_KEY_DEVICE_INFO = ''deviceInfo''"
definition PERSISTENT_STORE_KEY_MIGRATION_VERSION :: string where
  "PERSISTENT_STORE_KEY_MIGRATION_VERSION = ''migrationVersion''"
definition BLUETOOTH_MIGRATION_VERSION :: string where
  "BLUETOOTH_MIGRATION_VERSION = ''1''"

subsection \<open>The cache and the PersistentStore\<close>

text \<open>
  The cast of a stored number to the enumeration keeps its low 32 bits (the C++ standard
  leaves a value outside the enumeration's range undefined).
\<close>

definition autoConnectStatus_cast :: "int \<Rightarrow> AutoConnectStatus" where
  "autoConnectStatus_cast i = acs_of_int (signed_take_bit 31 i)"

text \<open>One iteration of the loop of \<open>updateCacheFromStorage\<close>: the key and the record it loads.\<close>

definition loadedEntry :: "env \<Rightarrow> json \<Rightarrow> string \<times> BluetoothDeviceInfo" where
  "loadedEntry E v =
     (let ob = e_asObject E v;
          deviceID = e_asString E (json_at ob ''deviceID'');
          dtype = e_asString E (json_at ob ''deviceType'');
          autoc = (if HasLabel ob ''autoconnect''
            then autoConnectStatus_cast (e_asNumber E (json_at ob ''autoconnect''))
            else AUTO_CONNECT_STATUS_UNSET);
          utc = (if HasLabel ob ''lastConnectTimeUtc''
            then e_asString E (json_at ob ''lastConnectTimeUtc'') else '''');
          volume = (if HasLabel ob ''lastVolumeSetting''
            then e_asNumber E (json_at ob ''lastVolumeSetting'') else 0)
      in (deviceID, defaultDeviceInfo\<lparr>deviceType := dtype, autoConnectStatus := autoc,
            lastConnectTimeUtc := utc, lastVolumeSetting := volume\<rparr>))"

definition updateCacheFromStorage :: "env \<Rightarrow> 'z dmgr_scheme \<Rightarrow> hresult \<times> 'z dmgr_scheme" where
  "updateCacheFromStorage E w =
     (if \<not> service w then (ERROR_GENERAL, w)
      else let (ok, w1) = storeAcquire E w in
        if \<not> ok then (ERROR_GENERAL, w1)
        else let (result, str, w2) = storeGetValue E PERSISTENT_STORE_KEY_DEVICE_INFO w1;
                 w3 = storeRelease w2
          in if result = ERROR_NONE
             then (result, w3\<lparr>pairedDeviceCache :=
               um_put_all (map (loadedEntry E) (e_parseArr E str)) []\<rparr>)
             else (result, w3))"

text \<open>One entry of the array \<open>writeStorageFromCache\<close> stores.\<close>

definition storedEntry :: "string \<times> BluetoothDeviceInfo \<Rightarrow> json" where
  "storedEntry e = (case e of (deviceID, info) \<Rightarrow> JObj
     [(''deviceID'', JStr deviceID), (''deviceType'', JStr (deviceType info)),
      (''autoconnect'', JNum (acs_to_int (autoConnectStatus info))),
      (''lastConnectTimeUtc'', JStr (lastConnectTimeUtc info)),
      (''lastVolumeSetting'', JNum (lastVolumeSetting info))])"

definition storedPayload :: "env \<Rightarrow> device_cache \<Rightarrow> string" where
  "storedPayload E cache = e_printArr E (map storedEntry (e_order E cache))"

subsection \<open>The filesystem file follows the cache\<close>

definition filesystemSnapshot :: "device_cache \<Rightarrow> device_cache" where
  "filesystemSnapshot cache = filter (\<lambda>(k, info). deviceType info \<noteq> HID) cache"

definition writeFilesystemPersistenceFromCache :: "env \<Rightarrow> 'z dmgr_scheme \<Rightarrow> 'z dmgr_scheme option" where
  "writeFilesystemPersistenceFromCache E w =
     do { (result, w1) \<leftarrow> Write E (filesystemSnapshot (pairedDeviceCache w)) w; Some w1 }"

definition writeStorageFromCache :: "env \<Rightarrow> 'z dmgr_scheme \<Rightarrow> (hresult \<times> 'z dmgr_scheme) option" where
  "writeStorageFromCache E w =
     (if \<not> service w then Some (ERROR_GENERAL, w)
      else let (ok, w1) = storeAcquire E w in
        if \<not> ok then Some (ERROR_GENERAL, w1)
        else let (result, w2) = storeSetValue E PERSISTENT_STORE_KEY_DEVICE_INFO
                   (storedPayload E (pairedDeviceCache w1)) w1
          in do {
            w3 \<leftarrow> (if result = ERROR_NONE \<and> e_migration E \<and> isMigrated w2
                   then writeFilesystemPersistenceFromCache E w2 else Some w2);
            Some (result, storeRelease w3)
          })"

subsection \<open>The cache and BTRMGR\<close>

definition typeName :: "env \<Rightarrow> device_type \<Rightarrow> string" where
  "typeName E t = (case e_typeString E t of Some s \<Rightarrow> s | None \<Rightarrow> ''UNKNOWN'')"

definition deviceId :: "'z bt_device_scheme \<Rightarrow> string" where
  "deviceId d = to_string_ull (m_deviceHandle d)"

definition nameOrId :: "'z bt_device_scheme \<Rightarrow> string" where
  "nameOrId d = (if m_name d \<noteq> '''' then m_name d else deviceId d)"

definition freshInfo :: "env \<Rightarrow> 'z bt_device_scheme \<Rightarrow> BluetoothDeviceInfo" where
  "freshInfo E d = defaultDeviceInfo\<lparr>deviceAddr := m_deviceAddress d,
     deviceType := typeName E (m_deviceType d), friendlyName := nameOrId d\<rparr>"

definition backfill :: "env \<Rightarrow> 'z bt_device_scheme \<Rightarrow> BluetoothDeviceInfo \<Rightarrow> BluetoothDeviceInfo" where
  "backfill E d existing =
     (let existing = (if friendlyName existing = '''' then existing\<lparr>friendlyName := nameOrId d\<rparr> else existing);
          existing = (if deviceAddr existing = '''' then existing\<lparr>deviceAddr := m_deviceAddress d\<rparr> else existing);
          existing = (if deviceType existing = '''' \<or> deviceType existing = ''UNKNOWN''
                      then existing\<lparr>deviceType := typeName E (m_deviceType d)\<rparr> else existing)
      in existing)"

fun mergeDevices :: "env \<Rightarrow> bool \<Rightarrow> paired_device list \<Rightarrow> device_cache \<Rightarrow> device_cache" where
  "mergeDevices E backfillOnly [] cache = cache"
| "mergeDevices E backfillOnly (d # ds) cache =
     mergeDevices E backfillOnly ds
       (case um_find cache (deviceId d) of
          Some existing \<Rightarrow> um_put (deviceId d) (backfill E d existing) cache
        | None \<Rightarrow> if \<not> backfillOnly then um_put (deviceId d) (freshInfo E d) cache else cache)"

definition scrub :: "env \<Rightarrow> paired_device list \<Rightarrow> device_cache \<Rightarrow> device_cache" where
  "scrub E paired cache =
     (let pairedDeviceIds = set (map deviceId paired);
          deviceIdsToRemove = filter (\<lambda>k. k \<notin> pairedDeviceIds) (map fst (e_order E cache))
      in fold um_erase deviceIdsToRemove cache)"

definition updateCacheFromDevice :: "env \<Rightarrow> bool \<Rightarrow> 'z dmgr_scheme \<Rightarrow> hresult \<times> 'z dmgr_scheme" where
  "updateCacheFromDevice E backfillOnly w =
     (let pairedDevices = e_paired E (trace w); (result, w1) = btCall E GetPairedDevices w in
      if result \<noteq> BTRMGR_RESULT_SUCCESS then (ERROR_GENERAL, w1)
      else let cache = mergeDevices E backfillOnly pairedDevices (pairedDeviceCache w1) in
        (ERROR_NONE, w1\<lparr>pairedDeviceCache :=
           (if \<not> backfillOnly then scrub E pairedDevices cache else cache)\<rparr>))"

subsection \<open>The operations of the class\<close>

definition getPairedDeviceInfo :: "string \<Rightarrow> 'z dmgr_scheme \<Rightarrow> hresult + BluetoothDeviceInfo" where
  "getPairedDeviceInfo deviceID w =
     (case um_find (pairedDeviceCache w) deviceID of
        None \<Rightarrow> Inl ERROR_NOT_EXIST | Some info \<Rightarrow> Inr info)"

definition cachePut :: "string \<Rightarrow> BluetoothDeviceInfo \<Rightarrow> 'z dmgr_scheme \<Rightarrow> 'z dmgr_scheme" where
  "cachePut deviceID info w = w\<lparr>pairedDeviceCache := um_put deviceID info (pairedDeviceCache w)\<rparr>"

definition getPairedDeviceInfos :: "'z dmgr_scheme \<Rightarrow> device_cache" where
  "getPairedDeviceInfos w = pairedDeviceCache w"

definition setAutoConnect :: "env \<Rightarrow> string \<Rightarrow> bool \<Rightarrow> 'z dmgr_scheme \<Rightarrow> (hresult \<times> 'z dmgr_scheme) option" where
  "setAutoConnect E deviceID enable w =
     (if e_migration E \<and> \<not> isMigrated w then Some (ERROR_GENERAL, w)
      else case getPairedDeviceInfo deviceID w of
        Inl _ \<Rightarrow> Some (ERROR_NOT_EXIST, w)
      | Inr info \<Rightarrow>
          writeStorageFromCache E (cachePut deviceID
            (info\<lparr>autoConnectStatus := (if enable then AUTO_CONNECT_STATUS_ENABLED
               else AUTO_CONNECT_STATUS_DISABLED)\<rparr>) w))"

text \<open>\<open>status\<close> is the out parameter as the caller initialised it.\<close>

definition getAutoConnect :: "env \<Rightarrow> string \<Rightarrow> AutoConnectStatus \<Rightarrow> 'z dmgr_scheme \<Rightarrow> hresult \<times> AutoConnectStatus" where
  "getAutoConnect E deviceID status w =
     (if e_migration E \<and> \<not> isMigrated w then (ERROR_NONE, AUTO_CONNECT_STATUS_DISABLED)
      else case getPairedDeviceInfo deviceID w of
        Inl r \<Rightarrow> (r, status)
      | Inr info \<Rightarrow> (ERROR_NONE,
          if autoConnectStatus info = AUTO_CONNECT_STATUS_UNSET then AUTO_CONNECT_STATUS_DISABLED
          else autoConnectStatus info))"

definition setLastConnectTimeUtc :: "env \<Rightarrow> string \<Rightarrow> 'z dmgr_scheme \<Rightarrow> 'z dmgr_scheme option" where
  "setLastConnectTimeUtc E deviceID w =
     (case getPairedDeviceInfo deviceID w of
        Inl _ \<Rightarrow> Some w
      | Inr info \<Rightarrow>
          let currentUtcTime = to_string_ll (e_now E (trace w));
              w1 = cachePut deviceID (info\<lparr>lastConnectTimeUtc := currentUtcTime\<rparr>) w
          in if e_migration E \<and> \<not> isMigrated w1 then Some w1
             else do { (result, w2) \<leftarrow> writeStorageFromCache E w1; Some w2 })"

definition setLastVolumeSetting :: "env \<Rightarrow> string \<Rightarrow> int \<Rightarrow> 'z dmgr_scheme \<Rightarrow> (hresult \<times> 'z dmgr_scheme) option" where
  "setLastVolumeSetting E deviceID volumeSetting w =
     (case getPairedDeviceInfo deviceID w of
        Inl _ \<Rightarrow> Some (ERROR_NOT_EXIST, w)
      | Inr info \<Rightarrow>
          let w1 = cachePut deviceID (info\<lparr>lastVolumeSetting := volumeSetting\<rparr>) w
          in if e_migration E \<and> \<not> isMigrated w1 then Some (ERROR_NONE, w1)
             else writeStorageFromCache E w1)"

definition getLastConnectTimeUtc :: "string \<Rightarrow> string \<Rightarrow> 'z dmgr_scheme \<Rightarrow> hresult \<times> string" where
  "getLastConnectTimeUtc deviceID utc w =
     (case getPairedDeviceInfo deviceID w of
        Inl r \<Rightarrow> (r, utc) | Inr info \<Rightarrow> (ERROR_NONE, lastConnectTimeUtc info))"

definition addedInfo :: "env \<Rightarrow> string \<Rightarrow> device_properties \<Rightarrow> BluetoothDeviceInfo" where
  "addedInfo E deviceID prop = defaultDeviceInfo\<lparr>deviceAddr := m_deviceAddress prop,
     deviceType := typeName E (m_deviceType prop),
     friendlyName := (if m_name prop \<noteq> '''' then m_name prop else deviceID)\<rparr>"

definition addDevice :: "env \<Rightarrow> string \<Rightarrow> 'z dmgr_scheme \<Rightarrow> (hresult \<times> 'z dmgr_scheme) option" where
  "addDevice E deviceID w =
     (case stoll deviceID of
        Inl e \<Rightarrow> Some (ERROR_INVALID_PARAMETER, w)
      | Inr n \<Rightarrow>
          let h = word_of_int n; prop = e_devProps E (trace w) h;
              (result, w1) = btCall E (GetDeviceProperties h) w
          in if result \<noteq> BTRMGR_RESULT_SUCCESS then Some (ERROR_NOT_EXIST, w1)
             else let w2 = cachePut deviceID (addedInfo E deviceID prop) w1 in
               if e_migration E \<and> \<not> isMigrated w2 then Some (ERROR_NONE, w2)
               else writeStorageFromCache E w2)"

definition removeDevice :: "env \<Rightarrow> string \<Rightarrow> 'z dmgr_scheme \<Rightarrow> (hresult \<times> 'z dmgr_scheme) option" where
  "removeDevice E deviceID w =
     (if um_find (pairedDeviceCache w) deviceID = None then Some (ERROR_NOT_EXIST, w)
      else let w1 = w\<lparr>pairedDeviceCache := um_erase deviceID (pairedDeviceCache w)\<rparr> in
        if e_migration E \<and> \<not> isMigrated w1 then Some (ERROR_NONE, w1)
        else writeStorageFromCache E w1)"

end
