(* ===== verification/Migration.thy ===== *)
theory Migration
  imports DeviceManager
begin

section \<open>Migration from the AS file, and the life cycle of the registry\<close>

text \<open>
  The rest of \<open>Bluetooth/BluetoothDeviceManager.cpp\<close>: the one-time import of the legacy AS
  file into the PersistentStore (\<open>performMigration\<close>), its reversal (\<open>clearMigration\<close>), and
  \<open>init\<close> and \<open>deinit\<close>. \<open>_migrationLock\<close> makes the two migrations exclude each other.
  The references the class takes on its service are the events \<open>EvShellAddRef\<close> and
  \<open>EvShellRelease\<close>.
\<close>

subsection \<open>The imported cache\<close>

fun addrToDeviceId :: "paired_device list \<Rightarrow> (string, string) umap \<Rightarrow> (string, string) umap" where
  "addrToDeviceId [] m = m"
| "addrToDeviceId (d # ds) m =
     addrToDeviceId ds
       (if m_deviceAddress d \<noteq> '''' then um_put (m_deviceAddress d) (deviceId d) m else m)"

fun importDevices :: "(string, string) umap \<Rightarrow> BluetoothDeviceInfo list \<Rightarrow> device_cache \<Rightarrow> device_cache" where
  "importDevices m [] cache = cache"
| "importDevices m (info # infos) cache =
     importDevices m infos
       (case um_find m (deviceAddr info) of Some k \<Rightarrow> um_put k info cache | None \<Rightarrow> cache)"

definition writeCacheFromFilesystemPersistence :: "env \<Rightarrow> string \<Rightarrow> 'z dmgr_scheme \<Rightarrow> hresult \<times> 'z dmgr_scheme" where
  "writeCacheFromFilesystemPersistence E rawContent w =
     (if rawContent = '''' then (ERROR_NONE, w\<lparr>pairedDeviceCache := []\<rparr>)
      else let (result, importedDevices) = Parse E rawContent [] in
        if result \<noteq> ERROR_NONE then (result, w)
        else let pairedDevices = e_paired E (trace w); (rc, w1) = btCall E GetPairedDevices w in
          if rc \<noteq> BTRMGR_RESULT_SUCCESS then (ERROR_GENERAL, w1)
          else (ERROR_NONE, w1\<lparr>pairedDeviceCache :=
                  importDevices (addrToDeviceId pairedDevices []) importedDevices []\<rparr>))"

subsection \<open>The migration marker\<close>

definition readMigrationVersionFromStorage :: "env \<Rightarrow> 'z dmgr_scheme \<Rightarrow> hresult \<times> string \<times> 'z dmgr_scheme" where
  "readMigrationVersionFromStorage E w =
     (if \<not> service w then (ERROR_GENERAL, '''', w)
      else let (ok, w1) = storeAcquire E w in
        if \<not> ok then (ERROR_GENERAL, '''', w1)
        else let (result, version, w2) = storeGetValue E PERSISTENT_STORE_KEY_MIGRATION_VERSION w1
          in (result, version, storeRelease w2))"

definition writeMigrationVersionToStorage :: "env \<Rightarrow> 'z dmgr_scheme \<Rightarrow> hresult \<times> 'z dmgr_scheme" where
  "writeMigrationVersionToStorage E w =
     (if \<not> service w then (ERROR_GENERAL, w)
      else let (ok, w1) = storeAcquire E w in
        if \<not> ok then (ERROR_GENERAL, w1)
        else let (result, w2) = storeSetValue E PERSISTENT_STORE_KEY_MIGRATION_VERSION
                   BLUETOOTH_MIGRATION_VERSION w1
          in (result, storeRelease w2))"

subsection \<open>\<open>performMigration\<close>\<close>

text \<open>Step 1 (import) and step 2 (enrichment): the cache the migration will store, or the error.\<close>

definition importCache :: "env \<Rightarrow> 'z dmgr_scheme \<Rightarrow> hresult \<times> 'z dmgr_scheme" where
  "importCache E w =
     (let (readRawResult, rawContent, w1) = ReadRaw E '''' w in
      if readRawResult \<noteq> ERROR_NONE \<and> readRawResult \<noteq> ERROR_NOT_EXIST then (readRawResult, w1)
      else let (importResult, w2) = writeCacheFromFilesystemPersistence E rawContent w1 in
        if importResult \<noteq> ERROR_NONE then (importResult, w2)
        else if pairedDeviceCache w2 \<noteq> [] then updateCacheFromDevice E True w2
        else (ERROR_NONE, w2))"

definition performMigration :: "env \<Rightarrow> 'z dmgr_scheme \<Rightarrow> (hresult \<times> 'z dmgr_scheme) option" where
  "performMigration E w =
     (let (readVersionResult, storedVersion, w1) = readMigrationVersionFromStorage E w;
          alreadyMigrated = (readVersionResult = ERROR_NONE \<and> storedVersion = BLUETOOTH_MIGRATION_VERSION)
      in if \<not> missingFromPersistentStore readVersionResult \<and> readVersionResult \<noteq> ERROR_NONE
         then Some (readVersionResult, w1)
         else if alreadyMigrated then Some (ERROR_NONE, w1\<lparr>isMigrated := True\<rparr>)
         else let (importResult, w2) = importCache E w1 in
           if importResult \<noteq> ERROR_NONE then Some (importResult, w2)
           else do {
             (writeResult, w3) \<leftarrow> writeStorageFromCache E w2;
             if writeResult \<noteq> ERROR_NONE then Some (writeResult, w3)
             else (let (writeVersionResult, w4) = writeMigrationVersionToStorage E w3 in
               if writeVersionResult \<noteq> ERROR_NONE then Some (writeVersionResult, w4)
               else Some (ERROR_NONE, w4\<lparr>isMigrated := True\<rparr>))
           })"

subsection \<open>\<open>clearMigration\<close>\<close>

definition clearMigration :: "env \<Rightarrow> 'z dmgr_scheme \<Rightarrow> hresult \<times> 'z dmgr_scheme" where
  "clearMigration E w =
     (if \<not> service w then (ERROR_GENERAL, w)
      else let (ok, w1) = storeAcquire E w in
        if \<not> ok then (ERROR_GENERAL, w1)
        else let (result, w2) = storeDeleteKey E PERSISTENT_STORE_KEY_DEVICE_INFO w1 in
          if result \<noteq> ERROR_NONE \<and> \<not> missingFromPersistentStore result
          then (result, storeRelease w2)
          else let (result, w3) = storeDeleteKey E PERSISTENT_STORE_KEY_MIGRATION_VERSION w2 in
            if result \<noteq> ERROR_NONE \<and> \<not> missingFromPersistentStore result
            then (result, storeRelease w3)
            else (ERROR_NONE, (storeRelease w3)\<lparr>pairedDeviceCache := [], isMigrated := False\<rparr>))"

subsection \<open>\<open>init\<close> and \<open>deinit\<close>\<close>

definition releaseService :: "'z dmgr_scheme \<Rightarrow> 'z dmgr_scheme" where
  "releaseService w = (emit EvShellRelease w)\<lparr>service := False\<rparr>"

definition storageFailed :: "hresult \<Rightarrow> bool" where
  "storageFailed r \<longleftrightarrow> r \<noteq> ERROR_NONE \<and> \<not> missingFromPersistentStore r"

definition initMigrationBuild :: "env \<Rightarrow> 'z dmgr_scheme \<Rightarrow> hresult \<times> 'z dmgr_scheme" where
  "initMigrationBuild E w =
     (let (versionResult, storedVersion, w1) = readMigrationVersionFromStorage E w;
          migrated = (versionResult = ERROR_NONE \<and> storedVersion = BLUETOOTH_MIGRATION_VERSION);
          w2 = w1\<lparr>isMigrated := migrated\<rparr>
      in if migrated then
           let (storageResult, w3) = updateCacheFromStorage E w2 in
           if storageFailed storageResult then (storageResult, releaseService w3)
           else (ERROR_NONE, w3)
         else (ERROR_NONE, w2))"

definition initPlainBuild :: "env \<Rightarrow> 'z dmgr_scheme \<Rightarrow> (hresult \<times> 'z dmgr_scheme) option" where
  "initPlainBuild E w =
     (let (storageResult, w1) = updateCacheFromStorage E w in
      if storageFailed storageResult then Some (storageResult, releaseService w1)
      else let (deviceResult, w2) = updateCacheFromDevice E False w1 in
        if deviceResult \<noteq> ERROR_NONE then Some (deviceResult, releaseService w2)
        else do {
          (writeResult, w3) \<leftarrow> writeStorageFromCache E w2;
          Some (if writeResult \<noteq> ERROR_NONE then (writeResult, releaseService w3) else (ERROR_NONE, w3))
        })"

definition init :: "env \<Rightarrow> bool \<Rightarrow> 'z dmgr_scheme \<Rightarrow> (hresult \<times> 'z dmgr_scheme) option" where
  "init E srv w =
     (if \<not> srv then Some (ERROR_GENERAL, w)
      else let w1 = emit EvShellAddRef (w\<lparr>service := True\<rparr>) in
        if e_migration E then Some (initMigrationBuild E w1) else initPlainBuild E w1)"

definition deinit :: "'z dmgr_scheme \<Rightarrow> 'z dmgr_scheme" where
  "deinit w = (if service w then releaseService w else w)"

end
