(* ===== verification/StorageCorrect.thy ===== *)
theory StorageCorrect
  imports Migration AdapterCorrect
begin

section \<open>What the storage operations of the registry do\<close>

text \<open>
  The effect of \<open>writeStorageFromCache\<close>, \<open>updateCacheFromStorage\<close> and the marker
  operations on the store, the file, the references taken on the store and the fields of
  the registry: one lemma each, from which the properties of the operations follow.
\<close>

subsection \<open>Counting references\<close>

text \<open>The sum of a per-event quantity over a history.\<close>

definition tally :: "(ext_event \<Rightarrow> int) \<Rightarrow> trace \<Rightarrow> int" where
  "tally d tr = sum_list (map d tr)"

definition store_refs :: "ext_event \<Rightarrow> int" where
  "store_refs ev = (case ev of EvStoreAcquire ok \<Rightarrow> if ok then 1 else 0 | EvStoreRelease \<Rightarrow> - 1 | _ \<Rightarrow> 0)"

definition shell_refs :: "ext_event \<Rightarrow> int" where
  "shell_refs ev = (case ev of EvShellAddRef \<Rightarrow> 1 | EvShellRelease \<Rightarrow> - 1 | _ \<Rightarrow> 0)"

lemma tally_simps [simp]: "tally d [] = 0" "tally d (tr @ tr') = tally d tr + tally d tr'"
  "tally d (ev # tr) = d ev + tally d tr"
  by (simp_all add: tally_def)

lemma tally_zero: "(\<forall>ev \<in> set es. d ev = 0) \<Longrightarrow> tally d es = 0"
  by (induction es) simp_all

lemma evolves_tally:
  "evolves P w w' \<Longrightarrow> (\<And>ev. P ev \<Longrightarrow> d ev = 0) \<Longrightarrow> tally d (trace w') = tally d (trace w)"
  by (drule evolves_trace) (auto intro!: tally_zero)

lemma refs_simps [simp]:
  "store_refs (EvStoreAcquire ok) = (if ok then 1 else 0)" "store_refs EvStoreRelease = - 1"
  "store_refs (EvStoreGet k r) = 0" "store_refs (EvStoreSet k v r) = 0" "store_refs (EvStoreDel k r) = 0"
  "store_refs (EvBT c rc) = 0" "store_refs EvShellAddRef = 0" "store_refs EvShellRelease = 0"
  "shell_refs EvShellAddRef = 1" "shell_refs EvShellRelease = - 1"
  "shell_refs (EvStoreAcquire ok) = 0" "shell_refs EvStoreRelease = 0" "shell_refs (EvStoreGet k r) = 0"
  "shell_refs (EvStoreSet k v r) = 0" "shell_refs (EvStoreDel k r) = 0" "shell_refs (EvBT c rc) = 0"
  "store_refs (EvNotify nm ps) = 0" "shell_refs (EvNotify nm ps) = 0"
  "store_refs (EvTimerSchedule t) = 0" "shell_refs (EvTimerSchedule t) = 0"
  "store_refs EvTimerRevoke = 0" "shell_refs EvTimerRevoke = 0"
  "store_refs (EvPowerAcquire ok) = 0" "shell_refs (EvPowerAcquire ok) = 0"
  "store_refs EvPowerRegister = 0" "shell_refs EvPowerRegister = 0"
  "store_refs EvPowerUnregister = 0" "shell_refs EvPowerUnregister = 0"
  "store_refs (EvPowerRead r) = 0" "shell_refs (EvPowerRead r) = 0"
  "store_refs EvIarmInit = 0" "shell_refs EvIarmInit = 0"
  "store_refs (EvRegisterMethod mn) = 0" "shell_refs (EvRegisterMethod mn) = 0"
  by (simp_all add: store_refs_def shell_refs_def)

lemma is_fs_facts [simp]:
  "is_fs ev \<Longrightarrow> store_refs ev = 0" "is_fs ev \<Longrightarrow> shell_refs ev = 0" "is_fs ev \<Longrightarrow> \<not> store_write ev"
  by (auto simp: is_fs_def store_refs_def shell_refs_def store_write_def split: ext_event.splits)

subsection \<open>Fields\<close>

text \<open>A record extension of \<open>world\<close> with the same tail has the same fields.\<close>

lemma io_fields [frame_simps]:
  assumes "io P (w :: 'z dmgr_scheme) w'"
  shows "service w' = service w" "pairedDeviceCache w' = pairedDeviceCache w"
    "isMigrated w' = isMigrated w" "dmgr.more w' = dmgr.more w"
  using assms by (cases w; cases w'; simp add: io_def)+

lemma emit_fields [simp]:
  "service (emit e w) = service w" "pairedDeviceCache (emit e w) = pairedDeviceCache w"
  "isMigrated (emit e w) = isMigrated w"
  by (simp_all add: emit_def)

subsection \<open>\<open>writeStorageFromCache\<close>\<close>

text \<open>The events of a store operation on one key, file events included.\<close>

definition store_io :: "string \<Rightarrow> ext_event \<Rightarrow> bool" where
  "store_io key ev \<longleftrightarrow> is_fs ev \<or> (case ev of EvStoreAcquire _ \<Rightarrow> True | EvStoreRelease \<Rightarrow> True
     | EvStoreGet k _ \<Rightarrow> k = key | EvStoreSet k _ _ \<Rightarrow> k = key | _ \<Rightarrow> False)"

lemma store_io_simps [simp]:
  "store_io key (EvStoreAcquire ok)" "store_io key EvStoreRelease"
  "store_io key (EvStoreGet k r) \<longleftrightarrow> k = key" "store_io key (EvStoreSet k v r) \<longleftrightarrow> k = key"
  "\<not> store_io key (EvBT c rc)" "\<not> store_io key EvShellAddRef" "\<not> store_io key EvShellRelease"
  "store_io key (EvFs f x)" "\<not> store_io key (EvNotify n p)"
  by (auto simp: store_io_def is_fs_def)

lemma is_fs_store_io: "is_fs ev \<Longrightarrow> store_io key ev"
  by (simp add: store_io_def)

lemma writeFilesystem_Write:
  "writeFilesystemPersistenceFromCache E w = Some w' \<Longrightarrow>
   \<exists>r. Write E (filesystemSnapshot (pairedDeviceCache w)) w = Some (r, w')"
  by (auto simp: writeFilesystemPersistenceFromCache_def elim!: bind_SomeE)

definition file_synced :: "env \<Rightarrow> device_cache \<Rightarrow> 'z world_scheme \<Rightarrow> 'z world_scheme \<Rightarrow> bool" where
  "file_synced E cache w w' \<longleftrightarrow> (\<exists>(v :: 'z world_scheme) r v'. Write E (filesystemSnapshot cache) v = Some (r, v') \<and>
     files v = files w \<and> files w' = files v')"

lemma writeStorage_cases:
  assumes "writeStorageFromCache E w = Some (r, w')"
  obtains (refused) "r = ERROR_GENERAL" "w' = w \<or> w' = emit (EvStoreAcquire False) w"
  | (failed) v where "service w" "r \<noteq> ERROR_NONE"
      "w' = storeRelease (emit (EvStoreSet PERSISTENT_STORE_KEY_DEVICE_INFO v r)
             (emit (EvStoreAcquire True) w))"
  | (stored) w2 w3 where "service w" "r = ERROR_NONE"
      "w2 = emit (EvStoreSet PERSISTENT_STORE_KEY_DEVICE_INFO (storedPayload E (pairedDeviceCache w)) ERROR_NONE)
             (emit (EvStoreAcquire True) w)"
      "if e_migration E \<and> isMigrated w then writeFilesystemPersistenceFromCache E w2 = Some w3 else w3 = w2"
      "w' = storeRelease w3"
proof -
  show ?thesis
  proof (cases "service w \<and> e_storeUp E (trace w)")
    case False
    with assms show ?thesis
      by (intro refused) (auto simp: writeStorageFromCache_def storeAcquire_def Let_def split: if_splits)
  next
    case True
    obtain r' w2 where st: "storeSetValue E PERSISTENT_STORE_KEY_DEVICE_INFO
        (storedPayload E (pairedDeviceCache w)) (emit (EvStoreAcquire True) w) = (r', w2)" by fastforce
    then have w2: "w2 = emit (EvStoreSet PERSISTENT_STORE_KEY_DEVICE_INFO
        (storedPayload E (pairedDeviceCache w)) r') (emit (EvStoreAcquire True) w)"
      by (auto simp: storeSetValue_def Let_def)
    from True st assms obtain w3 where
      "(if r' = ERROR_NONE \<and> e_migration E \<and> isMigrated w2
          then writeFilesystemPersistenceFromCache E w2 else Some w2) = Some w3"
      and "r = r'" "w' = storeRelease w3"
      by (auto simp: writeStorageFromCache_def storeAcquire_def elim!: bind_SomeE)
    then show ?thesis
      using True w2 failed [of "storedPayload E (pairedDeviceCache w)"] stored [of w2 w3]
      by (cases "r = ERROR_NONE") (auto split: if_splits)
  qed
qed

lemma stored_io:
  assumes "if c then writeFilesystemPersistenceFromCache E w2 = Some w3 else w3 = w2"
  shows "io is_fs w2 w3"
  using assms by (auto split: if_splits dest!: writeFilesystem_Write Write_io)

lemma writeStorage_io:
  assumes "writeStorageFromCache E w = Some (r, w')"
  shows "io (store_io PERSISTENT_STORE_KEY_DEVICE_INFO) w w'"
  using assms
proof (cases rule: writeStorage_cases)
  case refused
  then show ?thesis by (auto intro!: io_emit)
next
  case (failed v)
  then show ?thesis by (auto simp: storeRelease_def intro!: io_emit)
next
  case (stored w2 w3)
  let ?P = "store_io PERSISTENT_STORE_KEY_DEVICE_INFO"
  have "io ?P w w2" unfolding stored(3) by (intro io_emit io_refl) simp_all
  moreover have "io ?P w2 w3" using stored_io [OF stored(4)] by (rule io_mono) (rule is_fs_store_io)
  ultimately show ?thesis unfolding stored(5) storeRelease_def
    by (intro io_emit) (auto intro: io_trans)
qed

lemma writeStorage_store_refs:
  assumes "writeStorageFromCache E w = Some (r, w')"
  shows "tally store_refs (trace w') = tally store_refs (trace w)"
  using assms
proof (cases rule: writeStorage_cases)
  case (stored w2 w3)
  have "tally store_refs (trace w3) = tally store_refs (trace w2)"
    using stored_io [OF stored(4), THEN io_evolves] by (rule evolves_tally) simp
  then show ?thesis unfolding stored(3,5) by (simp add: storeRelease_def)
qed (auto simp: storeRelease_def)

lemma writeStorage_contents:
  assumes "writeStorageFromCache E w = Some (r, w')"
  shows "store_contents (trace w') = (if r = ERROR_NONE
    then (store_contents (trace w))(PERSISTENT_STORE_KEY_DEVICE_INFO := Some (storedPayload E (pairedDeviceCache w)))
    else store_contents (trace w))"
  using assms
proof (cases rule: writeStorage_cases)
  case (stored w2 w3)
  have "store_contents (trace w3) = store_contents (trace w2)"
    using stored_io [OF stored(4), THEN io_evolves] by (rule evolves_store) simp
  then have "store_contents (trace w') = store_contents (trace w2)"
    unfolding stored(5) by (simp add: storeRelease_def store_step_def)
  also have "\<dots> = store_step (EvStoreSet PERSISTENT_STORE_KEY_DEVICE_INFO (storedPayload E (pairedDeviceCache w)) ERROR_NONE)
      (store_step (EvStoreAcquire True) (store_contents (trace w)))"
    unfolding stored(3) emit_simps store_contents_snoc by (rule refl)
  finally show ?thesis using stored(2) by (simp add: store_step_def)
next
  case refused
  then show ?thesis by (auto simp: store_step_def)
next
  case (failed v)
  then show ?thesis
    unfolding failed(3) storeRelease_def emit_simps store_contents_snoc by (simp add: store_step_def)
qed

text \<open>The file is written exactly after a successful store write in the migrated state.\<close>

lemma writeStorage_file:
  assumes "writeStorageFromCache E w = Some (r, w')"
  shows "if r = ERROR_NONE \<and> e_migration E \<and> isMigrated w
    then file_synced E (pairedDeviceCache w) w w' else files w' = files w"
  using assms
proof (cases rule: writeStorage_cases)
  case (stored w2 w3)
  have fs: "files w2 = files w" "files w' = files w3" "pairedDeviceCache w2 = pairedDeviceCache w"
    unfolding stored(3,5) by (simp_all add: storeRelease_def)
  show ?thesis
  proof (cases "e_migration E \<and> isMigrated w")
    case True
    with stored(4) fs obtain r' where wr: "Write E (filesystemSnapshot (pairedDeviceCache w)) w2 = Some (r', w3)"
      by (auto dest!: writeFilesystem_Write)
    with fs have "file_synced E (pairedDeviceCache w) w w'" unfolding file_synced_def by blast
    with True stored show ?thesis by simp
  next
    case False
    then have "w3 = w2" using stored(4) by (simp split: if_splits)
    with False fs show ?thesis by auto
  qed
qed (auto simp: storeRelease_def)

text \<open>A store that can be reached and accepts values: the write succeeds.\<close>

lemma writeStorage_succeeds:
  "writeStorageFromCache E w = Some (r, w') \<Longrightarrow> service w \<Longrightarrow> e_storeUp E (trace w) \<Longrightarrow>
   (\<And>tr k v. e_storeSet E tr k v = ERROR_NONE) \<Longrightarrow> r = ERROR_NONE"
  by (auto simp: writeStorageFromCache_def storeAcquire_def storeSetValue_def Let_def elim!: bind_SomeE)

lemma writeStorage_total:
  assumes "bounded_retries E B"
  shows "\<exists>r w'. writeStorageFromCache E w = Some (r, w')"
proof -
  have wf: "\<exists>v'. writeFilesystemPersistenceFromCache E v = Some v'" for v :: "'a dmgr_scheme"
    using Write_total [OF assms, of "filesystemSnapshot (pairedDeviceCache v)" v]
    by (auto simp: writeFilesystemPersistenceFromCache_def)
  obtain ok w1 where a: "storeAcquire E w = (ok, w1)" by fastforce
  obtain r w2 where b: "storeSetValue E PERSISTENT_STORE_KEY_DEVICE_INFO
     (storedPayload E (pairedDeviceCache w1)) w1 = (r, w2)" by fastforce
  obtain v' where "writeFilesystemPersistenceFromCache E w2 = Some v'" using wf by blast
  with a b show ?thesis by (auto simp: writeStorageFromCache_def)
qed

subsection \<open>The other store operations\<close>

lemma updateCacheFromStorage_cases:
  assumes "updateCacheFromStorage E w = (r, w')"
  obtains (refused) "r = ERROR_GENERAL" "w' = w \<or> w' = emit (EvStoreAcquire False) w"
  | (failed) "r \<noteq> ERROR_NONE"
      "w' = storeRelease (emit (EvStoreGet PERSISTENT_STORE_KEY_DEVICE_INFO r) (emit (EvStoreAcquire True) w))"
  | (loaded) str where "service w" "r = ERROR_NONE"
      "e_storeGet E (trace w @ [EvStoreAcquire True]) PERSISTENT_STORE_KEY_DEVICE_INFO = (ERROR_NONE, str)"
      "w' = (storeRelease (emit (EvStoreGet PERSISTENT_STORE_KEY_DEVICE_INFO r) (emit (EvStoreAcquire True) w)))
         \<lparr>pairedDeviceCache := um_put_all (map (loadedEntry E) (e_parseArr E str)) []\<rparr>"
proof -
  obtain r' str where g: "e_storeGet E (trace w @ [EvStoreAcquire True]) PERSISTENT_STORE_KEY_DEVICE_INFO = (r', str)"
    by fastforce
  show ?thesis
    using assms g refused failed loaded
    by (auto simp: updateCacheFromStorage_def storeAcquire_def storeGetValue_def Let_def split: if_splits)
qed

lemma readVersion_cases:
  assumes "readMigrationVersionFromStorage E w = (r, version, w')"
  obtains (refused) "r = ERROR_GENERAL" "w' = w \<or> w' = emit (EvStoreAcquire False) w"
  | (read) "service w" "e_storeGet E (trace w @ [EvStoreAcquire True]) PERSISTENT_STORE_KEY_MIGRATION_VERSION = (r, version)"
      "w' = storeRelease (emit (EvStoreGet PERSISTENT_STORE_KEY_MIGRATION_VERSION r) (emit (EvStoreAcquire True) w))"
proof -
  obtain r' str where g: "e_storeGet E (trace w @ [EvStoreAcquire True]) PERSISTENT_STORE_KEY_MIGRATION_VERSION = (r', str)"
    by fastforce
  show ?thesis
    using assms g refused read
    by (auto simp: readMigrationVersionFromStorage_def storeAcquire_def storeGetValue_def Let_def split: if_splits)
qed

lemma writeVersion_cases:
  assumes "writeMigrationVersionToStorage E w = (r, w')"
  obtains (refused) "r = ERROR_GENERAL" "w' = w \<or> w' = emit (EvStoreAcquire False) w"
  | (written) "service w"
      "w' = storeRelease (emit (EvStoreSet PERSISTENT_STORE_KEY_MIGRATION_VERSION BLUETOOTH_MIGRATION_VERSION r)
         (emit (EvStoreAcquire True) w))"
  using assms
  by (auto simp: writeMigrationVersionToStorage_def storeAcquire_def storeSetValue_def Let_def split: if_splits)

lemma readVersion_io:
  assumes "readMigrationVersionFromStorage E w = (r, version, w')"
  shows "io (store_io PERSISTENT_STORE_KEY_MIGRATION_VERSION) w w'"
  using assms
  by (cases rule: readVersion_cases)
     (auto simp: storeRelease_def intro!: io_emit)

lemma writeVersion_io:
  assumes "writeMigrationVersionToStorage E w = (r, w')"
  shows "io (store_io PERSISTENT_STORE_KEY_MIGRATION_VERSION) w w'"
  using assms
  by (cases rule: writeVersion_cases)
     (auto simp: storeRelease_def intro!: io_emit)

end
