(* ===== verification/CacheCorrect.thy ===== *)
theory CacheCorrect
  imports StorageCorrect
begin

section \<open>The cache: well-formedness, reconciliation with BTRMGR, image in the store\<close>

text \<open>
  What loading, merging and scrubbing do to the cache, key by key, and the invariant
  \<open>cache_ok\<close> of the registry: one record per device, whose autoconnect status survives being
  stored as a number.
\<close>

subsection \<open>The invariant\<close>

definition acs_storable :: "AutoConnectStatus \<Rightarrow> bool" where
  "acs_storable a \<longleftrightarrow> acs_valid a \<and> signed_take_bit 31 (acs_to_int a) = acs_to_int a"

definition cache_ok :: "device_cache \<Rightarrow> bool" where
  "cache_ok c \<longleftrightarrow> um_wf c \<and> (\<forall>k info. um_find c k = Some info \<longrightarrow> acs_storable (autoConnectStatus info))"

lemma storable_cast:
  "acs_valid (autoConnectStatus_cast i)"
  "signed_take_bit 31 (acs_to_int (autoConnectStatus_cast i)) = acs_to_int (autoConnectStatus_cast i)"
  by (simp_all add: autoConnectStatus_cast_def)

lemma acs_storable_simps [simp]:
  "acs_storable AUTO_CONNECT_STATUS_DISABLED" "acs_storable AUTO_CONNECT_STATUS_ENABLED"
  "acs_storable AUTO_CONNECT_STATUS_UNSET" "acs_storable (autoConnectStatus_cast i)"
     apply (simp add: acs_storable_def acs_valid_def acs_to_int_def)
    apply (simp add: acs_storable_def acs_valid_def acs_to_int_def)
   apply (simp add: acs_storable_def acs_valid_def acs_to_int_def)
  apply (simp add: acs_storable_def storable_cast)
  done

lemma acs_cast_stored: "acs_storable a \<Longrightarrow> autoConnectStatus_cast (acs_to_int a) = a"
  by (simp add: acs_storable_def autoConnectStatus_cast_def acs.dec_enc)

lemma cache_ok_Nil [simp]: "cache_ok []"
  by (simp add: cache_ok_def)

lemma cache_ok_put: "cache_ok c \<Longrightarrow> acs_storable (autoConnectStatus info) \<Longrightarrow> cache_ok (um_put k info c)"
  by (auto simp: cache_ok_def um.wf_put)

lemma cache_ok_erase: "cache_ok c \<Longrightarrow> cache_ok (um_erase k c)"
  by (auto simp: cache_ok_def um.wf_erase um.find_erase split: if_splits)

lemma cache_ok_put_all:
  "(\<forall>(k, info) \<in> set kvs. acs_storable (autoConnectStatus info)) \<Longrightarrow> cache_ok c \<Longrightarrow> cache_ok (um_put_all kvs c)"
  by (induction kvs c rule: um_put_all.induct) (auto intro: cache_ok_put)

subsection \<open>Loading\<close>

lemma loadedEntry_storable: "acs_storable (autoConnectStatus (snd (loadedEntry E v)))"
  by (simp add: loadedEntry_def Let_def)

lemma cache_ok_loaded: "cache_ok (um_put_all (map (loadedEntry E) vs) [])"
  by (rule cache_ok_put_all) (auto, metis loadedEntry_storable snd_conv)

text \<open>The fields of a record that the store keeps.\<close>

definition storedView :: "BluetoothDeviceInfo \<Rightarrow> BluetoothDeviceInfo" where
  "storedView info = info\<lparr>deviceAddr := '''', friendlyName := ''''\<rparr>"

lemma HasLabel_Nil [simp]: "\<not> HasLabel [] l"
  by (simp add: HasLabel_def)

lemma HasLabel_Cons [simp]: "HasLabel ((k, v) # ob) l \<longleftrightarrow> l = k \<or> HasLabel ob l"
  by (simp add: HasLabel_def)

lemma json_at_Cons [simp]: "json_at ((k, v) # ob) l = (if l = k then v else json_at ob l)"
  by (simp add: json_at_def)

lemma loadedEntry_storedEntry:
  assumes "json_accessors E" "acs_storable (autoConnectStatus info)"
  shows "loadedEntry E (storedEntry (k, info)) = (k, storedView info)"
  using assms by (simp add: loadedEntry_def storedEntry_def Let_def acs_cast_stored storedView_def
      defaultDeviceInfo_def)

lemma um_put_all_distinct:
  assumes "distinct (map fst kvs)"
  shows "um_find (um_put_all kvs []) k = map_of kvs k"
proof -
  have "map_of (rev kvs) = map_of kvs"
    using assms by (metis distinct_rev map_of_inject_set rev_map set_rev)
  then show ?thesis by (simp add: um_put_all_find split: option.split)
qed

lemma iterates_perm:
  assumes "iterates_all E"
  shows "set (e_order E m) = set m" "distinct (map fst (e_order E m)) \<longleftrightarrow> distinct (map fst m)"
proof -
  have m: "mset (e_order E m) = mset m" using assms by (simp add: iterates_all_def)
  show "set (e_order E m) = set m" using m by (rule mset_eq_setD)
  show "distinct (map fst (e_order E m)) \<longleftrightarrow> distinct (map fst m)"
    using m by (metis mset_eq_imp_distinct_iff mset_map)
qed

text \<open>Storing the cache and loading it back: every device with the fields the store keeps.\<close>

lemma load_stored:
  assumes "json_accessors E" "iterates_all E" "cache_ok c"
  shows "um_find (um_put_all (map (loadedEntry E) (map storedEntry (e_order E c))) []) k =
    map_option storedView (um_find c k)"
proof -
  have wf: "distinct (map fst c)" using assms(3) by (simp add: cache_ok_def um_wf_def)
  have st: "(j, info) \<in> set c \<Longrightarrow> acs_storable (autoConnectStatus info)" for j info
    using assms(3) by (auto simp: cache_ok_def um_find_in [symmetric])
  let ?kvs = "map (\<lambda>(j, info). (j, storedView info)) (e_order E c)"
  have "map (loadedEntry E) (map storedEntry (e_order E c)) = ?kvs"
    using st iterates_perm(1) [OF assms(2)] assms(1) by (auto simp: loadedEntry_storedEntry)
  moreover have "map_of (e_order E c) = map_of c"
    using wf iterates_perm [OF assms(2), of c] by (metis map_of_inject_set)
  moreover have "map fst ?kvs = map fst (e_order E c)" by (simp add: case_prod_beta comp_def)
  then have "um_find (um_put_all ?kvs []) k = map_of ?kvs k"
    using wf iterates_perm(2) [OF assms(2), of c] by (intro um_put_all_distinct) (simp only:)
  ultimately show ?thesis by (simp only: map_of_map_snd um_find_def)
qed

subsection \<open>Reconciliation with the paired devices\<close>

lemma backfill_keeps [simp]:
  "autoConnectStatus (backfill E d i) = autoConnectStatus i"
  "lastVolumeSetting (backfill E d i) = lastVolumeSetting i"
  "lastConnectTimeUtc (backfill E d i) = lastConnectTimeUtc i"
  by (simp_all add: backfill_def Let_def)

lemma backfill_fields:
  "friendlyName (backfill E d i) = (if friendlyName i = '''' then nameOrId d else friendlyName i)"
  "deviceAddr (backfill E d i) = (if deviceAddr i = '''' then m_deviceAddress d else deviceAddr i)"
  "deviceType (backfill E d i) = (if deviceType i \<in> {'''', ''UNKNOWN''} then typeName E (m_deviceType d) else deviceType i)"
  by (simp_all add: backfill_def Let_def)

lemma freshInfo_auto [simp]: "autoConnectStatus (freshInfo E d) = AUTO_CONNECT_STATUS_UNSET"
  by (simp add: freshInfo_def defaultDeviceInfo_def)

definition mergedInfo :: "env \<Rightarrow> bool \<Rightarrow> paired_device \<Rightarrow> BluetoothDeviceInfo option \<Rightarrow> BluetoothDeviceInfo option" where
  "mergedInfo E backfillOnly d old = (case old of Some i \<Rightarrow> Some (backfill E d i)
     | None \<Rightarrow> if backfillOnly then None else Some (freshInfo E d))"

lemma merge_step_find:
  "um_find (case um_find c (deviceId d) of
      Some existing \<Rightarrow> um_put (deviceId d) (backfill E d existing) c
    | None \<Rightarrow> if \<not> b then um_put (deviceId d) (freshInfo E d) c else c) k =
   (if k = deviceId d then mergedInfo E b d (um_find c k) else um_find c k)"
  by (auto simp: mergedInfo_def split: option.splits)

lemma mergeDevices_other:
  "k \<notin> deviceId ` set ds \<Longrightarrow> um_find (mergeDevices E b ds c) k = um_find c k"
  by (induction E b ds c rule: mergeDevices.induct) (auto simp: merge_step_find)

lemma mergeDevices_find:
  assumes "distinct (map deviceId ds)" "d \<in> set ds"
  shows "um_find (mergeDevices E b ds c) (deviceId d) = mergedInfo E b d (um_find c (deviceId d))"
  using assms
proof (induction E b ds c rule: mergeDevices.induct)
  case (1 E b c)
  then show ?case by simp
next
  case (2 E b x xs c)
  show ?case
  proof (cases "x = d")
    case True
    with "2.prems" have "deviceId d \<notin> deviceId ` set xs" by simp
    with True show ?thesis by (simp add: mergeDevices_other merge_step_find)
  next
    case False
    with "2.prems" have "d \<in> set xs" and "deviceId d \<noteq> deviceId x" by (auto simp: image_iff)
    with "2.IH" "2.prems" show ?thesis by (simp add: merge_step_find)
  qed
qed

lemma mergeDevices_ok: "cache_ok c \<Longrightarrow> cache_ok (mergeDevices E b ds c)"
proof (induction E b ds c rule: mergeDevices.induct)
  case (2 E b d ds c)
  have "um_find c (deviceId d) = Some i \<Longrightarrow> acs_storable (autoConnectStatus (backfill E d i))" for i
    using "2.prems" by (auto simp: cache_ok_def)
  with "2.prems" show ?case unfolding mergeDevices.simps
    by (intro "2.IH") (auto intro!: cache_ok_put split: option.split)
qed simp

lemma mergeDevices_dom:
  "um_find (mergeDevices E b ds c) k \<noteq> None \<longleftrightarrow>
     um_find c k \<noteq> None \<or> \<not> b \<and> k \<in> deviceId ` set ds"
  by (induction E b ds c rule: mergeDevices.induct)
    (auto simp: merge_step_find mergedInfo_def split: option.splits)

lemma fold_erase_ok: "cache_ok c \<Longrightarrow> cache_ok (fold um_erase ks c)"
  by (induction ks arbitrary: c) (auto intro: cache_ok_erase)

lemma scrub_ok: "cache_ok c \<Longrightarrow> cache_ok (scrub E ds c)"
  unfolding scrub_def Let_def by (rule fold_erase_ok)

lemma scrub_find:
  assumes "iterates_all E" "um_wf c"
  shows "um_find (scrub E ds c) k = (if k \<in> deviceId ` set ds then um_find c k else None)"
proof -
  have "um_find c k = None" if "k \<notin> fst ` set (e_order E c)"
    using that iterates_perm(1) [OF assms(1)] by (simp add: um_find_None)
  then show ?thesis
    using assms(2) by (auto simp: scrub_def Let_def um.fold_erase_find)
qed

text \<open>Full reconciliation: afterwards the cache holds exactly the paired devices.\<close>

lemma reconcile_find:
  assumes "iterates_all E" "cache_ok c" "distinct (map deviceId ds)"
  shows "um_find (scrub E ds (mergeDevices E False ds c)) k =
    (case map_of (map (\<lambda>d. (deviceId d, d)) ds) k of
       None \<Rightarrow> None
     | Some d \<Rightarrow> mergedInfo E False d (um_find c k))"
proof -
  have wf: "um_wf (mergeDevices E False ds c)" using mergeDevices_ok [OF assms(2)] by (simp add: cache_ok_def)
  show ?thesis
  proof (cases "map_of (map (\<lambda>d. (deviceId d, d)) ds) k")
    case None
    then have "k \<notin> deviceId ` set ds" by (auto simp: map_of_eq_None_iff image_iff)
    with None show ?thesis by (simp add: scrub_find [OF assms(1) wf])
  next
    case (Some d)
    then have "d \<in> set ds" "k = deviceId d" by (auto dest: map_of_SomeD)
    with Some show ?thesis by (simp add: scrub_find [OF assms(1) wf] mergeDevices_find [OF assms(3)])
  qed
qed

lemma deviceId_inj: "deviceId d = deviceId d' \<longleftrightarrow> m_deviceHandle d = m_deviceHandle d'"
  by (simp add: deviceId_def to_string_ull_inj)

lemma distinct_handles: "distinct (map m_deviceHandle ds) \<Longrightarrow> distinct (map deviceId ds)"
  by (auto simp: distinct_map inj_on_def deviceId_inj)

subsection \<open>The imported cache\<close>

lemma importDevices_ok:
  "\<forall>info \<in> set infos. acs_storable (autoConnectStatus info) \<Longrightarrow> cache_ok c \<Longrightarrow> cache_ok (importDevices m infos c)"
proof (induction m infos c rule: importDevices.induct)
  case (2 m info infos c)
  then show ?case unfolding importDevices.simps
    by (intro "2.IH") (auto intro!: cache_ok_put split: option.split)
qed simp

lemma parseEntry_storable: "acs_storable (autoConnectStatus (parseEntry E v))"
  by (simp add: parseEntry_def Let_def defaultDeviceInfo_def split: option.splits)

lemma Parse_storable:
  "Parse E payload [] = (r, infos) \<Longrightarrow> info \<in> set infos \<Longrightarrow> acs_storable (autoConnectStatus info)"
  by (auto simp: Parse_def parseEntry_storable split: option.splits if_splits)

text \<open>Only devices BTRMGR has paired are imported, under their handle.\<close>

lemma addrToDeviceId_ran:
  "um_find (addrToDeviceId ds m) a = Some k \<Longrightarrow>
   um_find m a = Some k \<or> (\<exists>d \<in> set ds. m_deviceAddress d = a \<and> deviceId d = k)"
  by (induction ds m rule: addrToDeviceId.induct) (auto split: if_splits)

lemma importDevices_find:
  "um_find (importDevices m infos c) k = Some info \<Longrightarrow>
   um_find c k = Some info \<or> info \<in> set infos \<and> um_find m (deviceAddr info) = Some k"
  by (induction m infos c rule: importDevices.induct) (auto split: option.splits if_splits)

end
