(* ===== verification/Machines.thy ===== *)
theory Machines
  imports Prelude
begin

section \<open>Machines: invariants and simulations\<close>

text \<open>
  An operation of a component either returns a new state or never returns (None).
  \<open>run\<close> executes a sequence of operations, each only where it may be called. The locale
  \<open>invariant_machine\<close> is the contract "every operation keeps the invariant", with its
  consequence for runs; \<open>simulation\<close> extends it with an abstract step relation that every
  concrete step implements, and carries the implementation over to runs.
\<close>

fun run :: "('op \<Rightarrow> 's \<Rightarrow> bool) \<Rightarrow> ('op \<Rightarrow> 's \<Rightarrow> 's option) \<Rightarrow> 'op list \<Rightarrow> 's \<Rightarrow> 's option" where
  "run enabled step [] s = Some s"
| "run enabled step (op # ops) s =
     (if enabled op s then do { s' \<leftarrow> step op s; run enabled step ops s' } else None)"

lemma run_append:
  "run enabled step (ops @ ops') s = do { s' \<leftarrow> run enabled step ops s; run enabled step ops' s' }"
  by (induction ops arbitrary: s) (auto split: Option.bind_splits)

lemma run_total:
  assumes "\<And>op s. step op s \<noteq> None"
  shows "(\<And>op s. op \<in> set ops \<Longrightarrow> enabled op s) \<Longrightarrow> \<exists>s'. run enabled step ops s = Some s'"
proof (induction ops arbitrary: s)
  case (Cons op ops)
  obtain s1 where "step op s = Some s1" using assms [of op s] by blast
  with Cons show ?case by simp
qed simp

locale invariant_machine =
  fixes enabled :: "'op \<Rightarrow> 's \<Rightarrow> bool"
    and step :: "'op \<Rightarrow> 's \<Rightarrow> 's option"
    and inv :: "'s \<Rightarrow> bool"
  assumes inv_step: "inv s \<Longrightarrow> enabled op s \<Longrightarrow> step op s = Some s' \<Longrightarrow> inv s'"
begin

lemma inv_run: "run enabled step ops s = Some s' \<Longrightarrow> inv s \<Longrightarrow> inv s'"
  by (induction ops arbitrary: s) (auto split: if_splits elim!: bind_SomeE intro: inv_step)

text \<open>The invariant also holds in every state a run passes through.\<close>

lemma inv_prefix: "run enabled step (ops @ ops') s = Some s' \<Longrightarrow> inv s \<Longrightarrow>
    \<exists>s1. run enabled step ops s = Some s1 \<and> inv s1"
  by (auto simp: run_append elim!: bind_SomeE intro: inv_run)

end

text \<open>A run of an abstract step relation, its operations in the order of the list.\<close>

inductive spec_run :: "('op \<Rightarrow> 'a \<Rightarrow> 'a \<Rightarrow> bool) \<Rightarrow> 'op list \<Rightarrow> 'a \<Rightarrow> 'a \<Rightarrow> bool" for astep where
  spec_done: "spec_run astep [] a a"
| spec_next: "astep op a a1 \<Longrightarrow> spec_run astep ops a1 a' \<Longrightarrow> spec_run astep (op # ops) a a'"

inductive_simps spec_run_simps [simp]: "spec_run astep [] a a'" "spec_run astep (op # ops) a a'"

locale simulation = invariant_machine +
  fixes abs :: "'s \<Rightarrow> 'a" and astep :: "'op \<Rightarrow> 'a \<Rightarrow> 'a \<Rightarrow> bool"
  assumes simulates: "inv s \<Longrightarrow> enabled op s \<Longrightarrow> step op s = Some s' \<Longrightarrow> astep op (abs s) (abs s')"
begin

text \<open>A run of the code is a run of the specification, operation by operation.\<close>

lemma run_simulates: "run enabled step ops s = Some s' \<Longrightarrow> inv s \<Longrightarrow> spec_run astep ops (abs s) (abs s')"
proof (induction ops arbitrary: s)
  case Nil
  then show ?case by simp
next
  case (Cons op ops)
  then obtain s1 where en: "enabled op s" and st: "step op s = Some s1" and rn: "run enabled step ops s1 = Some s'"
    by (auto split: if_splits elim!: bind_SomeE)
  have "spec_run astep ops (abs s1) (abs s')"
    using rn inv_step [OF Cons.prems(2) en st] by (rule Cons.IH)
  with simulates [OF Cons.prems(2) en st] show ?case by auto
qed

end

end
