(* ===== verification/RegistryCorrect.thy ===== *)
theory RegistryCorrect
  imports CacheCorrect Machines
begin

section \<open>The registry as a machine\<close>

text \<open>
  The public operations of \<open>BluetoothDeviceManager\<close> as one machine (\<open>dm_step\<close>), its
  invariant \<open>registry_inv\<close> (a well-formed cache, every acquired store interface released,
  the service referenced exactly while it is held), and the specification it refines: a
  finite map from device ids to metadata with the flags "initialised" and "migrated".
\<close>

datatype dm_op = Init bool | Deinit | SetAutoConnect string bool | SetLastConnectTimeUtc string
  | SetLastVolumeSetting string int | AddDevice string | RemoveDevice string
  | PerformMigration | ClearMigration

fun dm_step :: "env \<Rightarrow> dm_op \<Rightarrow> 'z dmgr_scheme \<Rightarrow> (hresult \<times> 'z dmgr_scheme) option" where
  "dm_step E (Init srv) w = init E srv w"
| "dm_step E Deinit w = Some (ERROR_NONE, deinit w)"
| "dm_step E (SetAutoConnect k b) w = setAutoConnect E k b w"
| "dm_step E (SetLastConnectTimeUtc k) w = do { w' \<leftarrow> setLastConnectTimeUtc E k w; Some (ERROR_NONE, w') }"
| "dm_step E (SetLastVolumeSetting k v) w = setLastVolumeSetting E k v w"
| "dm_step E (AddDevice k) w = addDevice E k w"
| "dm_step E (RemoveDevice k) w = removeDevice E k w"
| "dm_step E PerformMigration w = performMigration E w"
| "dm_step E ClearMigration w = Some (clearMigration E w)"

text \<open>
  The migration operations exist only in the migration build; the plugin calls \<open>init\<close> only
  on a registry that holds no service.
\<close>

fun dm_enabled :: "env \<Rightarrow> dm_op \<Rightarrow> 'z dmgr_scheme \<Rightarrow> bool" where
  "dm_enabled E (Init srv) w \<longleftrightarrow> \<not> service w"
| "dm_enabled E PerformMigration w \<longleftrightarrow> e_migration E"
| "dm_enabled E ClearMigration w \<longleftrightarrow> e_migration E"
| "dm_enabled E _ w \<longleftrightarrow> True"

definition registry_inv :: "'z dmgr_scheme \<Rightarrow> bool" where
  "registry_inv w \<longleftrightarrow> cache_ok (pairedDeviceCache w) \<and> tally store_refs (trace w) = 0 \<and>
     tally shell_refs (trace w) = (if service w then 1 else 0)"

subsection \<open>The parts of the operations keep the invariant\<close>

lemma registry_inv_put:
  "registry_inv w \<Longrightarrow> acs_storable (autoConnectStatus info) \<Longrightarrow> registry_inv (cachePut k info w)"
  by (simp add: registry_inv_def cachePut_def cache_ok_put)

lemma registry_inv_cache:
  "registry_inv w \<Longrightarrow> cache_ok c \<Longrightarrow> registry_inv (w\<lparr>pairedDeviceCache := c\<rparr>)"
  by (simp add: registry_inv_def)

lemma registry_inv_erase:
  "registry_inv w \<Longrightarrow> registry_inv (w\<lparr>pairedDeviceCache := um_erase k (pairedDeviceCache w)\<rparr>)"
  by (simp add: registry_inv_def cache_ok_erase)

lemma registry_inv_migrated [simp]: "registry_inv (w\<lparr>isMigrated := b\<rparr>) \<longleftrightarrow> registry_inv w"
  by (simp add: registry_inv_def)

lemma registry_inv_emit:
  "store_refs e = 0 \<Longrightarrow> shell_refs e = 0 \<Longrightarrow> registry_inv (emit e w) \<longleftrightarrow> registry_inv w"
  by (simp add: registry_inv_def)

lemma registry_inv_io:
  "registry_inv w \<Longrightarrow> io P w w' \<Longrightarrow> (\<And>ev. P ev \<Longrightarrow> store_refs ev = 0 \<and> shell_refs ev = 0) \<Longrightarrow> registry_inv w'"
  using io_fields [of P w w'] evolves_tally [of P w w' store_refs] evolves_tally [of P w w' shell_refs]
  by (auto simp: registry_inv_def io_def)

lemma store_io_shell: "store_io key ev \<Longrightarrow> shell_refs ev = 0"
  by (auto simp: store_io_def shell_refs_def split: ext_event.splits)

lemma writeStorage_inv:
  assumes "registry_inv w" "writeStorageFromCache E w = Some (r, w')"
  shows "registry_inv w'"
  using assms(1) writeStorage_store_refs [OF assms(2)] io_fields [OF writeStorage_io [OF assms(2)]]
    evolves_tally [OF io_evolves [OF writeStorage_io [OF assms(2)]], of shell_refs]
  by (simp add: registry_inv_def store_io_shell)

lemma btCall_inv: "registry_inv w \<Longrightarrow> btCall E c w = (rc, w') \<Longrightarrow> registry_inv w'"
  by (auto simp: btCall_def Let_def registry_inv_emit)

lemma updateCacheFromStorage_inv:
  assumes "registry_inv w" "updateCacheFromStorage E w = (r, w')"
  shows "registry_inv w'"
  using assms(2)
  by (cases rule: updateCacheFromStorage_cases)
    (use assms(1) in \<open>auto simp: registry_inv_def storeRelease_def intro: cache_ok_loaded\<close>)

lemma readVersion_inv:
  assumes "registry_inv w" "readMigrationVersionFromStorage E w = (r, v, w')"
  shows "registry_inv w'"
  using assms(2)
  by (cases rule: readVersion_cases) (use assms(1) in \<open>auto simp: registry_inv_def storeRelease_def\<close>)

lemma writeVersion_inv:
  assumes "registry_inv w" "writeMigrationVersionToStorage E w = (r, w')"
  shows "registry_inv w'"
  using assms(2)
  by (cases rule: writeVersion_cases) (use assms(1) in \<open>auto simp: registry_inv_def storeRelease_def\<close>)

lemma updateCacheFromDevice_inv:
  assumes "registry_inv w" "updateCacheFromDevice E b w = (r, w')"
  shows "registry_inv w'"
  using assms
  by (auto simp: updateCacheFromDevice_def Let_def btCall_def registry_inv_emit registry_inv_def
      intro!: scrub_ok mergeDevices_ok split: if_splits)

lemma ReadRaw_inv: "registry_inv w \<Longrightarrow> ReadRaw E c w = (r, c', w') \<Longrightarrow> registry_inv w'"
  using registry_inv_io [of w "quiet ''''" w'] ReadRaw_quiet [of E c w r c' w' "''''"]
  by (simp add: quiet_def)

lemma importFile_inv:
  assumes "registry_inv w" "writeCacheFromFilesystemPersistence E raw w = (r, w')"
  shows "registry_inv w'"
  using assms
  by (auto simp: writeCacheFromFilesystemPersistence_def Let_def btCall_def registry_inv_emit
      registry_inv_def Parse_storable intro!: importDevices_ok split: if_splits prod.splits)

lemma importCache_inv:
  assumes inv: "registry_inv w" and res: "importCache E w = (r, w')"
  shows "registry_inv w'"
proof -
  obtain rr raw w1 where rd: "ReadRaw E '''' w = (rr, raw, w1)" by (metis prod_cases3)
  obtain ir w2 where im: "writeCacheFromFilesystemPersistence E raw w1 = (ir, w2)" by fastforce
  have "registry_inv w1" using inv rd by (rule ReadRaw_inv)
  moreover from this im have "registry_inv w2" by (rule importFile_inv)
  ultimately show ?thesis
    using res rd im updateCacheFromDevice_inv [of w2 E True r w']
    by (auto simp: importCache_def Let_def split: if_splits)
qed

lemma releaseService_inv: "registry_inv w \<Longrightarrow> service w \<Longrightarrow> registry_inv (releaseService w)"
  by (simp add: registry_inv_def releaseService_def)

subsection \<open>Every operation keeps the invariant\<close>

text \<open>What the mutators end with.\<close>

definition syncStorage :: "env \<Rightarrow> 'z dmgr_scheme \<Rightarrow> (hresult \<times> 'z dmgr_scheme) option" where
  "syncStorage E w = (if e_migration E \<and> \<not> isMigrated w then Some (ERROR_NONE, w)
     else writeStorageFromCache E w)"

lemma cachePut_fields [simp]:
  "isMigrated (cachePut k i w) = isMigrated w" "service (cachePut k i w) = service w"
  "trace (cachePut k i w) = trace w" "files (cachePut k i w) = files w"
  "pairedDeviceCache (cachePut k i w) = um_put k i (pairedDeviceCache w)"
  "dmgr.more (cachePut k i w) = dmgr.more w"
  by (simp_all add: cachePut_def)

lemma setAutoConnect_sync:
  "setAutoConnect E k b w =
     (if e_migration E \<and> \<not> isMigrated w then Some (ERROR_GENERAL, w)
      else case um_find (pairedDeviceCache w) k of
        None \<Rightarrow> Some (ERROR_NOT_EXIST, w)
      | Some info \<Rightarrow> syncStorage E (cachePut k (info\<lparr>autoConnectStatus :=
          (if b then AUTO_CONNECT_STATUS_ENABLED else AUTO_CONNECT_STATUS_DISABLED)\<rparr>) w))"
  by (auto simp: setAutoConnect_def getPairedDeviceInfo_def syncStorage_def split: option.split)

lemma setLastConnectTimeUtc_sync:
  "setLastConnectTimeUtc E k w =
     (case um_find (pairedDeviceCache w) k of
        None \<Rightarrow> Some w
      | Some info \<Rightarrow> map_option snd (syncStorage E (cachePut k
          (info\<lparr>lastConnectTimeUtc := to_string_ll (e_now E (trace w))\<rparr>) w)))"
  by (auto simp: setLastConnectTimeUtc_def getPairedDeviceInfo_def syncStorage_def Let_def
      map_option_case split: option.split Option.bind_splits)

lemma setLastVolumeSetting_sync:
  "setLastVolumeSetting E k v w =
     (case um_find (pairedDeviceCache w) k of
        None \<Rightarrow> Some (ERROR_NOT_EXIST, w)
      | Some info \<Rightarrow> syncStorage E (cachePut k (info\<lparr>lastVolumeSetting := v\<rparr>) w))"
  by (simp add: setLastVolumeSetting_def getPairedDeviceInfo_def syncStorage_def Let_def split: option.split)

lemma addDevice_sync:
  "addDevice E k w =
     (case stoll k of
        Inl e \<Rightarrow> Some (ERROR_INVALID_PARAMETER, w)
      | Inr n \<Rightarrow>
          let h = word_of_int n; (rc, w1) = btCall E (GetDeviceProperties h) w
          in if rc \<noteq> BTRMGR_RESULT_SUCCESS then Some (ERROR_NOT_EXIST, w1)
             else syncStorage E (cachePut k (addedInfo E k (e_devProps E (trace w) h)) w1))"
  by (simp add: addDevice_def syncStorage_def Let_def split: sum.split prod.split)

lemma removeDevice_sync:
  "removeDevice E k w =
     (if um_find (pairedDeviceCache w) k = None then Some (ERROR_NOT_EXIST, w)
      else syncStorage E (w\<lparr>pairedDeviceCache := um_erase k (pairedDeviceCache w)\<rparr>))"
  by (simp add: removeDevice_def syncStorage_def Let_def)

lemmas op_sync = setAutoConnect_sync setLastConnectTimeUtc_sync setLastVolumeSetting_sync
  addDevice_sync removeDevice_sync

lemma syncStorage_cache: "syncStorage E w = Some (r, w') \<Longrightarrow> pairedDeviceCache w' = pairedDeviceCache w"
  by (auto simp: syncStorage_def split: if_splits dest!: writeStorage_io io_fields(2))

lemma syncStorage_inv: "registry_inv w \<Longrightarrow> syncStorage E w = Some (r, w') \<Longrightarrow> registry_inv w'"
  by (auto simp: syncStorage_def writeStorage_inv split: if_splits)

lemma cached_storable: "registry_inv w \<Longrightarrow> um_find (pairedDeviceCache w) k = Some info \<Longrightarrow>
    acs_storable (autoConnectStatus info)"
  by (auto simp: registry_inv_def cache_ok_def)

lemma setAutoConnect_inv:
  "registry_inv w \<Longrightarrow> setAutoConnect E k b w = Some (r, w') \<Longrightarrow> registry_inv w'"
  by (auto simp: setAutoConnect_sync split: if_splits option.splits
      intro!: registry_inv_put elim!: syncStorage_inv [rotated])

lemma setLastConnectTimeUtc_inv:
  "registry_inv w \<Longrightarrow> setLastConnectTimeUtc E k w = Some w' \<Longrightarrow> registry_inv w'"
  by (auto simp: setLastConnectTimeUtc_sync cached_storable split: option.splits
      intro!: registry_inv_put elim!: syncStorage_inv [rotated])

lemma setLastVolumeSetting_inv:
  "registry_inv w \<Longrightarrow> setLastVolumeSetting E k v w = Some (r, w') \<Longrightarrow> registry_inv w'"
  by (auto simp: setLastVolumeSetting_sync cached_storable split: option.splits
      intro!: registry_inv_put elim!: syncStorage_inv [rotated])

lemma addDevice_inv:
  "registry_inv w \<Longrightarrow> addDevice E k w = Some (r, w') \<Longrightarrow> registry_inv w'"
  by (auto simp: addDevice_sync btCall_def Let_def addedInfo_def defaultDeviceInfo_def registry_inv_emit
      split: sum.splits if_splits intro!: registry_inv_put elim!: syncStorage_inv [rotated])

lemma removeDevice_inv:
  "registry_inv w \<Longrightarrow> removeDevice E k w = Some (r, w') \<Longrightarrow> registry_inv w'"
  by (auto simp: removeDevice_sync split: if_splits intro!: registry_inv_erase elim!: syncStorage_inv [rotated])

lemma clearMigration_inv:
  "registry_inv w \<Longrightarrow> clearMigration E w = (r, w') \<Longrightarrow> registry_inv w'"
  by (auto simp: clearMigration_def storeAcquire_def storeDeleteKey_def storeRelease_def Let_def
      registry_inv_def split: if_splits)

lemma performMigration_inv:
  assumes inv: "registry_inv w" and res: "performMigration E w = Some (r, w')"
  shows "registry_inv w'"
proof -
  obtain vr v w1 where rd: "readMigrationVersionFromStorage E w = (vr, v, w1)" by (metis prod_cases3)
  obtain ir w2 where im: "importCache E w1 = (ir, w2)" by fastforce
  have i1: "registry_inv w1" using inv rd by (rule readVersion_inv)
  then have i2: "registry_inv w2" using im by (rule importCache_inv)
  from res rd im consider "w' = w1" | "w' = w1\<lparr>isMigrated := True\<rparr>" | "w' = w2"
    | wr w3 where "writeStorageFromCache E w2 = Some (wr, w3)"
        "w' = w3 \<or> (\<exists>vr w4. writeMigrationVersionToStorage E w3 = (vr, w4) \<and>
           (w' = w4 \<or> w' = w4\<lparr>isMigrated := True\<rparr>))"
    by (auto simp: performMigration_def Let_def split: if_splits prod.splits elim!: bind_SomeE)
  then show ?thesis
  proof cases
    case 4
    with i2 have "registry_inv w3" by (blast intro: writeStorage_inv)
    with 4 show ?thesis by (auto dest: writeVersion_inv)
  qed (use i1 i2 in simp_all)
qed

subsection \<open>\<open>init\<close>\<close>

lemma updateCacheFromStorage_service:
  "updateCacheFromStorage E w = (r, w') \<Longrightarrow> service w' = service w \<and> isMigrated w' = isMigrated w"
  by (erule updateCacheFromStorage_cases) (auto simp: storeRelease_def)

lemma updateCacheFromDevice_service:
  "updateCacheFromDevice E b w = (r, w') \<Longrightarrow> service w' = service w \<and> isMigrated w' = isMigrated w"
  by (auto simp: updateCacheFromDevice_def btCall_def Let_def split: if_splits)

lemma readVersion_service:
  "readMigrationVersionFromStorage E w = (r, v, w') \<Longrightarrow> service w' = service w"
  by (erule readVersion_cases) (auto simp: storeRelease_def)

text \<open>
  \<open>init\<close> returns without the service exactly when it fails.
\<close>

lemma initMigrationBuild_inv:
  assumes "registry_inv w" "service w" "initMigrationBuild E w = (r, w')"
  shows "registry_inv w' \<and> (service w' \<longleftrightarrow> r = ERROR_NONE)"
proof -
  obtain vr v w1 where rd: "readMigrationVersionFromStorage E w = (vr, v, w1)" by (metis prod_cases3)
  define m where "m \<longleftrightarrow> vr = ERROR_NONE \<and> v = BLUETOOTH_MIGRATION_VERSION"
  obtain sr w3 where up: "updateCacheFromStorage E (w1\<lparr>isMigrated := m\<rparr>) = (sr, w3)" by fastforce
  have i1: "registry_inv w1" "service w1"
    using readVersion_inv [OF assms(1) rd] readVersion_service [OF rd] assms(2) by auto
  then have i3: "registry_inv w3" "service w3"
    using updateCacheFromStorage_inv [OF _ up] updateCacheFromStorage_service [OF up] by auto
  have "(r, w') = (if m then if storageFailed sr then (sr, releaseService w3) else (ERROR_NONE, w3)
      else (ERROR_NONE, w1\<lparr>isMigrated := m\<rparr>))"
    using assms(3) rd up unfolding initMigrationBuild_def Let_def by (auto simp: m_def split: if_splits)
  then show ?thesis
    using i1 i3 by (auto simp: storageFailed_def releaseService_inv split: if_splits)
      (simp_all add: releaseService_def)
qed

lemma initPlainBuild_inv:
  assumes "registry_inv w" "service w" "initPlainBuild E w = Some (r, w')"
  shows "registry_inv w' \<and> (service w' \<longleftrightarrow> r = ERROR_NONE)"
proof -
  obtain sr w1 where up: "updateCacheFromStorage E w = (sr, w1)" by fastforce
  obtain dr w2 where dv: "updateCacheFromDevice E False w1 = (dr, w2)" by fastforce
  have i1: "registry_inv w1" "service w1"
    using updateCacheFromStorage_inv [OF assms(1) up] updateCacheFromStorage_service [OF up] assms(2) by auto
  have i2: "registry_inv w2" "service w2"
    using updateCacheFromDevice_inv [OF i1(1) dv] updateCacheFromDevice_service [OF dv] i1(2) by auto
  from assms(3) up dv consider "storageFailed sr" "r = sr" "w' = releaseService w1"
    | "dr \<noteq> ERROR_NONE" "r = dr" "w' = releaseService w2"
    | w3 where "writeStorageFromCache E w2 = Some (r, w3)"
        "w' = (if r \<noteq> ERROR_NONE then releaseService w3 else w3)"
    by (auto simp: initPlainBuild_def Let_def split: if_splits elim!: bind_SomeE)
  then show ?thesis
  proof cases
    case 3
    then have "registry_inv w3" "service w3"
      using writeStorage_inv [OF i2(1)] io_fields [OF writeStorage_io] i2(2) by blast+
    with 3 show ?thesis by (auto simp: releaseService_inv) (simp_all add: releaseService_def)
  qed (use i1 i2 in \<open>auto simp: storageFailed_def releaseService_inv\<close>, simp_all add: releaseService_def)
qed

lemma init_inv:
  assumes "registry_inv w" "\<not> service w" "init E srv w = Some (r, w')"
  shows "registry_inv w' \<and> (service w' \<longleftrightarrow> r = ERROR_NONE)"
proof (cases srv)
  case False
  with assms show ?thesis by (auto simp: init_def)
next
  case True
  let ?w = "emit EvShellAddRef (w\<lparr>service := True\<rparr>)"
  have "registry_inv ?w" "service ?w" using assms(1,2) by (simp_all add: registry_inv_def)
  with assms(3) True show ?thesis
    using initMigrationBuild_inv [of ?w E r w'] initPlainBuild_inv [of ?w E r w']
    by (simp add: init_def Let_def split: if_splits)
qed

lemma dm_step_inv:
  assumes "registry_inv w" "dm_enabled E op w" "dm_step E op w = Some (r, w')"
  shows "registry_inv w'"
  using assms
proof (cases op)
  case Deinit
  with assms show ?thesis by (auto simp: deinit_def releaseService_inv)
qed (auto dest: init_inv setAutoConnect_inv setLastConnectTimeUtc_inv setLastVolumeSetting_inv
    addDevice_inv removeDevice_inv performMigration_inv elim!: bind_SomeE intro: clearMigration_inv)

end
