(* ===== verification/RegistrySpec.thy ===== *)
theory RegistrySpec
  imports RegistryCorrect
begin

section \<open>What the registry promises\<close>

text \<open>
  The specification of \<open>BluetoothDeviceManager\<close>: a map from device ids to metadata with two
  flags, and for every public operation the results it may give and the states it may lead
  to. An operation on one device leaves the others alone, an error before the first effect
  leaves everything alone. Theorem \<open>dm_step_refines\<close> shows that the code implements it.
\<close>

record registry =
  reg_up :: bool
  reg_migrated :: bool
  reg_view :: "string \<Rightarrow> BluetoothDeviceInfo option"

definition registry_of :: "'z dmgr_scheme \<Rightarrow> registry" where
  "registry_of w = \<lparr>reg_up = service w, reg_migrated = isMigrated w, reg_view = um_find (pairedDeviceCache w)\<rparr>"

text \<open>The metadata may be changed persistently: always, but in the migration build only once migrated.\<close>

definition ready :: "env \<Rightarrow> registry \<Rightarrow> bool" where
  "ready E a \<longleftrightarrow> \<not> e_migration E \<or> reg_migrated a"

definition reg_set :: "string \<Rightarrow> BluetoothDeviceInfo option \<Rightarrow> registry \<Rightarrow> registry" where
  "reg_set k v a = a\<lparr>reg_view := (reg_view a)(k := v)\<rparr>"

inductive registry_spec :: "env \<Rightarrow> dm_op \<Rightarrow> registry \<Rightarrow> hresult \<Rightarrow> registry \<Rightarrow> bool" for E where
  auto_rejected: "\<not> ready E a \<Longrightarrow> registry_spec E (SetAutoConnect k b) a ERROR_GENERAL a"
| auto_unknown: "ready E a \<Longrightarrow> reg_view a k = None \<Longrightarrow> registry_spec E (SetAutoConnect k b) a ERROR_NOT_EXIST a"
| auto_set: "ready E a \<Longrightarrow> reg_view a k = Some i \<Longrightarrow> registry_spec E (SetAutoConnect k b) a r
    (reg_set k (Some (i\<lparr>autoConnectStatus := (if b then AUTO_CONNECT_STATUS_ENABLED
       else AUTO_CONNECT_STATUS_DISABLED)\<rparr>)) a)"
| time_unknown: "reg_view a k = None \<Longrightarrow> registry_spec E (SetLastConnectTimeUtc k) a ERROR_NONE a"
| time_set: "reg_view a k = Some i \<Longrightarrow> registry_spec E (SetLastConnectTimeUtc k) a ERROR_NONE
    (reg_set k (Some (i\<lparr>lastConnectTimeUtc := to_string_ll (e_now E tr)\<rparr>)) a)"
| volume_unknown: "reg_view a k = None \<Longrightarrow> registry_spec E (SetLastVolumeSetting k v) a ERROR_NOT_EXIST a"
| volume_set: "reg_view a k = Some i \<Longrightarrow> ready E a \<or> r = ERROR_NONE \<Longrightarrow>
    registry_spec E (SetLastVolumeSetting k v) a r (reg_set k (Some (i\<lparr>lastVolumeSetting := v\<rparr>)) a)"
| add_invalid: "stoll k = Inl e \<Longrightarrow> registry_spec E (AddDevice k) a ERROR_INVALID_PARAMETER a"
| add_unknown: "stoll k = Inr n \<Longrightarrow> registry_spec E (AddDevice k) a ERROR_NOT_EXIST a"
| add: "stoll k = Inr n \<Longrightarrow> ready E a \<or> r = ERROR_NONE \<Longrightarrow> registry_spec E (AddDevice k) a r
    (reg_set k (Some (addedInfo E k (e_devProps E tr (word_of_int n)))) a)"
| remove_unknown: "reg_view a k = None \<Longrightarrow> registry_spec E (RemoveDevice k) a ERROR_NOT_EXIST a"
| remove: "reg_view a k = Some i \<Longrightarrow> ready E a \<or> r = ERROR_NONE \<Longrightarrow>
    registry_spec E (RemoveDevice k) a r (reg_set k None a)"
| migrate_failed: "r \<noteq> ERROR_NONE \<Longrightarrow> reg_up a' = reg_up a \<Longrightarrow> reg_migrated a' = reg_migrated a \<Longrightarrow>
    registry_spec E PerformMigration a r a'"
| migrate_done: "reg_up a \<Longrightarrow> reg_up a' \<Longrightarrow> reg_migrated a' \<Longrightarrow> registry_spec E PerformMigration a ERROR_NONE a'"
| clear_failed: "r \<noteq> ERROR_NONE \<Longrightarrow> registry_spec E ClearMigration a r a"
| cleared: "reg_up a \<Longrightarrow> registry_spec E ClearMigration a ERROR_NONE
    (a\<lparr>reg_view := (\<lambda>_. None), reg_migrated := False\<rparr>)"
| deinit: "registry_spec E Deinit a ERROR_NONE (a\<lparr>reg_up := False\<rparr>)"
| init_null: "registry_spec E (Init False) a ERROR_GENERAL a"
| init_done: "reg_up a' \<Longrightarrow> registry_spec E (Init True) a ERROR_NONE a'"
| init_failed: "r \<noteq> ERROR_NONE \<Longrightarrow> \<not> reg_up a' \<Longrightarrow> registry_spec E (Init True) a r a'"

inductive_cases spec_SetAutoConnectE: "registry_spec E (SetAutoConnect k b) a r a'"
inductive_cases spec_RemoveDeviceE: "registry_spec E (RemoveDevice k) a r a'"

text \<open>What the specification says of an operation on a single device.\<close>

definition op_device :: "dm_op \<Rightarrow> string option" where
  "op_device op = (case op of SetAutoConnect k b \<Rightarrow> Some k | SetLastConnectTimeUtc k \<Rightarrow> Some k
     | SetLastVolumeSetting k v \<Rightarrow> Some k | AddDevice k \<Rightarrow> Some k | RemoveDevice k \<Rightarrow> Some k | _ \<Rightarrow> None)"

lemma spec_local:
  "registry_spec E op a r a' \<Longrightarrow> op_device op = Some k \<Longrightarrow> k' \<noteq> k \<Longrightarrow>
   reg_view a' k' = reg_view a k' \<and> reg_up a' = reg_up a \<and> reg_migrated a' = reg_migrated a"
  by (induction rule: registry_spec.induct) (auto simp: op_device_def reg_set_def)

lemma reg_set_simps [simp]:
  "reg_view (reg_set k v a) = (reg_view a)(k := v)" "reg_up (reg_set k v a) = reg_up a"
  "reg_migrated (reg_set k v a) = reg_migrated a"
  by (simp_all add: reg_set_def)

lemma ready_set [simp]: "ready E (reg_set k v a) \<longleftrightarrow> ready E a"
  by (simp add: ready_def)

subsection \<open>The code implements it\<close>

lemma registry_of_fields [simp]:
  "reg_up (registry_of w) = service w" "reg_migrated (registry_of w) = isMigrated w"
  "reg_view (registry_of w) = um_find (pairedDeviceCache w)"
  by (simp_all add: registry_of_def)

lemma ready_registry [simp]: "ready E (registry_of w) \<longleftrightarrow> \<not> e_migration E \<or> isMigrated w"
  by (simp add: ready_def)

lemma registry_of_io: "io P w w' \<Longrightarrow> registry_of w' = registry_of w"
  using io_fields [of P w w'] by (simp add: registry_of_def)

lemma registry_of_emit [simp]: "registry_of (emit e w) = registry_of w"
  by (simp add: registry_of_def)

lemma registry_of_put [simp]: "registry_of (cachePut k i w) = reg_set k (Some i) (registry_of w)"
  by (simp add: registry_of_def reg_set_def um.find_put)

lemma registry_of_erase: "um_wf (pairedDeviceCache w) \<Longrightarrow>
    registry_of (w\<lparr>pairedDeviceCache := um_erase k (pairedDeviceCache w)\<rparr>) = reg_set k None (registry_of w)"
  by (simp add: registry_of_def reg_set_def um.find_erase)

lemma syncStorage_spec:
  "syncStorage E w = Some (r, w') \<Longrightarrow>
   registry_of w' = registry_of w \<and> (ready E (registry_of w) \<or> r = ERROR_NONE)"
  by (auto simp: syncStorage_def registry_of_io [OF writeStorage_io] split: if_splits)

lemma importCache_fields:
  assumes "importCache E w = (r, w')"
  shows "service w' = service w \<and> isMigrated w' = isMigrated w"
proof -
  obtain rr raw w1 where rd: "ReadRaw E '''' w = (rr, raw, w1)" by (metis prod_cases3)
  obtain ir w2 where im: "writeCacheFromFilesystemPersistence E raw w1 = (ir, w2)" by fastforce
  have "service w2 = service w1 \<and> isMigrated w2 = isMigrated w1"
    using im by (auto simp: writeCacheFromFilesystemPersistence_def btCall_def Let_def split: if_splits prod.splits)
  then show ?thesis
    using assms rd im io_fields [OF ReadRaw_quiet [OF rd, of "''''"]] updateCacheFromDevice_service [of E True w2 r w']
    by (auto simp: importCache_def Let_def split: if_splits)
qed

lemma writeStorage_service: "writeStorageFromCache E w = Some (ERROR_NONE, w') \<Longrightarrow> service w"
  by (erule writeStorage_cases) simp_all

lemma performMigration_fields:
  assumes "performMigration E w = Some (r, w')"
  shows "service w' = service w \<and> (if r = ERROR_NONE then service w \<and> isMigrated w'
     else isMigrated w' = isMigrated w)"
proof -
  obtain vr v w1 where rd: "readMigrationVersionFromStorage E w = (vr, v, w1)" by (metis prod_cases3)
  obtain ir w2 where im: "importCache E w1 = (ir, w2)" by fastforce
  note f1 = io_fields [OF readVersion_io [OF rd]] and f2 = importCache_fields [OF im]
  from assms rd im consider
      "\<not> missingFromPersistentStore vr" "vr \<noteq> ERROR_NONE" "r = vr" "w' = w1"
    | "vr = ERROR_NONE" "r = ERROR_NONE" "w' = w1\<lparr>isMigrated := True\<rparr>"
    | "ir \<noteq> ERROR_NONE" "r = ir" "w' = w2"
    | wr w3 xr w4 where "writeStorageFromCache E w2 = Some (wr, w3)"
        "writeMigrationVersionToStorage E w3 = (xr, w4)"
        "(wr \<noteq> ERROR_NONE \<and> r = wr \<and> w' = w3) \<or> (wr = ERROR_NONE \<and> xr \<noteq> ERROR_NONE \<and> r = xr \<and> w' = w4) \<or>
         (wr = ERROR_NONE \<and> xr = ERROR_NONE \<and> r = ERROR_NONE \<and> w' = w4\<lparr>isMigrated := True\<rparr>)"
    by (fastforce simp: performMigration_def Let_def split: if_splits prod.splits elim!: bind_SomeE)
  then show ?thesis
  proof cases
    case 2
    have "service w" using rd 2(1) by (elim readVersion_cases) auto
    with 2 f1 show ?thesis by simp
  next
    case 4
    note f3 = io_fields [OF writeStorage_io [OF 4(1)]] and f4 = io_fields [OF writeVersion_io [OF 4(2)]]
    have "wr = ERROR_NONE \<Longrightarrow> service w2" using 4(1) writeStorage_service by blast
    with 4(3) f1 f2 f3 f4 show ?thesis by auto
  qed (use f1 f2 in simp_all)
qed

lemma clearMigration_result:
  "clearMigration E w = (r, w') \<Longrightarrow>
   if r = ERROR_NONE
   then service w \<and> registry_of w' = (registry_of w)\<lparr>reg_view := (\<lambda>_. None), reg_migrated := False\<rparr>
   else registry_of w' = registry_of w"
  by (auto simp: clearMigration_def storeAcquire_def storeDeleteKey_def storeRelease_def Let_def
      missingFromPersistentStore_def registry_of_def fun_eq_iff split: if_splits)

lemma clearMigration_spec:
  "clearMigration E w = (r, w') \<Longrightarrow> registry_spec E ClearMigration (registry_of w) r (registry_of w')"
  using clearMigration_result [of E w r w'] by (auto intro: clear_failed cleared split: if_splits)

lemma mutators_spec:
  assumes inv: "registry_inv w"
  shows "setAutoConnect E k b w = Some (r, w') \<Longrightarrow> registry_spec E (SetAutoConnect k b) (registry_of w) r (registry_of w')"
    and "setLastConnectTimeUtc E k w = Some w' \<Longrightarrow> registry_spec E (SetLastConnectTimeUtc k) (registry_of w) ERROR_NONE (registry_of w')"
    and "setLastVolumeSetting E k v w = Some (r, w') \<Longrightarrow> registry_spec E (SetLastVolumeSetting k v) (registry_of w) r (registry_of w')"
    and "removeDevice E k w = Some (r, w') \<Longrightarrow> registry_spec E (RemoveDevice k) (registry_of w) r (registry_of w')"
    and "addDevice E k w = Some (r, w') \<Longrightarrow> registry_spec E (AddDevice k) (registry_of w) r (registry_of w')"
proof -
  have wf: "um_wf (pairedDeviceCache w)" using inv by (simp add: registry_inv_def cache_ok_def)
  show "setAutoConnect E k b w = Some (r, w') \<Longrightarrow> registry_spec E (SetAutoConnect k b) (registry_of w) r (registry_of w')"
    by (auto simp: setAutoConnect_sync split: if_splits option.splits dest!: syncStorage_spec
        intro!: auto_rejected auto_unknown auto_set [where b = True, simplified] auto_set [where b = False, simplified])
  show "setLastConnectTimeUtc E k w = Some w' \<Longrightarrow> registry_spec E (SetLastConnectTimeUtc k) (registry_of w) ERROR_NONE (registry_of w')"
    by (auto simp: setLastConnectTimeUtc_sync split: option.splits dest!: syncStorage_spec
        intro!: time_unknown time_set)
  show "setLastVolumeSetting E k v w = Some (r, w') \<Longrightarrow> registry_spec E (SetLastVolumeSetting k v) (registry_of w) r (registry_of w')"
    by (auto simp: setLastVolumeSetting_sync split: option.splits dest!: syncStorage_spec
        intro!: volume_unknown volume_set)
  show "removeDevice E k w = Some (r, w') \<Longrightarrow> registry_spec E (RemoveDevice k) (registry_of w) r (registry_of w')"
    by (auto simp: removeDevice_sync registry_of_erase [OF wf] split: if_splits dest!: syncStorage_spec
        intro!: remove_unknown remove)
  show "addDevice E k w = Some (r, w') \<Longrightarrow> registry_spec E (AddDevice k) (registry_of w) r (registry_of w')"
    by (auto simp: addDevice_sync btCall_def Let_def split: sum.splits if_splits dest!: syncStorage_spec
        intro!: add_invalid add_unknown add)
qed

lemma dm_step_refines:
  assumes "registry_inv w" "dm_enabled E op w" "dm_step E op w = Some (r, w')"
  shows "registry_spec E op (registry_of w) r (registry_of w')"
  using assms
proof (cases op)
  case (Init srv)
  with assms have up: "service w' \<longleftrightarrow> r = ERROR_NONE" and ini: "init E srv w = Some (r, w')"
    using init_inv [of w E srv r w'] by simp_all
  show ?thesis
  proof (cases srv)
    case True
    with up Init show ?thesis by (cases "r = ERROR_NONE") (auto intro: init_done init_failed)
  next
    case False
    with ini Init show ?thesis by (auto simp: init_def intro: init_null)
  qed
next
  case Deinit
  with assms(3) have "r = ERROR_NONE" "registry_of w' = (registry_of w)\<lparr>reg_up := False\<rparr>"
    by (cases "service w"; auto simp: deinit_def releaseService_def registry_of_def)+
  with Deinit show ?thesis by (auto intro: registry_spec.deinit)
next
  case PerformMigration
  then show ?thesis
    using performMigration_fields [of E w r w'] assms(3)
    by (cases "r = ERROR_NONE") (auto intro: migrate_failed migrate_done)
qed (auto intro: mutators_spec clearMigration_spec elim!: bind_SomeE)

subsection \<open>Runs of the registry\<close>

definition registry_step :: "env \<Rightarrow> dm_op \<Rightarrow> dmgr \<Rightarrow> dmgr option" where
  "registry_step E op w = map_option snd (dm_step E op w)"

interpretation registry: simulation "dm_enabled E" "registry_step E" registry_inv registry_of
    "\<lambda>op a a'. \<exists>r. registry_spec E op a r a'" for E
proof unfold_locales
  fix s :: dmgr and op s'
  assume "registry_inv s" "dm_enabled E op s" "registry_step E op s = Some s'"
  then show "registry_inv s'" by (auto simp: registry_step_def intro: dm_step_inv)
next
  fix s :: dmgr and op s'
  assume "registry_inv s" "dm_enabled E op s" "registry_step E op s = Some s'"
  then show "\<exists>r. registry_spec E op (registry_of s) r (registry_of s')"
    by (auto simp: registry_step_def intro: dm_step_refines)
qed

definition dmgr0 :: "files \<Rightarrow> dmgr" where
  "dmgr0 f = \<lparr>trace = [], files = f, service = False, pairedDeviceCache = [], isMigrated = False\<rparr>"

lemma registry_inv_dmgr0 [simp]: "registry_inv (dmgr0 f)"
  by (simp add: registry_inv_def dmgr0_def)

end
