(* ===== verification/MigrationCorrect.thy ===== *)
theory MigrationCorrect
  imports RegistrySpec
begin

section \<open>Migration is safe\<close>

text \<open>
  What \<open>performMigration\<close> does to the store and the file at every moment of its run, what
  it imports, and what a restart finds.
\<close>

subsection \<open>The phases of \<open>performMigration\<close>\<close>

abbreviation "DEVICE_INFO \<equiv> PERSISTENT_STORE_KEY_DEVICE_INFO"
abbreviation "MARKER \<equiv> PERSISTENT_STORE_KEY_MIGRATION_VERSION"

lemma keys_neq [simp]: "DEVICE_INFO \<noteq> MARKER" "MARKER \<noteq> DEVICE_INFO"
  by (simp_all add: PERSISTENT_STORE_KEY_DEVICE_INFO_def PERSISTENT_STORE_KEY_MIGRATION_VERSION_def)

definition migrated_marker :: "trace \<Rightarrow> bool" where
  "migrated_marker tr \<longleftrightarrow> store_contents tr MARKER = Some BLUETOOTH_MIGRATION_VERSION"

text \<open>Events of the import: nothing is written to the store or the AS file.\<close>

definition import_event :: "string \<Rightarrow> ext_event \<Rightarrow> bool" where
  "import_event p ev \<longleftrightarrow> \<not> store_write ev \<and> \<not> touches p ev"

lemma store_io_import: "store_io key ev \<Longrightarrow> \<not> store_write ev \<Longrightarrow> \<not> is_fs ev \<Longrightarrow> import_event p ev"
  by (auto simp: store_io_def import_event_def touches_def is_fs_def split: ext_event.splits)

lemma evolves_emit_import: "import_event p e \<Longrightarrow> \<not> is_fs e \<Longrightarrow> evolves (import_event p) w (emit e w)"
  by (rule evolves_emit)

lemma import_simps [simp]:
  "import_event p (EvStoreAcquire ok)" "import_event p EvStoreRelease" "import_event p (EvStoreGet k r)"
  "import_event p (EvBT c rc)" "import_event p EvShellAddRef" "import_event p EvShellRelease"
  by (simp_all add: import_event_def store_write_def touches_def)

lemma quiet_import: "quiet p ev \<Longrightarrow> import_event p ev"
  by (auto simp: quiet_def import_event_def)

lemma readVersion_import:
  "readMigrationVersionFromStorage E w = (r, v, w') \<Longrightarrow> evolves (import_event p) w w'"
  by (erule readVersion_cases)
    (auto simp: storeRelease_def intro!: io_evolves [OF io_emit] io_emit)

lemma btCall_import: "btCall E c w = (rc, w') \<Longrightarrow> evolves (import_event p) w w'"
  by (auto dest: btCall_io [where P = "import_event p"] intro: io_evolves)

lemma evolves_cache [simp]: "evolves P w (w'\<lparr>pairedDeviceCache := c\<rparr>) \<longleftrightarrow> evolves P w w'"
  "evolves P w (w'\<lparr>isMigrated := b\<rparr>) \<longleftrightarrow> evolves P w w'"
  "evolves P w (w'\<lparr>service := b\<rparr>) \<longleftrightarrow> evolves P w w'"
  by (simp_all add: evolves_def ledger_def)

lemma importFile_import:
  "writeCacheFromFilesystemPersistence E raw w = (r, w') \<Longrightarrow> evolves (import_event p) w w'"
  by (auto simp: writeCacheFromFilesystemPersistence_def Let_def split: if_splits prod.splits
      dest: btCall_import)

lemma updateCacheFromDevice_import:
  "updateCacheFromDevice E b w = (r, w') \<Longrightarrow> evolves (import_event p) w w'"
  by (auto simp: updateCacheFromDevice_def Let_def split: if_splits prod.splits dest: btCall_import)

lemma importCache_import:
  assumes "importCache E w = (r, w')"
  shows "evolves (import_event p) w w'"
proof -
  obtain rr raw w1 where rd: "ReadRaw E '''' w = (rr, raw, w1)" by (metis prod_cases3)
  obtain ir w2 where im: "writeCacheFromFilesystemPersistence E raw w1 = (ir, w2)" by fastforce
  have "evolves (import_event p) w w1"
    using evolves_mono [OF io_evolves [OF ReadRaw_quiet [OF rd, of p]]] quiet_import by blast
  with assms rd im importFile_import [OF im, of p] updateCacheFromDevice_import [of E True w2 r w' p]
  show ?thesis by (auto simp: importCache_def Let_def split: if_splits intro: evolves_trans)
qed

text \<open>
  The run of a migration that gets as far as writing the store: import, then the device
  info, then the marker.
\<close>

lemma performMigration_phases:
  assumes "performMigration E w = Some (r, w')"
  obtains (early) "\<And>p. evolves (import_event p) w w'"
    "r = ERROR_NONE \<Longrightarrow> e_storeGet E (trace w @ [EvStoreAcquire True]) MARKER = (ERROR_NONE, BLUETOOTH_MIGRATION_VERSION)"
  | (wrote) w2 wr w3 xr w4 where "importCache E (snd (snd (readMigrationVersionFromStorage E w))) = (ERROR_NONE, w2)"
      "\<And>p. evolves (import_event p) w w2" "isMigrated w2 = isMigrated w"
      "writeStorageFromCache E w2 = Some (wr, w3)"
      "writeMigrationVersionToStorage E w3 = (xr, w4)"
      "(wr \<noteq> ERROR_NONE \<and> r = wr \<and> w' = w3) \<or> (wr = ERROR_NONE \<and> xr \<noteq> ERROR_NONE \<and> r = xr \<and> w' = w4) \<or>
         (wr = ERROR_NONE \<and> xr = ERROR_NONE \<and> r = ERROR_NONE \<and> w' = w4\<lparr>isMigrated := True\<rparr>)"
proof -
  obtain vr v w1 where rd: "readMigrationVersionFromStorage E w = (vr, v, w1)" by (metis prod_cases3)
  obtain ir w2 where im: "importCache E w1 = (ir, w2)" by fastforce
  have e1: "evolves (import_event p) w w1" for p by (rule readVersion_import [OF rd])
  have e2: "evolves (import_event p) w w2" for p
    using e1 importCache_import [OF im] by (rule evolves_trans)
  have m2: "isMigrated w2 = isMigrated w"
    using importCache_fields [OF im] io_fields [OF readVersion_io [OF rd]] by simp
  have got: "vr = ERROR_NONE \<Longrightarrow> v = BLUETOOTH_MIGRATION_VERSION \<Longrightarrow>
      e_storeGet E (trace w @ [EvStoreAcquire True]) MARKER = (ERROR_NONE, BLUETOOTH_MIGRATION_VERSION)"
    using rd by (elim readVersion_cases) auto
  from assms rd im consider
      "vr \<noteq> ERROR_NONE" "r = vr" "w' = w1"
    | "vr = ERROR_NONE" "v = BLUETOOTH_MIGRATION_VERSION" "w' = w1\<lparr>isMigrated := True\<rparr>"
    | "ir \<noteq> ERROR_NONE" "r = ir" "w' = w2"
    | wr w3 xr w4 where "ir = ERROR_NONE" "writeStorageFromCache E w2 = Some (wr, w3)"
        "writeMigrationVersionToStorage E w3 = (xr, w4)"
        "(wr \<noteq> ERROR_NONE \<and> r = wr \<and> w' = w3) \<or> (wr = ERROR_NONE \<and> xr \<noteq> ERROR_NONE \<and> r = xr \<and> w' = w4) \<or>
         (wr = ERROR_NONE \<and> xr = ERROR_NONE \<and> r = ERROR_NONE \<and> w' = w4\<lparr>isMigrated := True\<rparr>)"
    by (fastforce simp: performMigration_def Let_def split: if_splits prod.splits elim!: bind_SomeE)
  then show ?thesis
  proof cases
    case 4
    then show ?thesis using wrote [of w2 wr w3 xr w4] im rd e2 m2 by simp
  qed (use early e1 e2 got in auto)
qed

subsection \<open>The marker is written last\<close>

lemma store_io_other: "store_io key ev \<Longrightarrow> k \<noteq> key \<Longrightarrow> \<not> writes_key k ev"
  by (auto simp: store_io_def writes_key_def is_fs_def split: ext_event.splits)

lemma import_no_write: "import_event p ev \<Longrightarrow> \<not> writes_key k ev"
  by (auto simp: import_event_def dest: writes_key_write)

lemma no_marker_yet:
  "\<not> migrated_marker (trace w) \<Longrightarrow> \<forall>ev \<in> set es. \<not> writes_key MARKER ev \<Longrightarrow> \<not> migrated_marker (trace w @ es)"
  using store_contents_other [of es MARKER "trace w"] by (simp add: migrated_marker_def)

text \<open>A prefix of the history in which the marker is written reaches past the store write.\<close>

lemma prefix_past_store:
  assumes "done @ rest = xs @ us" "\<forall>ev \<in> set xs. \<not> writes_key MARKER ev" "\<exists>ev \<in> set done. writes_key MARKER ev"
  obtains zs where "done = xs @ zs" "us = zs @ rest"
proof -
  from assms(1) consider zs where "xs = done @ zs" | zs where "done = xs @ zs" "us = zs @ rest"
    using prefix_of_append by blast
  then show thesis
  proof cases
    case 1
    with assms(2,3) show thesis by auto
  next
    case 2
    with that show thesis by blast
  qed
qed

lemma performMigration_prefix:
  assumes ret: "performMigration E w = Some (r, w')"
    and hist: "trace w' = trace w @ done @ rest"
    and before: "\<not> migrated_marker (trace w)" and now: "migrated_marker (trace w @ done)"
  shows "store_contents (trace w @ done) DEVICE_INFO = Some (storedPayload E (pairedDeviceCache w'))"
proof -
  have marked: "\<exists>ev \<in> set done. writes_key MARKER ev" using no_marker_yet [OF before, of "done"] now by blast
  show ?thesis
    using ret
  proof (cases rule: performMigration_phases)
    case early
    from early(1) have "\<forall>ev \<in> set (done @ rest). import_event '''' ev"
      using hist by (metis evolves_trace same_append_eq)
    then have False using marked import_no_write by fastforce
    then show ?thesis ..
  next
    case (wrote w2 wr w3 xr w4)
    note io3 = writeStorage_io [OF wrote(4)] and io4 = writeVersion_io [OF wrote(5)]
    obtain es2 where t2: "trace w2 = trace w @ es2" "\<forall>ev \<in> set es2. import_event '''' ev"
      using evolves_trace [OF wrote(2)] by blast
    obtain es3 where t3: "trace w3 = trace w2 @ es3" "\<forall>ev \<in> set es3. store_io DEVICE_INFO ev"
      using evolves_trace [OF io_evolves [OF io3]] by blast
    obtain es4 where t4: "trace w4 = trace w3 @ es4" "\<forall>ev \<in> set es4. store_io MARKER ev"
      using evolves_trace [OF io_evolves [OF io4]] by blast
    have nm: "\<forall>ev \<in> set (es2 @ es3). \<not> writes_key MARKER ev"
      using t2(2) t3(2) import_no_write store_io_other by fastforce
    have "wr = ERROR_NONE"
    proof (rule ccontr)
      assume "wr \<noteq> ERROR_NONE"
      then have "done @ rest = es2 @ es3" using wrote(6) hist t2(1) t3(1) by auto
      then show False using nm marked by (metis Un_iff set_append)
    qed
    moreover from this have "trace w' = trace w4" using wrote(6) by auto
    then have "done @ rest = (es2 @ es3) @ es4" using hist t2(1) t3(1) t4(1) by simp
    then obtain zs where zs: "done = (es2 @ es3) @ zs" "es4 = zs @ rest"
      using nm marked by (rule prefix_past_store)
    then have "\<forall>ev \<in> set zs. \<not> writes_key DEVICE_INFO ev" using t4(2) store_io_other by fastforce
    then have "store_contents (trace w3 @ zs) DEVICE_INFO = store_contents (trace w3) DEVICE_INFO"
      by (rule store_contents_other)
    moreover have "trace w @ done = trace w3 @ zs" using zs t2(1) t3(1) by simp
    moreover have "pairedDeviceCache w' = pairedDeviceCache w2"
      using wrote(6) io_fields(2) [OF io3] io_fields(2) [OF io4] by auto
    ultimately show ?thesis using writeStorage_contents [OF wrote(4)] by simp
  qed
qed

subsection \<open>What a migration leaves alone\<close>

lemma writeVersion_contents:
  assumes "writeMigrationVersionToStorage E w = (r, w')"
  shows "store_contents (trace w') = (if r = ERROR_NONE
    then (store_contents (trace w))(MARKER := Some BLUETOOTH_MIGRATION_VERSION) else store_contents (trace w))"
  using assms
proof (cases rule: writeVersion_cases)
  case refused
  then show ?thesis by (auto simp: store_step_def)
next
  case written
  then show ?thesis unfolding written(2) storeRelease_def emit_simps store_contents_snoc
    by (simp add: store_step_def)
qed

lemma writeVersion_files: "writeMigrationVersionToStorage E w = (r, w') \<Longrightarrow> files w' = files w"
  by (erule writeVersion_cases) (auto simp: storeRelease_def)

lemma performMigration_store:
  assumes "performMigration E w = Some (r, w')"
  shows "if r = ERROR_NONE
    then store_contents (trace w') = store_contents (trace w) \<or>
      store_contents (trace w') = (store_contents (trace w))
        (DEVICE_INFO := Some (storedPayload E (pairedDeviceCache w')), MARKER := Some BLUETOOTH_MIGRATION_VERSION)
    else store_contents (trace w') MARKER = store_contents (trace w) MARKER"
  using assms
proof (cases rule: performMigration_phases)
  case early
  have "store_contents (trace w') = store_contents (trace w)"
    using early(1) [of "''''"] by (rule evolves_store) (simp add: import_event_def)
  then show ?thesis by simp
next
  case (wrote w2 wr w3 xr w4)
  have s2: "store_contents (trace w2) = store_contents (trace w)"
    using wrote(2) [of "''''"] by (rule evolves_store) (simp add: import_event_def)
  note s3 = writeStorage_contents [OF wrote(4)] and s4 = writeVersion_contents [OF wrote(5)]
  have "pairedDeviceCache w' = pairedDeviceCache w2"
    using wrote(6) io_fields(2) [OF writeStorage_io [OF wrote(4)]] io_fields(2) [OF writeVersion_io [OF wrote(5)]]
    by auto
  with wrote(6) s2 s3 s4 show ?thesis by auto
qed

lemma performMigration_file:
  assumes "performMigration E w = Some (r, w')" "\<not> isMigrated w"
  shows "files w' (e_path E) = files w (e_path E)"
  using assms(1)
proof (cases rule: performMigration_phases)
  case early
  show ?thesis using early(1) [of "e_path E"] by (rule evolves_untouched) (simp add: import_event_def)
next
  case (wrote w2 wr w3 xr w4)
  have "files w2 (e_path E) = files w (e_path E)"
    using wrote(2) [of "e_path E"] by (rule evolves_untouched) (simp add: import_event_def)
  moreover have "files w3 = files w2" using writeStorage_file [OF wrote(4)] wrote(3) assms(2) by simp
  moreover have "files w4 = files w3" using writeVersion_files [OF wrote(5)] .
  ultimately show ?thesis using wrote(6) by auto
qed

text \<open>A migration that succeeded makes the next one a no-op on the store.\<close>

lemma performMigration_again:
  assumes f: "store_faithful E" and m: "migrated_marker (trace w)"
    and ret: "performMigration E w = Some (r, w')"
  shows "(r = ERROR_NONE \<longleftrightarrow> service w \<and> e_storeUp E (trace w)) \<and>
    pairedDeviceCache w' = pairedDeviceCache w \<and> store_contents (trace w') = store_contents (trace w) \<and>
    (r = ERROR_NONE \<longrightarrow> isMigrated w')"
proof -
  have "store_contents (trace w @ [EvStoreAcquire True]) MARKER = Some BLUETOOTH_MIGRATION_VERSION"
    using m by (simp add: migrated_marker_def store_step_def)
  then have g: "e_storeGet E (trace w @ [EvStoreAcquire True]) MARKER = (ERROR_NONE, BLUETOOTH_MIGRATION_VERSION)"
    using f by (simp add: faithful_Some)
  let ?w1 = "storeRelease (emit (EvStoreGet MARKER ERROR_NONE) (emit (EvStoreAcquire True) w))"
  show ?thesis
  proof (cases "service w \<and> e_storeUp E (trace w)")
    case True
    then have "readMigrationVersionFromStorage E w = (ERROR_NONE, BLUETOOTH_MIGRATION_VERSION, ?w1)"
      using g by (simp add: readMigrationVersionFromStorage_def storeAcquire_def storeGetValue_def)
    then have "r = ERROR_NONE" "w' = ?w1\<lparr>isMigrated := True\<rparr>"
      using ret by (simp_all add: performMigration_def Let_def)
    with True show ?thesis by (simp add: storeRelease_def store_step_def store_contents_append)
  next
    case False
    define w1 where "w1 = (if service w then emit (EvStoreAcquire False) w else w)"
    have "readMigrationVersionFromStorage E w = (ERROR_GENERAL, '''', w1)"
      using False by (auto simp: readMigrationVersionFromStorage_def storeAcquire_def w1_def)
    then have "r = ERROR_GENERAL" "w' = w1"
      using ret by (simp_all add: performMigration_def missingFromPersistentStore_def Let_def)
    with False show ?thesis by (auto simp: w1_def store_step_def)
  qed
qed

subsection \<open>What is imported\<close>

lemma addrToDeviceId_dom:
  "um_find (addrToDeviceId ds m) a \<noteq> None \<longleftrightarrow>
   um_find m a \<noteq> None \<or> (a \<noteq> '''' \<and> a \<in> m_deviceAddress ` set ds)"
  by (induction ds m rule: addrToDeviceId.induct) auto

lemma importDevices_dom:
  "um_find (importDevices m infos c) k \<noteq> None \<longleftrightarrow>
   um_find c k \<noteq> None \<or> (\<exists>info \<in> set infos. um_find m (deviceAddr info) = Some k)"
  by (induction m infos c rule: importDevices.induct) (auto split: option.splits)

text \<open>
  The cache after the import of a file: exactly the devices of the file that BTRMGR has
  paired (by address), each with the record read from the file.
\<close>

lemma importFile_result:
  assumes "writeCacheFromFilesystemPersistence E raw w = (ERROR_NONE, w')" "raw \<noteq> ''''"
  obtains infos where "Parse E raw [] = (ERROR_NONE, infos)"
    "pairedDeviceCache w' = importDevices (addrToDeviceId (e_paired E (trace w)) []) infos []"
proof -
  obtain r infos where "Parse E raw [] = (r, infos)" by fastforce
  with assms that [of infos] show ?thesis
    by (auto simp: writeCacheFromFilesystemPersistence_def btCall_def Let_def split: if_splits)
qed

lemma import_sound:
  assumes "um_find (importDevices (addrToDeviceId ds []) infos []) k = Some info"
  shows "info \<in> set infos \<and> (\<exists>d \<in> set ds. m_deviceAddress d = deviceAddr info \<and> deviceId d = k)"
  using importDevices_find [OF assms] addrToDeviceId_ran [of ds "[]"] by auto

lemma import_complete:
  assumes "info \<in> set infos" "deviceAddr info \<noteq> ''''" "deviceAddr info \<in> m_deviceAddress ` set ds"
  shows "\<exists>d \<in> set ds. m_deviceAddress d = deviceAddr info \<and>
    um_find (importDevices (addrToDeviceId ds []) infos []) (deviceId d) \<noteq> None"
proof -
  obtain k where k: "um_find (addrToDeviceId ds []) (deviceAddr info) = Some k"
    using addrToDeviceId_dom [of ds "[]" "deviceAddr info"] assms(2,3) by auto
  then have "um_find (importDevices (addrToDeviceId ds []) infos []) k \<noteq> None"
    using importDevices_dom [of "addrToDeviceId ds []" infos "[]" k] assms(1) by auto
  with addrToDeviceId_ran [OF k] show ?thesis by auto
qed

text \<open>What enrichment and import keep of a record read from the file.\<close>

definition same_settings :: "BluetoothDeviceInfo \<Rightarrow> BluetoothDeviceInfo \<Rightarrow> bool" where
  "same_settings i j \<longleftrightarrow> autoConnectStatus i = autoConnectStatus j \<and>
     lastVolumeSetting i = lastVolumeSetting j \<and> lastConnectTimeUtc i = lastConnectTimeUtc j \<and>
     (deviceAddr j \<noteq> '''' \<longrightarrow> deviceAddr i = deviceAddr j) \<and>
     (friendlyName j \<noteq> '''' \<longrightarrow> friendlyName i = friendlyName j) \<and>
     (deviceType j \<notin> {'''', ''UNKNOWN''} \<longrightarrow> deviceType i = deviceType j)"

lemma same_settings_refl [simp]: "same_settings i i"
  by (simp add: same_settings_def)

lemma same_settings_backfill: "same_settings i j \<Longrightarrow> same_settings (backfill E d i) j"
  by (auto simp: same_settings_def backfill_fields)

lemma backfill_merge_keeps:
  assumes "\<And>k i. um_find c k = Some i \<Longrightarrow> P k i" "\<And>k i d. P k i \<Longrightarrow> P k (backfill E (d :: paired_device) i)"
    "um_find (mergeDevices E True ds c) k = Some i"
  shows "P k i"
  using assms(1,3)
proof (induction ds arbitrary: c k i)
  case Nil
  then show ?case by simp
next
  case (Cons d ds)
  show ?case
  proof (rule Cons.IH [OF _ Cons.prems(2) [unfolded mergeDevices.simps]])
  qed (use Cons.prems(1) assms(2) in \<open>auto split: option.splits if_splits\<close>)
qed

text \<open>A truthful store without the marker does not report it.\<close>

lemma no_marker_read:
  assumes "store_faithful E" "\<not> migrated_marker (trace w)"
  shows "e_storeGet E (trace w @ [EvStoreAcquire True]) MARKER \<noteq> (ERROR_NONE, BLUETOOTH_MIGRATION_VERSION)"
proof
  assume g: "e_storeGet E (trace w @ [EvStoreAcquire True]) MARKER = (ERROR_NONE, BLUETOOTH_MIGRATION_VERSION)"
  have c: "store_contents (trace w @ [EvStoreAcquire True]) MARKER = store_contents (trace w) MARKER"
    by (simp add: store_step_def)
  show False
  proof (cases "store_contents (trace w) MARKER")
    case None
    then show False using faithful_None [OF assms(1) c [THEN trans]] g by (simp add: missingFromPersistentStore_def)
  next
    case (Some v)
    then show False using faithful_Some [OF assms(1) c [THEN trans]] g assms(2) by (simp add: migrated_marker_def)
  qed
qed

lemma import_step:
  assumes ret: "performMigration E w = Some (ERROR_NONE, w')"
    and "store_faithful E" "\<not> migrated_marker (trace w)"
  obtains w1 w2 where "evolves (import_event (e_path E)) w w1" "importCache E w1 = (ERROR_NONE, w2)"
    "pairedDeviceCache w' = pairedDeviceCache w2"
  using ret
proof (cases rule: performMigration_phases)
  case early
  have False using early(2) no_marker_read [OF assms(2,3)] by simp
  then show ?thesis ..
next
  case (wrote w2 wr w3 xr w4)
  have "evolves (import_event (e_path E)) w (snd (snd (readMigrationVersionFromStorage E w)))"
    by (rule readVersion_import [where r = "fst (readMigrationVersionFromStorage E w)"
        and v = "fst (snd (readMigrationVersionFromStorage E w))"]) simp
  moreover have "pairedDeviceCache w' = pairedDeviceCache w2"
    using wrote(6) io_fields(2) [OF writeStorage_io [OF wrote(4)]] io_fields(2) [OF writeVersion_io [OF wrote(5)]]
    by auto
  ultimately show ?thesis using that wrote(1) by blast
qed

lemma importCache_result:
  assumes imp: "importCache E w = (ERROR_NONE, w')" and nf: "no_faults E"
    and raw: "files w (e_path E) = Some raw" "raw \<noteq> ''''" and ds: "\<forall>tr. e_paired E tr = ds"
  obtains infos where "Parse E raw [] = (ERROR_NONE, infos)"
    "let c = importDevices (addrToDeviceId ds []) infos [] in
       pairedDeviceCache w' = (if c = [] then [] else mergeDevices E True ds c)"
proof -
  obtain rr content w1 where rd: "ReadRaw E '''' w = (rr, content, w1)" by (metis prod_cases3)
  obtain ir w2 where im: "writeCacheFromFilesystemPersistence E content w1 = (ir, w2)" by fastforce
  have "rr \<noteq> ERROR_NOT_EXIST" using ReadRaw_present [OF nf raw(1) rd] .
  with imp rd im have ok: "rr = ERROR_NONE" "ir = ERROR_NONE" by (auto simp: importCache_def Let_def split: if_splits)
  with ReadRaw_no_faults [OF nf raw(1) rd] have "content = raw" by simp
  with im ok raw(2) obtain infos where infos: "Parse E raw [] = (ERROR_NONE, infos)"
    "pairedDeviceCache w2 = importDevices (addrToDeviceId ds []) infos []"
    using importFile_result [of E raw w1 w2] ds by metis
  have "if pairedDeviceCache w2 \<noteq> [] then updateCacheFromDevice E True w2 = (ERROR_NONE, w') else w' = w2"
    using imp rd im ok by (simp add: importCache_def Let_def split: if_splits)
  with infos that [of infos] show ?thesis
    by (auto simp: updateCacheFromDevice_def btCall_def ds Let_def split: if_splits)
qed

text \<open>
  The devices a successful migration brings into the cache: those of the AS file whose
  address BTRMGR has paired, under the handle BTRMGR gives, with the settings of the file.
\<close>

lemma performMigration_imports:
  assumes ret: "performMigration E w = Some (ERROR_NONE, w')"
    and "store_faithful E" "\<not> migrated_marker (trace w)" "no_faults E"
    and raw: "files w (e_path E) = Some raw" "raw \<noteq> ''''" and ds: "\<forall>tr. e_paired E tr = ds"
  shows "\<exists>infos. Parse E raw [] = (ERROR_NONE, infos) \<and>
    (\<forall>k info. um_find (pairedDeviceCache w') k = Some info \<longrightarrow>
       (\<exists>i \<in> set infos. \<exists>d \<in> set ds. deviceId d = k \<and> m_deviceAddress d = deviceAddr i \<and> same_settings info i)) \<and>
    (\<forall>i \<in> set infos. deviceAddr i \<noteq> '''' \<and> deviceAddr i \<in> m_deviceAddress ` set ds \<longrightarrow>
       (\<exists>d \<in> set ds. m_deviceAddress d = deviceAddr i \<and> um_find (pairedDeviceCache w') (deviceId d) \<noteq> None))"
proof -
  from ret assms(2,3) obtain w1 w2 where ev: "evolves (import_event (e_path E)) w w1"
    and im: "importCache E w1 = (ERROR_NONE, w2)" and c': "pairedDeviceCache w' = pairedDeviceCache w2"
    by (rule import_step)
  have "files w1 (e_path E) = Some raw"
    using evolves_untouched [OF ev] raw(1) by (simp add: import_event_def)
  from im assms(4) this raw(2) ds obtain infos where infos: "Parse E raw [] = (ERROR_NONE, infos)"
    and c2: "let c = importDevices (addrToDeviceId ds []) infos [] in
       pairedDeviceCache w2 = (if c = [] then [] else mergeDevices E True ds c)"
    by (rule importCache_result)
  let ?c = "importDevices (addrToDeviceId ds []) infos []"
  let ?P = "\<lambda>k info. \<exists>i \<in> set infos. \<exists>d \<in> set ds. deviceId d = k \<and> m_deviceAddress d = deviceAddr i \<and> same_settings info i"
  have dom: "um_find (pairedDeviceCache w') k \<noteq> None \<longleftrightarrow> um_find ?c k \<noteq> None" for k
    using c' c2 mergeDevices_dom [of E True ds ?c k] by (auto simp: Let_def split: if_splits)
  have base: "um_find ?c k = Some i \<Longrightarrow> ?P k i" for k i
    using import_sound [of ds infos k i] same_settings_refl by blast
  have step: "?P k i \<Longrightarrow> ?P k (backfill E d i)" for k i and d :: paired_device
    by (blast intro: same_settings_backfill)
  have "?P k info" if "um_find (pairedDeviceCache w') k = Some info" for k info
  proof (rule backfill_merge_keeps [where P = ?P, OF base step])
    show "um_find (mergeDevices E True ds ?c) k = Some info"
      using that c' c2 by (auto simp: Let_def split: if_splits)
  qed
  moreover have "\<exists>d \<in> set ds. m_deviceAddress d = deviceAddr i \<and> um_find (pairedDeviceCache w') (deviceId d) \<noteq> None"
    if "i \<in> set infos" "deviceAddr i \<noteq> ''''" "deviceAddr i \<in> m_deviceAddress ` set ds" for i
    using import_complete [OF that] dom by blast
  ultimately show ?thesis using infos by blast
qed

text \<open>After a successful migration the marker is in the store.\<close>

lemma performMigration_marks:
  assumes ret: "performMigration E w = Some (ERROR_NONE, w')" and "store_faithful E"
  shows "migrated_marker (trace w')"
proof (cases "migrated_marker (trace w)")
  case True
  then show ?thesis using performMigration_store [OF ret] by (auto simp: migrated_marker_def)
next
  case False
  show ?thesis
    using ret
  proof (cases rule: performMigration_phases)
    case early
    have False using early(2) no_marker_read [OF assms(2) False] by simp
    then show ?thesis ..
  next
    case (wrote w2 wr w3 xr w4)
    then have "xr = ERROR_NONE" "trace w' = trace w4" by auto
    with writeVersion_contents [OF wrote(5)] show ?thesis by (simp add: migrated_marker_def)
  qed
qed

lemma performMigration_trace:
  assumes "performMigration E w = Some (r, w')"
  shows "\<exists>es. trace w' = trace w @ es"
  using assms
proof (cases rule: performMigration_phases)
  case early
  then show ?thesis using evolves_trace [of "import_event ''''" w w'] by blast
next
  case (wrote w2 wr w3 xr w4)
  obtain es2 es3 es4 where "trace w2 = trace w @ es2" "trace w3 = trace w2 @ es3" "trace w4 = trace w3 @ es4"
    using evolves_trace [OF wrote(2) [of "''''"]] evolves_trace [OF io_evolves [OF writeStorage_io [OF wrote(4)]]]
      evolves_trace [OF io_evolves [OF writeVersion_io [OF wrote(5)]]] by blast
  with wrote(6) show ?thesis by auto
qed

lemma performMigration_total:
  assumes "bounded_retries E B"
  shows "\<exists>r w'. performMigration E w = Some (r, w')"
proof -
  obtain vr v w1 where rd: "readMigrationVersionFromStorage E w = (vr, v, w1)" by (metis prod_cases3)
  obtain ir w2 where im: "importCache E w1 = (ir, w2)" by fastforce
  obtain wr w3 where ws: "writeStorageFromCache E w2 = Some (wr, w3)" using writeStorage_total [OF assms] by blast
  obtain xr w4 where wv: "writeMigrationVersionToStorage E w3 = (xr, w4)" by fastforce
  show ?thesis by (simp add: performMigration_def rd im ws wv Let_def)
qed

end
