(* ===== verification/RestartCorrect.thy ===== *)
theory RestartCorrect
  imports MigrationCorrect
begin

section \<open>What a restart finds\<close>

text \<open>
  A restart keeps the store and the files and loses the fields of the registry. What
  \<open>init\<close> rebuilds from the store, in both builds, and what the next change of the cache then
  does to the filesystem file.
\<close>

definition restart :: "'z dmgr_scheme \<Rightarrow> 'z dmgr_scheme" where
  "restart w = w\<lparr>service := False, pairedDeviceCache := [], isMigrated := False\<rparr>"

lemma restart_fields [simp]:
  "trace (restart w) = trace w" "files (restart w) = files w" "\<not> service (restart w)"
  "pairedDeviceCache (restart w) = []" "\<not> isMigrated (restart w)"
  by (simp_all add: restart_def)

text \<open>The array written to the store is read back.\<close>

definition stored_ok :: "env \<Rightarrow> device_cache \<Rightarrow> bool" where
  "stored_ok E c \<longleftrightarrow> e_parseArr E (storedPayload E c) = map storedEntry (e_order E c)"

definition loadedCache :: "env \<Rightarrow> string \<Rightarrow> device_cache" where
  "loadedCache E str = um_put_all (map (loadedEntry E) (e_parseArr E str)) []"

subsection \<open>The migration build\<close>

lemma updateCacheFromStorage_loads:
  assumes "store_faithful E" "e_storeUp E (trace w)" "service w"
    and str: "store_contents (trace w) DEVICE_INFO = Some str"
  shows "\<exists>w'. updateCacheFromStorage E w = (ERROR_NONE, w') \<and> pairedDeviceCache w' = loadedCache E str \<and>
    service w' \<and> isMigrated w' = isMigrated w \<and> files w' = files w \<and>
    store_contents (trace w') = store_contents (trace w)"
proof -
  have "e_storeGet E (trace w @ [EvStoreAcquire True]) DEVICE_INFO = (ERROR_NONE, str)"
    using assms(1) str by (simp add: faithful_Some store_step_def)
  then show ?thesis using assms(2,3)
    by (simp add: updateCacheFromStorage_def storeAcquire_def storeGetValue_def storeRelease_def
        loadedCache_def store_contents_append store_step_def)
qed

lemma readVersion_reads:
  assumes "store_faithful E" "e_storeUp E (trace w)" "service w" "migrated_marker (trace w)"
  shows "\<exists>w'. readMigrationVersionFromStorage E w = (ERROR_NONE, BLUETOOTH_MIGRATION_VERSION, w') \<and>
    service w' \<and> files w' = files w \<and> store_contents (trace w') = store_contents (trace w)"
proof -
  have "e_storeGet E (trace w @ [EvStoreAcquire True]) MARKER = (ERROR_NONE, BLUETOOTH_MIGRATION_VERSION)"
    using assms(1,4) by (simp add: faithful_Some store_step_def migrated_marker_def)
  then show ?thesis using assms(2,3)
    by (simp add: readMigrationVersionFromStorage_def storeAcquire_def storeGetValue_def storeRelease_def
        store_contents_append store_step_def)
qed

lemma init_migrated:
  assumes "e_migration E" "store_faithful E" "\<forall>tr. e_storeUp E tr"
    and m: "migrated_marker (trace w)" and str: "store_contents (trace w) DEVICE_INFO = Some str"
  shows "\<exists>w'. init E True w = Some (ERROR_NONE, w') \<and> service w' \<and> isMigrated w' \<and>
    pairedDeviceCache w' = loadedCache E str \<and> files w' = files w \<and>
    store_contents (trace w') = store_contents (trace w)"
proof -
  define w0 where "w0 = emit EvShellAddRef (w\<lparr>service := True\<rparr>)"
  have c0: "store_contents (trace w0) = store_contents (trace w)" "service w0" "files w0 = files w"
    by (simp_all add: w0_def store_step_def)
  then have "migrated_marker (trace w0)" using m by (simp add: migrated_marker_def)
  then obtain w1 where rd: "readMigrationVersionFromStorage E w0 = (ERROR_NONE, BLUETOOTH_MIGRATION_VERSION, w1)"
    and w1: "service w1" "files w1 = files w0" "store_contents (trace w1) = store_contents (trace w0)"
    using readVersion_reads [of E w0] assms(2,3) c0(2) by auto
  let ?v = "w1\<lparr>isMigrated := True\<rparr>"
  have "store_contents (trace ?v) DEVICE_INFO = Some str" using str w1(3) c0(1) by simp
  then obtain w2 where ld: "updateCacheFromStorage E ?v = (ERROR_NONE, w2)"
    and w2: "pairedDeviceCache w2 = loadedCache E str" "service w2" "isMigrated w2" "files w2 = files ?v"
      "store_contents (trace w2) = store_contents (trace ?v)"
    using updateCacheFromStorage_loads [of E ?v str] assms(2,3) w1(1) by auto
  have "init E True w = Some (ERROR_NONE, w2)"
    using assms(1) rd ld by (simp add: init_def initMigrationBuild_def storageFailed_def w0_def Let_def)
  with w1 w2 c0 show ?thesis by simp
qed

text \<open>The records the store gives back have no address.\<close>

lemma loadedEntry_addr [simp]: "deviceAddr (snd (loadedEntry E v)) = ''''"
  by (simp add: loadedEntry_def Let_def defaultDeviceInfo_def)

lemma put_all_values:
  "um_find (um_put_all kvs c) k = Some info \<Longrightarrow> info \<in> snd ` set kvs \<or> um_find c k = Some info"
  by (induction kvs c rule: um_put_all.induct) (auto split: if_splits)

lemma loadedCache_addr: "um_find (loadedCache E str) k = Some info \<Longrightarrow> deviceAddr info = ''''"
  unfolding loadedCache_def by (drule put_all_values) auto

lemma loadedCache_ok: "cache_ok (loadedCache E str)"
  unfolding loadedCache_def by (rule cache_ok_loaded)

definition no_addresses :: "device_cache \<Rightarrow> bool" where
  "no_addresses c \<longleftrightarrow> (\<forall>k info. um_find c k = Some info \<longrightarrow> deviceAddr info = '''')"

lemma no_addresses_put: "no_addresses c \<Longrightarrow> deviceAddr info = '''' \<Longrightarrow> no_addresses (um_put k info c)"
  by (simp add: no_addresses_def)

lemma writeEntries_no_addresses:
  "(\<forall>(k, info) \<in> set m. deviceAddr info = '''') \<Longrightarrow> writeEntries E ex m = []"
  by (induction E ex m rule: writeEntries.induct) auto

lemma writePayload_no_addresses:
  assumes "no_addresses c" "um_wf c" "iterates_all E"
  shows "writePayload E ex (filesystemSnapshot c) = e_printObj E [(''pairedDevices'', JArr [])]"
proof -
  have "\<forall>(k, info) \<in> set c. deviceAddr info = ''''"
    using assms(1,2) by (auto simp: no_addresses_def um_find_in)
  then have "\<forall>(k, info) \<in> set (e_order E (filesystemSnapshot c)). deviceAddr info = ''''"
    using iterates_perm(1) [OF assms(3)] by (auto simp: filesystemSnapshot_def)
  then show ?thesis by (simp add: writePayload_def writeEntries_no_addresses)
qed

lemma sync_no_addresses:
  fixes w :: "'z dmgr_scheme"
  assumes "no_addresses (pairedDeviceCache w)" "cache_ok (pairedDeviceCache w)" "iterates_all E" "no_faults E"
    and "e_migration E" "isMigrated w" "writeStorageFromCache E w = Some (ERROR_NONE, w')"
  shows "files w' (e_path E) = Some (e_printObj E [(''pairedDevices'', JArr [])])"
proof -
  have "file_synced E (pairedDeviceCache w) w w'" using writeStorage_file [OF assms(7)] assms(5,6) by simp
  then obtain v r and v' :: "'z dmgr_scheme" where wr: "Write E (filesystemSnapshot (pairedDeviceCache w)) v = Some (r, v')"
    and f: "files w' = files v'" by (auto simp: file_synced_def)
  have "r = ERROR_NONE" using Write_succeeds [OF assms(4) wr] .
  with Write_files [OF wr] f show ?thesis
    using writePayload_no_addresses [OF assms(1) _ assms(3)] assms(2) by (simp add: cache_ok_def)
qed

subsection \<open>Autoconnect\<close>

lemma setAutoConnect_known:
  assumes "\<not> e_migration E \<or> isMigrated w" "um_find (pairedDeviceCache w) k = Some info"
    and "setAutoConnect E k b w = Some (r, w')"
  shows "writeStorageFromCache E (cachePut k (info\<lparr>autoConnectStatus := (if b then AUTO_CONNECT_STATUS_ENABLED
      else AUTO_CONNECT_STATUS_DISABLED)\<rparr>) w) = Some (r, w')"
  using assms by (auto simp: setAutoConnect_def getPairedDeviceInfo_def)

lemma setAutoConnect_get:
  assumes "setAutoConnect E k b w = Some (r, w')" "\<not> e_migration E \<or> isMigrated w"
    "um_find (pairedDeviceCache w) k = Some info"
  shows "getAutoConnect E k s w' = (ERROR_NONE, if b then AUTO_CONNECT_STATUS_ENABLED
      else AUTO_CONNECT_STATUS_DISABLED)"
  using io_fields [OF writeStorage_io [OF setAutoConnect_known [OF assms(2,3,1)]]] assms(2)
  by (auto simp: getAutoConnect_def getPairedDeviceInfo_def)

subsection \<open>The build without migration\<close>

lemma initPlain_result:
  assumes ret: "initPlainBuild E w = Some (ERROR_NONE, w')"
    and hyp: "iterates_all E" "cache_ok (pairedDeviceCache w)"
  obtains w1 w2 where "cache_ok (pairedDeviceCache w1)"
    "pairedDeviceCache w2 = scrub E (e_paired E (trace w1))
       (mergeDevices E False (e_paired E (trace w1)) (pairedDeviceCache w1))"
    "writeStorageFromCache E w2 = Some (ERROR_NONE, w')"
    "\<exists>sr. updateCacheFromStorage E w = (sr, w1)"
proof -
  obtain sr w1 where up: "updateCacheFromStorage E w = (sr, w1)" by fastforce
  obtain dr w2 where dv: "updateCacheFromDevice E False w1 = (dr, w2)" by fastforce
  from ret up dv have "dr = ERROR_NONE" and wr: "writeStorageFromCache E w2 = Some (ERROR_NONE, w')"
    by (auto simp: initPlainBuild_def storageFailed_def Let_def split: if_splits elim!: bind_SomeE)
  then have c2: "pairedDeviceCache w2 = scrub E (e_paired E (trace w1))
       (mergeDevices E False (e_paired E (trace w1)) (pairedDeviceCache w1))"
    using dv by (auto simp: updateCacheFromDevice_def btCall_def Let_def split: if_splits)
  have "cache_ok (pairedDeviceCache w1)"
    using up by (cases rule: updateCacheFromStorage_cases)
      (use hyp(2) in \<open>auto simp: storeRelease_def intro: cache_ok_loaded\<close>)
  with c2 wr up show ?thesis by (blast intro: that)
qed

text \<open>The migration build initialises a fresh registry with records that have no address.\<close>

lemma init_no_addresses:
  assumes "init E True (restart w) = Some (ERROR_NONE, w')" "isMigrated w'" "e_migration E"
  shows "no_addresses (pairedDeviceCache w') \<and> cache_ok (pairedDeviceCache w')"
proof -
  let ?w = "emit EvShellAddRef ((restart w)\<lparr>service := True\<rparr>)"
  obtain vr v w1 where rd: "readMigrationVersionFromStorage E ?w = (vr, v, w1)" by (metis prod_cases3)
  obtain sr w3 where up: "updateCacheFromStorage E (w1\<lparr>isMigrated := True\<rparr>) = (sr, w3)" by fastforce
  have "pairedDeviceCache w1 = []" using io_fields(2) [OF readVersion_io [OF rd]] by simp
  then have "no_addresses (pairedDeviceCache w3) \<and> cache_ok (pairedDeviceCache w3)"
    using up by (elim updateCacheFromStorage_cases)
      (auto simp: storeRelease_def no_addresses_def loadedCache_def [symmetric] loadedCache_addr
        loadedCache_ok)
  moreover have "w' = w3"
    using assms rd up by (auto simp: init_def initMigrationBuild_def storageFailed_def Let_def split: if_splits)
  ultimately show ?thesis by simp
qed

end
