(* ===== verification/SampleRuns.thy ===== *)
theory SampleRuns
  imports SampleEnv RestartCorrect
begin

section \<open>Runs on the concrete platform\<close>

text \<open>
  States of the registry on the platform of theory SampleEnv and what the operations do
  there: the concrete inputs of the witnesses.
\<close>

subsection \<open>States\<close>

text \<open>An AS file with the headphones and a device that is not paired.\<close>

definition asEntries :: "json list" where
  "asEntries = [JObj [(''deviceAddr'', JStr ''AA:01''), (''autoConnectStatus'', JBool True)],
     JObj [(''deviceAddr'', JStr ''FF:FF''), (''autoConnectStatus'', JBool True)]]"

definition asFile :: string where
  "asFile = e_printObj sampleEnv [(''pairedDevices'', JArr asEntries)]"

definition asFiles :: files where
  "asFiles = sampleFiles(e_path sampleEnv := Some asFile)"

text \<open>Before the migration, and a registry that holds the headphones, migrated.\<close>

definition unmigrated :: dmgr where
  "unmigrated = (dmgr0 asFiles)\<lparr>trace := [EvShellAddRef], service := True\<rparr>"

definition migrated :: dmgr where
  "migrated = \<lparr>trace = [EvShellAddRef, EvStoreSet DEVICE_INFO (storedPayload sampleEnv sampleCache) ERROR_NONE,
      EvStoreSet MARKER BLUETOOTH_MIGRATION_VERSION ERROR_NONE],
     files = asFiles, service = True, pairedDeviceCache = sampleCache, isMigrated = True\<rparr>"

lemma state_fields [simp]:
  "service unmigrated" "\<not> isMigrated unmigrated" "files unmigrated = asFiles"
  "pairedDeviceCache unmigrated = []" "trace unmigrated = [EvShellAddRef]"
  "service migrated" "isMigrated migrated" "files migrated = asFiles" "pairedDeviceCache migrated = sampleCache"
  by (simp_all add: unmigrated_def migrated_def dmgr0_def)

lemma unmigrated_contents [simp]: "store_contents [EvShellAddRef] k = None" "\<not> migrated_marker [EvShellAddRef]"
  by (simp_all add: store_contents_def store_step_def migrated_marker_def)

lemma migrated_contents [simp]:
  "store_contents (trace migrated) DEVICE_INFO = Some (storedPayload sampleEnv sampleCache)"
  "migrated_marker (trace migrated)"
  by (simp_all add: store_contents_def store_step_def migrated_def migrated_marker_def)

lemma asFile_parse [simp]:
  "Parse sampleEnv asFile [] = (ERROR_NONE, map (parseEntry sampleEnv) asEntries)"
  unfolding asFile_def by (simp add: Parse_def is_JArr_def)

lemma asFile_nonempty [simp]: "asFile \<noteq> ''''"
  by (simp add: asFile_def sampleEnv_def)

lemma asFiles_file [simp]: "asFiles ''/opt/bt.json'' = Some asFile"
  by (simp add: asFiles_def)

lemma sampleCache_ok [simp]: "cache_ok sampleCache"
  by (simp add: cache_ok_def sampleCache_def sampleInfo_def um_wf_def)

lemma migrated_inv [simp]: "registry_inv migrated" "registry_inv unmigrated"
  by (simp_all add: registry_inv_def) (simp_all add: migrated_def)

lemma sampleCache_find [simp]: "um_find sampleCache ''42'' = Some sampleInfo"
  by (simp add: sampleCache_def)

lemma sample_stored_ok [simp]: "stored_ok sampleEnv c"
  by (simp add: stored_ok_def storedPayload_def)

subsection \<open>Operations\<close>

lemma sample_writeStorage: "service w \<Longrightarrow> \<exists>w'. writeStorageFromCache sampleEnv w = Some (ERROR_NONE, w')"
proof -
  assume s: "service w"
  have wf: "\<exists>v'. writeFilesystemPersistenceFromCache sampleEnv v = Some v'" for v :: "'a dmgr_scheme"
    using Write_total [OF sample_retries, of "filesystemSnapshot (pairedDeviceCache v)" v]
    by (auto simp: writeFilesystemPersistenceFromCache_def)
  let ?w2 = "emit (EvStoreSet DEVICE_INFO (storedPayload sampleEnv (pairedDeviceCache w)) ERROR_NONE)
      (emit (EvStoreAcquire True) w)"
  obtain v' where "writeFilesystemPersistenceFromCache sampleEnv ?w2 = Some v'" using wf by blast
  with s show ?thesis
    by (simp add: writeStorageFromCache_def storeAcquire_def storeSetValue_def Let_def)
qed

lemma sample_writeVersion: "service w \<Longrightarrow> \<exists>w'. writeMigrationVersionToStorage sampleEnv w = (ERROR_NONE, w')"
  by (simp add: writeMigrationVersionToStorage_def storeAcquire_def storeSetValue_def)

lemma sample_readVersion: "service w \<Longrightarrow> store_contents (trace w) MARKER = None \<Longrightarrow>
    \<exists>v w'. readMigrationVersionFromStorage sampleEnv w = (ERROR_NOT_EXIST, v, w')"
  by (simp add: readMigrationVersionFromStorage_def storeAcquire_def storeGetValue_def sampleStoreGet_def
      store_step_def)

lemma sample_setAutoConnect:
  "isMigrated w \<Longrightarrow> service w \<Longrightarrow> um_find (pairedDeviceCache w) k = Some i \<Longrightarrow>
   \<exists>w'. setAutoConnect sampleEnv k b w = Some (ERROR_NONE, w')"
  by (simp add: setAutoConnect_def getPairedDeviceInfo_def sample_writeStorage)

lemma asFile_small: "int (length asFile) \<le> kMaxFilesystemPersistencePayloadBytes"
  by (simp add: asFile_def sampleEnv_def asEntries_def enc_str_length kMaxFilesystemPersistencePayloadBytes_def)

lemma sample_ReadRaw:
  "files w (e_path sampleEnv) = Some asFile \<Longrightarrow> \<exists>w'. ReadRaw sampleEnv c w = (ERROR_NONE, asFile, w')"
  using readPersistenceFile_no_faults [OF sample_no_faults, of w asFile] asFile_small
  by (cases "readPersistenceFile sampleEnv w") (simp add: ReadRaw_def)

lemma sample_importCache:
  assumes "files w (e_path sampleEnv) = Some asFile"
  shows "\<exists>w'. importCache sampleEnv w = (ERROR_NONE, w')"
proof -
  obtain w1 where rd: "ReadRaw sampleEnv '''' w = (ERROR_NONE, asFile, w1)"
    using sample_ReadRaw [OF assms] by blast
  obtain ir w2 where im: "writeCacheFromFilesystemPersistence sampleEnv asFile w1 = (ir, w2)" by fastforce
  then have "ir = ERROR_NONE"
    by (simp add: writeCacheFromFilesystemPersistence_def btCall_def Let_def)
  with rd im show ?thesis
    by (simp add: importCache_def updateCacheFromDevice_def btCall_def Let_def)
qed

lemma sample_performMigration: "\<exists>w'. performMigration sampleEnv unmigrated = Some (ERROR_NONE, w')"
proof -
  obtain v w1 where rd: "readMigrationVersionFromStorage sampleEnv unmigrated = (ERROR_NOT_EXIST, v, w1)"
    using sample_readVersion [of unmigrated] by auto
  note f1 = io_fields [OF readVersion_io [OF rd]]
  have "files w1 (e_path sampleEnv) = files unmigrated (e_path sampleEnv)"
    by (rule evolves_untouched [OF readVersion_import [OF rd, of "e_path sampleEnv"]]) (simp add: import_event_def)
  then have "files w1 (e_path sampleEnv) = Some asFile" by simp
  then obtain w2 where im: "importCache sampleEnv w1 = (ERROR_NONE, w2)" using sample_importCache by blast
  have s2: "service w2" using importCache_fields [OF im] f1 by simp
  obtain w3 where wr: "writeStorageFromCache sampleEnv w2 = Some (ERROR_NONE, w3)"
    using sample_writeStorage [OF s2] by blast
  have "service w3" using io_fields [OF writeStorage_io [OF wr]] s2 by simp
  then obtain w4 where wv: "writeMigrationVersionToStorage sampleEnv w3 = (ERROR_NONE, w4)"
    using sample_writeVersion by blast
  show ?thesis using rd im wr wv by (simp add: performMigration_def missingFromPersistentStore_def)
qed

lemma sample_initMigrated:
  assumes "migrated_marker (trace w)" "store_contents (trace w) DEVICE_INFO = Some str"
  shows "\<exists>w'. init sampleEnv True w = Some (ERROR_NONE, w') \<and> service w' \<and> isMigrated w' \<and>
    pairedDeviceCache w' = loadedCache sampleEnv str \<and> files w' = files w \<and>
    store_contents (trace w') = store_contents (trace w)"
  by (rule init_migrated) (simp_all add: assms)

text \<open>The platform of the build without migration.\<close>

definition plainEnv :: env where
  "plainEnv = sampleEnv\<lparr>e_migration := False\<rparr>"

subsection \<open>Writing into an empty directory\<close>

definition fresh :: dmgr where
  "fresh = dmgr0 sampleFiles"

lemma fresh_existing [simp]: "fst (readExistingEntries sampleEnv fresh) = []"
  by (simp add: readExistingEntries_def fsCall_def fresh_def dmgr0_def sampleFiles_def Let_def)

lemma sample_99: "to_string_ll 99 = ''99''"
  by code_simp

lemma sample_utc: "tryParseInt64 ''7'' = Some 7" "to_string_ll 7 = ''7''" "to_string_ll 0 = ''0''"
proof -
  show d: "to_string_ll 7 = ''7''" by code_simp
  show "to_string_ll 0 = ''0''" by code_simp
  have "is_ll 7" by (simp add: is_ll_def LLONG_MAX_def LLONG_MIN_def)
  from strtoll_to_string_ll [OF this] show "tryParseInt64 ''7'' = Some 7"
    by (simp add: d tryParseInt64_def Let_def)
qed

lemma sample_persisted: "persistedDevices sampleEnv [] sampleCache = [sampleInfo]"
  by (simp add: persistedDevices_def sampleCache_def sampleInfo_def persistedInfo_def writtenAuto_def
      writtenUtc_def defaultDeviceInfo_def sample_utc)

lemma sample_payload_small:
  "\<not> kMaxFilesystemPersistencePayloadBytes < int (length (writePayload sampleEnv [] sampleCache))"
  by (simp add: writePayload_def writeEntry_puts writtenAuto_def writtenUtc_def oldEntry_def sampleCache_def
      sampleInfo_def defaultDeviceInfo_def sample_utc um_put_def sampleEnv_def enc_str_length
      kMaxFilesystemPersistencePayloadBytes_def)

end
