(* ===== verification/Discovery.thy ===== *)
theory Discovery
  imports Migration
begin

section \<open>The plugin: state, adapter and discovery\<close>

text \<open>
  \<open>Bluetooth/Bluetooth.cpp\<close>, \<open>Bluetooth.h\<close>: the fields of class \<open>Bluetooth\<close> on top of those of
  the registry it contains, the status of the adapter, and the discovery state machine (the
  flag \<open>m_discoveryRunning\<close> and the timer that ends a scan). \<open>discoveryTimer\<close> is the delay
  the timer was scheduled with, None when it is not scheduled.
\<close>

record plugin = dmgr +
  discoveryRunning :: bool
  discoveryTimer :: "int option"
  powerManager :: bool
  instanceSet :: bool
  registeredMethods :: "string list"

definition STATUS_NO_BLUETOOTH_HARDWARE :: string where
  "STATUS_NO_BLUETOOTH_HARDWARE = ''NO_BLUETOOTH_HARDWARE''"
definition STATUS_SOFTWARE_DISABLED :: string where "STATUS_SOFTWARE_DISABLED = ''SOFTWARE_DISABLED''"
definition STATUS_AVAILABLE :: string where "STATUS_AVAILABLE = ''AVAILABLE''"

subsection \<open>The adapter\<close>

definition getStatusSupport :: "env \<Rightarrow> 'z plugin_scheme \<Rightarrow> string \<times> 'z plugin_scheme" where
  "getStatusSupport E w =
     (let numOfAdapters = e_numAdapters E (trace w); (rc, w1) = btCall E GetNumberOfAdapters w in
      if numOfAdapters \<noteq> 0 then
        let power_status = e_powerStatus E (trace w1); (rc, w2) = btCall E GetAdapterPowerStatus w1
        in (if power_status \<noteq> 0 then STATUS_AVAILABLE else STATUS_SOFTWARE_DISABLED, w2)
      else (STATUS_NO_BLUETOOTH_HARDWARE, w1))"

definition isAdapterDiscoverable :: "env \<Rightarrow> 'z plugin_scheme \<Rightarrow> bool \<times> 'z plugin_scheme" where
  "isAdapterDiscoverable E w =
     (let numOfAdapters = e_numAdapters E (trace w); (rc, w1) = btCall E GetNumberOfAdapters w in
      if numOfAdapters \<noteq> 0 then
        let adapter_discoverable = e_discoverable E (trace w1); (rc, w2) = btCall E IsAdapterDiscoverable w1
        in (rc = BTRMGR_RESULT_SUCCESS \<and> adapter_discoverable \<noteq> 0, w2)
      else (False, w1))"

definition setBluetoothEnabled :: "env \<Rightarrow> string \<Rightarrow> 'z plugin_scheme \<Rightarrow> bool \<times> 'z plugin_scheme" where
  "setBluetoothEnabled E enabled w =
     (if enabled = ''BLUETOOTH_DISABLED'' then
        let (rc, w1) = btCall E (SetAdapterPowerStatus False) w in (rc = BTRMGR_RESULT_SUCCESS, w1)
      else if enabled = ''BLUETOOTH_ENABLED'' then
        let (rc, w1) = btCall E (SetAdapterPowerStatus True) w in (rc = BTRMGR_RESULT_SUCCESS, w1)
      else (False, w))"

definition setBluetoothDiscoverable :: "env \<Rightarrow> bool \<Rightarrow> int \<Rightarrow> 'z plugin_scheme \<Rightarrow> bool \<times> 'z plugin_scheme" where
  "setBluetoothDiscoverable E enabled timeout w =
     (let (rc, w1) = btCall E (SetAdapterDiscoverable enabled timeout) w in (rc = BTRMGR_RESULT_SUCCESS, w1))"

definition setBluetoothProperties :: "env \<Rightarrow> json_object \<Rightarrow> 'z plugin_scheme \<Rightarrow> bool \<times> 'z plugin_scheme" where
  "setBluetoothProperties E parameters w =
     (if HasLabel parameters ''name'' then
        let name = e_getString E parameters ''name'' '''';
            (rc, w1) = btCall E (SetAdapterName (c_str name)) w
        in (rc = BTRMGR_RESULT_SUCCESS, w1)
      else (True, w))"

definition getBluetoothProperties :: "env \<Rightarrow> 'z plugin_scheme \<Rightarrow> bool \<times> json_object \<times> 'z plugin_scheme" where
  "getBluetoothProperties E w =
     (let adapterName = e_adapterName E (trace w); (rc, w1) = btCall E GetAdapterName w
      in (rc = BTRMGR_RESULT_SUCCESS, [(''name'', JStr adapterName)], w1))"

subsection \<open>Discovery\<close>

definition audioProfile :: "env \<Rightarrow> string \<Rightarrow> bool" where
  "audioProfile E p \<longleftrightarrow> e_contains E p ''LOUDSPEAKER'' \<or> e_contains E p ''HEADPHONES'' \<or>
     e_contains E p ''WEARABLE HEADSET'' \<or> e_contains E p ''HIFI AUDIO DEVICE''"

definition hidProfile :: "env \<Rightarrow> string \<Rightarrow> bool" where
  "hidProfile E p \<longleftrightarrow> e_contains E p ''KEYBOARD'' \<or> e_contains E p ''MOUSE'' \<or> e_contains E p ''JOYSTICK''"

definition inputProfile :: "env \<Rightarrow> string \<Rightarrow> bool" where
  "inputProfile E p \<longleftrightarrow> e_contains E p ''SMARTPHONE'' \<or> e_contains E p ''TABLET''"

definition leProfile :: "env \<Rightarrow> string \<Rightarrow> bool" where
  "leProfile E p \<longleftrightarrow> e_contains E p ''LE TILE'' \<or> e_contains E p ''LE''"

definition discoveryType :: "env \<Rightarrow> string \<Rightarrow> BTRMGR_DeviceOperationType" where
  "discoveryType E discProfile =
     (if audioProfile E discProfile \<and> hidProfile E discProfile then BTRMGR_DEVICE_OP_TYPE_AUDIO_AND_HID
      else if audioProfile E discProfile then BTRMGR_DEVICE_OP_TYPE_AUDIO_OUTPUT
      else if inputProfile E discProfile then BTRMGR_DEVICE_OP_TYPE_AUDIO_INPUT
      else if hidProfile E discProfile then BTRMGR_DEVICE_OP_TYPE_HID
      else if leProfile E discProfile then BTRMGR_DEVICE_OP_TYPE_LE
      else BTRMGR_DEVICE_OP_TYPE_UNKNOWN)"

definition stopDiscoveryTimer :: "'z plugin_scheme \<Rightarrow> 'z plugin_scheme" where
  "stopDiscoveryTimer w = (emit EvTimerRevoke w)\<lparr>discoveryTimer := None\<rparr>"

definition startDiscoveryTimer :: "int \<Rightarrow> 'z plugin_scheme \<Rightarrow> 'z plugin_scheme" where
  "startDiscoveryTimer msec w =
     (let w1 = stopDiscoveryTimer w in (emit (EvTimerSchedule msec) w1)\<lparr>discoveryTimer := Some msec\<rparr>)"

definition stopDeviceDiscovery :: "env \<Rightarrow> 'z plugin_scheme \<Rightarrow> bool \<times> 'z plugin_scheme" where
  "stopDeviceDiscovery E w =
     (if discoveryRunning w then
        let w1 = stopDiscoveryTimer w;
            (rc, w2) = btCall E (StopDeviceDiscovery BTRMGR_DEVICE_OP_TYPE_AUDIO_OUTPUT) w1
        in (rc = BTRMGR_RESULT_SUCCESS, w2\<lparr>discoveryRunning := False\<rparr>)
      else (False, w))"

text \<open>The product \<open>timeout * 1000\<close> in \<open>int\<close>: undefined when it overflows.\<close>

definition int_max :: int where "int_max = 2147483647"

definition milliseconds :: "env \<Rightarrow> int \<Rightarrow> int" where
  "milliseconds E timeout = (if timeout * 1000 \<le> int_max then timeout * 1000
     else e_intOverflow E (timeout * 1000))"

definition defaultProfile :: string where
  "defaultProfile = ''LOUDSPEAKER, HEADPHONES, WEARABLE HEADSET, HIFI AUDIO DEVICE, KEYBOARD, MOUSE, JOYSTICK''"

definition startDeviceDiscovery :: "env \<Rightarrow> int \<Rightarrow> string \<Rightarrow> 'z plugin_scheme \<Rightarrow> string \<times> 'z plugin_scheme" where
  "startDeviceDiscovery E timeout discProfile w =
     (if discoveryRunning w then (STATUS_AVAILABLE, w)
      else let numOfAdapters = e_numAdapters E (trace w); (rc, w1) = btCall E GetNumberOfAdapters w in
        if numOfAdapters \<noteq> 0 then
          let (rc, w2) = btCall E (StartDeviceDiscovery (discoveryType E discProfile)) w1;
              w3 = w2\<lparr>discoveryRunning := True\<rparr>
          in if timeout \<le> 0 then (STATUS_AVAILABLE, snd (stopDeviceDiscovery E w3))
             else (STATUS_AVAILABLE, startDiscoveryTimer (milliseconds E timeout) w3)
        else (STATUS_NO_BLUETOOTH_HARDWARE, w1))"

definition onDiscoveryTimer :: "env \<Rightarrow> 'z plugin_scheme \<Rightarrow> 'z plugin_scheme" where
  "onDiscoveryTimer E w = snd (stopDeviceDiscovery E w)"

text \<open>
  \<open>Timed\<close> is called when the delay has passed, the timer no longer being scheduled; it
  returns 0, so it is not scheduled again.
\<close>

definition Timed :: "env \<Rightarrow> 'z plugin_scheme \<Rightarrow> 'z plugin_scheme" where
  "Timed E w = onDiscoveryTimer E (w\<lparr>discoveryTimer := None\<rparr>)"

end
