(* ===== verification/Connections.thy ===== *)
theory Connections
  imports Discovery
begin

section \<open>The plugin: devices, connections, pairing\<close>

text \<open>
  The device lists, connecting and disconnecting by device type, pairing, and the calls that
  go straight to BTRMGR (\<open>Bluetooth/Bluetooth.cpp\<close>). A device id is a \<open>long long\<close> (an
  \<open>int\<close> here) that BTRMGR gets as an unsigned 64-bit handle.
\<close>

definition handle_of :: "int \<Rightarrow> handle" where
  "handle_of deviceID = word_of_int deviceID"

definition u32_string :: "32 word \<Rightarrow> string" where "u32_string n = nat_to_string (unat n)"
definition u16_string :: "16 word \<Rightarrow> string" where "u16_string n = nat_to_string (unat n)"
definition u8_string :: "8 word \<Rightarrow> string" where "u8_string n = nat_to_string (unat n)"

subsection \<open>Device lists\<close>

definition discoveredDetails :: "env \<Rightarrow> discovered_device \<Rightarrow> json_object" where
  "discoveredDetails E d =
     [(''deviceID'', JStr (deviceId d)), (''name'', JStr (m_name d)),
      (''deviceType'', JStr (typeName E (m_deviceType d))),
      (''connected'', JBool (dd_isConnected d)), (''paired'', JBool (dd_isPairedDevice d)),
      (''rawDeviceType'', JStr (u32_string (m_ui32DevClassBtSpec d))),
      (''rawBleDeviceType'', JStr (u16_string (m_ui16DevAppearanceBleSpec d)))]"

definition getDiscoveredDevices :: "env \<Rightarrow> 'z plugin_scheme \<Rightarrow> json list \<times> 'z plugin_scheme" where
  "getDiscoveredDevices E w =
     (let discoveredDevices = e_discovered E (trace w); (rc, w1) = btCall E GetDiscoveredDevices w
      in (if rc \<noteq> BTRMGR_RESULT_SUCCESS then []
          else map (\<lambda>d. JObj (discoveredDetails E d)) discoveredDevices, w1))"

text \<open>The fields taken from the registry: when the device is known, and known to be set.\<close>

definition registryDetails :: "env \<Rightarrow> string \<Rightarrow> 'z plugin_scheme \<Rightarrow> json_object" where
  "registryDetails E devId w =
     (case getLastConnectTimeUtc devId '''' w of
        (result, lastUtc) \<Rightarrow>
          if result = ERROR_NONE \<and> lastUtc \<noteq> '''' then [(''lastConnectTimeUtc'', JStr lastUtc)] else []) @
     (case getAutoConnect E devId AUTO_CONNECT_STATUS_UNSET w of
        (result, status) \<Rightarrow>
          if result = ERROR_NONE \<and> status \<noteq> AUTO_CONNECT_STATUS_UNSET
          then [(''autoconnect'', JBool (status = AUTO_CONNECT_STATUS_ENABLED))] else [])"

definition pairedFields :: "env \<Rightarrow> paired_device \<Rightarrow> json_object" where
  "pairedFields E d =
     [(''deviceID'', JStr (deviceId d)), (''name'', JStr (m_name d)),
      (''deviceType'', JStr (typeName E (m_deviceType d))),
      (''connected'', JBool (pd_isConnected d)),
      (''rawDeviceType'', JStr (u32_string (m_ui32DevClassBtSpec d))),
      (''rawBleDeviceType'', JStr (u16_string (m_ui16DevAppearanceBleSpec d)))]"

definition pairedDetails :: "env \<Rightarrow> 'z plugin_scheme \<Rightarrow> paired_device \<Rightarrow> json_object" where
  "pairedDetails E w d = pairedFields E d @ registryDetails E (deviceId d) w"

definition getPairedDevices :: "env \<Rightarrow> 'z plugin_scheme \<Rightarrow> json list \<times> 'z plugin_scheme" where
  "getPairedDevices E w =
     (let pairedDevices = e_paired E (trace w); (rc, w1) = btCall E GetPairedDevices w
      in (if rc \<noteq> BTRMGR_RESULT_SUCCESS then []
          else map (\<lambda>d. JObj (pairedDetails E w1 d)) pairedDevices, w1))"

definition connectedFields :: "env \<Rightarrow> connected_device \<Rightarrow> json_object" where
  "connectedFields E d =
     [(''deviceID'', JStr (deviceId d)), (''name'', JStr (m_name d)),
      (''deviceType'', JStr (typeName E (m_deviceType d))),
      (''activeState'', JStr (nat_to_string (cd_powerStatus d))),
      (''rawDeviceType'', JStr (u32_string (m_ui32DevClassBtSpec d))),
      (''rawBleDeviceType'', JStr (u16_string (m_ui16DevAppearanceBleSpec d)))]"

definition connectedDetails :: "env \<Rightarrow> 'z plugin_scheme \<Rightarrow> connected_device \<Rightarrow> json_object" where
  "connectedDetails E w d = connectedFields E d @ registryDetails E (deviceId d) w"

definition getConnectedDevices :: "env \<Rightarrow> 'z plugin_scheme \<Rightarrow> json list \<times> 'z plugin_scheme" where
  "getConnectedDevices E w =
     (let connectedDevices = e_connected E (trace w); (rc, w1) = btCall E GetConnectedDevices w
      in (if rc \<noteq> BTRMGR_RESULT_SUCCESS then []
          else map (\<lambda>d. JObj (connectedDetails E w1 d)) connectedDevices, w1))"

subsection \<open>Connecting and pairing\<close>

definition isHidType :: "env \<Rightarrow> string \<Rightarrow> bool" where
  "isHidType E t \<longleftrightarrow> e_equal E t HID \<or> hidProfile E t"

text \<open>The call that connects or disconnects a device of the given type.\<close>

definition connectionCall :: "env \<Rightarrow> handle \<Rightarrow> bool \<Rightarrow> string \<Rightarrow> bt_call" where
  "connectionCall E h connect dtype =
     (if e_equal E dtype ''LE TILE'' then
        (if connect then ConnectToDevice h BTRMGR_DEVICE_OP_TYPE_LE else DisconnectFromDevice h)
      else if isHidType E dtype then
        (if connect then ConnectToDevice h BTRMGR_DEVICE_OP_TYPE_HID else DisconnectFromDevice h)
      else if e_equal E dtype ''SMARTPHONE'' \<or> e_equal E dtype ''TABLET'' then
        (if connect then StartAudioStreamingIn h BTRMGR_DEVICE_OP_TYPE_AUDIO_INPUT else StopAudioStreamingIn h)
      else
        (if connect then StartAudioStreamingOut h BTRMGR_DEVICE_OP_TYPE_AUDIO_OUTPUT else StopAudioStreamingOut h))"

definition setDeviceConnection :: "env \<Rightarrow> int \<Rightarrow> bool \<Rightarrow> string \<Rightarrow> 'z plugin_scheme
    \<Rightarrow> (bool \<times> 'z plugin_scheme) option" where
  "setDeviceConnection E deviceID connect dtype w =
     (let h = handle_of deviceID; (rc, w1) = btCall E (connectionCall E h connect dtype) w in
      if rc = BTRMGR_RESULT_SUCCESS \<and> connect then
        do { w2 \<leftarrow> setLastConnectTimeUtc E (to_string_ull h) w1; Some (True, w2) }
      else Some (rc = BTRMGR_RESULT_SUCCESS, w1))"

definition setDevicePairing :: "env \<Rightarrow> int \<Rightarrow> bool \<Rightarrow> 'z plugin_scheme
    \<Rightarrow> (bool \<times> 'z plugin_scheme) option" where
  "setDevicePairing E deviceID pair w =
     (let h = handle_of deviceID; (rc, w1) = btCall E (if pair then PairDevice h else UnpairDevice h) w in
      if rc \<noteq> BTRMGR_RESULT_SUCCESS then Some (False, w1)
      else do {
        (result, w2) \<leftarrow> (if pair then addDevice E (to_string_ull h) w1
                        else removeDevice E (to_string_ull h) w1);
        Some (True, w2)
      })"

subsection \<open>Audio, volume, event responses, device information\<close>

definition setAudioStream :: "env \<Rightarrow> int \<Rightarrow> string \<Rightarrow> 'z plugin_scheme \<Rightarrow> bool \<times> 'z plugin_scheme" where
  "setAudioStream E deviceID audioStreamName w =
     (let streamOutPref = (if e_equal E audioStreamName ''PRIMARY'' then BTRMGR_STREAM_PRIMARY
            else if e_equal E audioStreamName ''AUXILIARY'' then BTRMGR_STREAM_AUXILIARY
            else BTRMGR_STREAM_PRIMARY);
          (rc, w1) = btCall E (SetAudioStreamingOutType streamOutPref) w
      in (rc = BTRMGR_RESULT_SUCCESS, w1))"

text \<open>The call of a playback command; RESTART fails without one, an unknown command succeeds without one.\<close>

definition audioControlCall :: "handle \<Rightarrow> string \<Rightarrow> bt_call option" where
  "audioControlCall h cmd =
     (if cmd = ''PLAY'' then Some (StartAudioStreamingIn h BTRMGR_DEVICE_OP_TYPE_AUDIO_INPUT)
      else if cmd = ''PAUSE'' then Some (MediaControl h BTRMGR_MEDIA_CTRL_PAUSE)
      else if cmd = ''RESUME'' then Some (MediaControl h BTRMGR_MEDIA_CTRL_PLAY)
      else if cmd = ''STOP'' then Some (MediaControl h BTRMGR_MEDIA_CTRL_STOP)
      else if cmd = ''SKIP_NEXT'' then Some (MediaControl h BTRMGR_MEDIA_CTRL_NEXT)
      else if cmd = ''SKIP_PREV'' then Some (MediaControl h BTRMGR_MEDIA_CTRL_PREVIOUS)
      else if cmd = ''RESTART'' then None
      else if cmd = ''AUDIO_MUTE'' then Some (MediaControl h BTRMGR_MEDIA_CTRL_MUTE)
      else if cmd = ''AUDIO_UNMUTE'' then Some (MediaControl h BTRMGR_MEDIA_CTRL_UNMUTE)
      else if cmd = ''VOLUME_UP'' then Some (MediaControl h BTRMGR_MEDIA_CTRL_VOLUMEUP)
      else if cmd = ''VOLUME_DOWN'' then Some (MediaControl h BTRMGR_MEDIA_CTRL_VOLUMEDOWN)
      else None)"

definition setAudioControlCommand :: "env \<Rightarrow> int \<Rightarrow> string \<Rightarrow> 'z plugin_scheme \<Rightarrow> bool \<times> 'z plugin_scheme" where
  "setAudioControlCommand E deviceID audioCtrlCmd w =
     (case audioControlCall (handle_of deviceID) audioCtrlCmd of
        Some c \<Rightarrow> (let (rc, w1) = btCall E c w in (rc = BTRMGR_RESULT_SUCCESS, w1))
      | None \<Rightarrow> (audioCtrlCmd \<noteq> ''RESTART'', w))"

definition btmgrDeviceOperationTypeFromString :: "env \<Rightarrow> string \<Rightarrow> BTRMGR_DeviceOperationType" where
  "btmgrDeviceOperationTypeFromString E deviceProfile =
     (if audioProfile E deviceProfile then BTRMGR_DEVICE_OP_TYPE_AUDIO_OUTPUT
      else if inputProfile E deviceProfile then BTRMGR_DEVICE_OP_TYPE_AUDIO_INPUT
      else if hidProfile E deviceProfile then BTRMGR_DEVICE_OP_TYPE_HID
      else if leProfile E deviceProfile then BTRMGR_DEVICE_OP_TYPE_LE
      else if e_contains E deviceProfile ''DEFAULT'' then BTRMGR_DEVICE_OP_TYPE_UNKNOWN
      else BTRMGR_DEVICE_OP_TYPE_AUDIO_OUTPUT)"

definition setDeviceVolumeMuteProperties :: "env \<Rightarrow> int \<Rightarrow> string \<Rightarrow> 8 word \<Rightarrow> 8 word \<Rightarrow> 'z plugin_scheme
    \<Rightarrow> bool \<times> 'z plugin_scheme" where
  "setDeviceVolumeMuteProperties E deviceID deviceProfile ui8volume mute w =
     (let (rc, w1) = btCall E (SetDeviceVolumeMute (handle_of deviceID)
            (btmgrDeviceOperationTypeFromString E deviceProfile) ui8volume mute) w
      in (rc = BTRMGR_RESULT_SUCCESS, w1))"

definition getDeviceVolumeMuteProperties :: "env \<Rightarrow> int \<Rightarrow> string \<Rightarrow> 'z plugin_scheme
    \<Rightarrow> json_object \<times> 'z plugin_scheme" where
  "getDeviceVolumeMuteProperties E deviceID deviceProfile w =
     (let h = handle_of deviceID; (vol, mute) = e_volumeMute E (trace w) h;
          (rc, w1) = btCall E (GetDeviceVolumeMute h (btmgrDeviceOperationTypeFromString E deviceProfile)) w
      in (if rc \<noteq> BTRMGR_RESULT_SUCCESS then []
          else [(''volume'', JStr (u8_string vol)), (''mute'', JBool (mute \<noteq> 0))], w1))"

definition EVT_PAIRING_REQUEST :: string where "EVT_PAIRING_REQUEST = ''onPairingRequest''"
definition EVT_CONNECTION_REQUEST :: string where "EVT_CONNECTION_REQUEST = ''onConnectionRequest''"
definition EVT_PLAYBACK_REQUEST :: string where "EVT_PLAYBACK_REQUEST = ''onPlaybackRequest''"

definition setEventResponse :: "env \<Rightarrow> int \<Rightarrow> string \<Rightarrow> string \<Rightarrow> 'z plugin_scheme \<Rightarrow> bool \<times> 'z plugin_scheme" where
  "setEventResponse E deviceID eventType respValue w =
     (let accepted = e_equal E respValue ''ACCEPTED'';
          c = (if eventType = EVT_PAIRING_REQUEST
                 then SetEventResponse (handle_of deviceID) RESP_EXTERNAL_PAIR_REQUEST accepted
               else if eventType = EVT_CONNECTION_REQUEST
                 then SetEventResponse (handle_of deviceID) RESP_EXTERNAL_CONNECT_REQUEST accepted
               else if eventType = EVT_PLAYBACK_REQUEST
                 then SetEventResponse (handle_of deviceID) RESP_EXTERNAL_PLAYBACK_REQUEST accepted
               else SetEventResponse (handle_of deviceID) RESP_EVENT_MAX False);
          (rc, w1) = btCall E c w
      in (rc = BTRMGR_RESULT_SUCCESS, w1))"

fun joinProfiles :: "string list \<Rightarrow> string" where
  "joinProfiles [] = ''''"
| "joinProfiles [p] = p"
| "joinProfiles (p # q # ps) = p @ '';'' @ joinProfiles (q # ps)"

definition getDeviceInfo :: "env \<Rightarrow> int \<Rightarrow> 'z plugin_scheme \<Rightarrow> json_object \<times> 'z plugin_scheme" where
  "getDeviceInfo E deviceID w =
     (let h = handle_of deviceID; p = e_devProps E (trace w) h;
          (rc, w1) = btCall E (GetDeviceProperties h) w
      in (if rc \<noteq> BTRMGR_RESULT_SUCCESS then []
          else [(''deviceID'', JStr (deviceId p)), (''name'', JStr (m_name p)),
            (''deviceType'', JStr (typeName E (m_deviceType p))),
            (''manufacturer'', JStr (u16_string (dp_vendorID p))),
            (''MAC'', JStr (m_deviceAddress p)),
            (''signalStrength'', JStr (to_string_ll (dp_signalLevel p))),
            (''rssi'', JStr (to_string_ll (dp_rssi p))),
            (''batteryLevel'', JStr (u8_string (dp_batteryLevel p))),
            (''modalias'', JStr (dp_modalias p)),
            (''firmwareRevision'', JStr (dp_firmwareRevision p)),
            (''supportedProfile'', JStr (joinProfiles (dp_profiles p)))], w1))"

definition trackDetails :: "media_track \<Rightarrow> json_object" where
  "trackDetails t =
     [(''album'', JStr (pcAlbum t)), (''genre'', JStr (pcGenre t)), (''title'', JStr (pcTitle t)),
      (''artist'', JStr (pcArtist t)), (''ui32Duration'', JStr (u32_string (ui32Duration t))),
      (''ui32TrackNumber'', JStr (u32_string (ui32TrackNumber t))),
      (''ui32NumberOfTracks'', JStr (u32_string (ui32NumberOfTracks t)))]"

definition getMediaTrackInfo :: "env \<Rightarrow> int \<Rightarrow> 'z plugin_scheme \<Rightarrow> json_object \<times> 'z plugin_scheme" where
  "getMediaTrackInfo E deviceID w =
     (let h = handle_of deviceID; t = e_mediaTrack E (trace w) h;
          (rc, w1) = btCall E (GetMediaTrackInfo h) w
      in (if rc \<noteq> BTRMGR_RESULT_SUCCESS then [] else trackDetails t, w1))"

subsection \<open>Devices that connected on their own\<close>

definition disconnectOne :: "env \<Rightarrow> json \<Rightarrow> 'z plugin_scheme \<Rightarrow> 'z plugin_scheme option" where
  "disconnectOne E v w =
     (let device = e_asObject E v;
          deviceID = e_asString E (json_at device ''deviceID'');
          dtype = e_asString E (json_at device ''deviceType'')
      in if HasLabel device ''autoconnect'' \<and> \<not> e_asBool E (json_at device ''autoconnect'') \<and> dtype \<noteq> HID then
           (case stoll deviceID of
              Inl e \<Rightarrow> Some w
            | Inr n \<Rightarrow> map_option snd (setDeviceConnection E n False dtype w))
         else Some w)"

fun disconnectAll :: "env \<Rightarrow> json list \<Rightarrow> 'z plugin_scheme \<Rightarrow> 'z plugin_scheme option" where
  "disconnectAll E [] w = Some w"
| "disconnectAll E (v # vs) w = do { w1 \<leftarrow> disconnectOne E v w; disconnectAll E vs w1 }"

definition disconnectExternallyConnectedDevices :: "env \<Rightarrow> 'z plugin_scheme \<Rightarrow> 'z plugin_scheme option" where
  "disconnectExternallyConnectedDevices E w =
     (let (connectedDevicesJson, w1) = getConnectedDevices E w in disconnectAll E connectedDevicesJson w1)"

end
