(* ===== verification/PowerMode.thy ===== *)
theory PowerMode
  imports Connections
begin

section \<open>The plugin: power mode changes\<close>

text \<open>
  \<open>onPowerModeChanged\<close> of \<open>Bluetooth/Bluetooth.cpp\<close>: which devices a transition disconnects,
  and when it switches Bluetooth on. It acts only in the migration build, once migrated.
\<close>

definition powerOffStates :: "PowerState list" where
  "powerOffStates = [POWER_STATE_OFF, POWER_STATE_STANDBY, POWER_STATE_STANDBY_LIGHT_SLEEP]"

text \<open>One iteration of the loop of \<open>ON --> OFF\<close>.\<close>

definition powerOffDevice :: "env \<Rightarrow> string \<times> BluetoothDeviceInfo \<Rightarrow> 'z plugin_scheme \<Rightarrow> 'z plugin_scheme option" where
  "powerOffDevice E entry w =
     (case entry of (deviceIdStr, info) \<Rightarrow>
        if deviceType info = HID then Some w
        else if autoConnectStatus info = AUTO_CONNECT_STATUS_DISABLED then
          (case stoll deviceIdStr of
             Inl e \<Rightarrow> Some w
           | Inr devId \<Rightarrow> map_option snd (setDeviceConnection E devId False (deviceType info) w))
        else Some w)"

text \<open>One iteration of the loop of \<open>X --> DEEP_SLEEP\<close>.\<close>

definition deepSleepDevice :: "env \<Rightarrow> string \<times> BluetoothDeviceInfo \<Rightarrow> 'z plugin_scheme \<Rightarrow> 'z plugin_scheme option" where
  "deepSleepDevice E entry w =
     (case entry of (deviceIdStr, info) \<Rightarrow>
        if deviceType info = HID then Some w
        else
          (case stoll deviceIdStr of
             Inl e \<Rightarrow> Some w
           | Inr devId \<Rightarrow> map_option snd (setDeviceConnection E devId False (deviceType info) w)))"

fun forEachDevice :: "('e \<Rightarrow> 'w \<Rightarrow> 'w option) \<Rightarrow> 'e list \<Rightarrow> 'w \<Rightarrow> 'w option" where
  "forEachDevice f [] w = Some w"
| "forEachDevice f (e # es) w = do { w1 \<leftarrow> f e w; forEachDevice f es w1 }"

text \<open>The 16-bit counter of the loop of \<open>X --> ON\<close>.\<close>

fun pairedDevicesCount :: "(string \<times> BluetoothDeviceInfo) list \<Rightarrow> 16 word \<Rightarrow> 16 word" where
  "pairedDevicesCount [] n = n"
| "pairedDevicesCount ((k, info) # es) n =
     pairedDevicesCount es (if deviceType info \<noteq> HID then n + 1 else n)"

definition onPowerModeChanged :: "env \<Rightarrow> PowerState \<Rightarrow> PowerState \<Rightarrow> 'z plugin_scheme \<Rightarrow> 'z plugin_scheme option" where
  "onPowerModeChanged E currentState newState w =
     (if \<not> (e_migration E \<and> isMigrated w) then Some w
      else if newState = currentState then Some w
      else if (currentState = POWER_STATE_ON \<or> currentState = POWER_STATE_UNKNOWN) \<and> newState \<in> set powerOffStates then
        forEachDevice (powerOffDevice E) (e_order E (getPairedDeviceInfos w)) w
      else if newState = POWER_STATE_ON then
        Some (if 0 < pairedDevicesCount (e_order E (getPairedDeviceInfos w)) 0
              then snd (setBluetoothEnabled E ''BLUETOOTH_ENABLED'' w) else w)
      else if newState = POWER_STATE_STANDBY_DEEP_SLEEP then
        forEachDevice (deepSleepDevice E) (e_order E (getPairedDeviceInfos w)) w
      else Some w)"

end
