(* ===== verification/Events.thy ===== *)
theory Events
  imports Connections
begin

section \<open>The plugin: BTRMGR events\<close>

text \<open>
  \<open>bluetoothSrv_EventCallback\<close> and \<open>notifyEventWrapper\<close> of \<open>Bluetooth/Bluetooth.cpp\<close>: each
  BTRMGR event becomes at most one JSON-RPC notification; an external connection request for
  a registered device is answered by the plugin itself once migrated. The cases of the
  \<open>switch\<close> that build the parameters of a notification are definitions of their own.
\<close>

subsection \<open>Messages\<close>

datatype BTRMGR_Events =
    BTRMGR_EVENT_DEVICE_OUT_OF_RANGE | BTRMGR_EVENT_DEVICE_DISCOVERY_STARTED
  | BTRMGR_EVENT_DEVICE_DISCOVERY_UPDATE | BTRMGR_EVENT_DEVICE_DISCOVERY_COMPLETE
  | BTRMGR_EVENT_DEVICE_PAIRING_COMPLETE | BTRMGR_EVENT_DEVICE_UNPAIRING_COMPLETE
  | BTRMGR_EVENT_DEVICE_CONNECTION_COMPLETE | BTRMGR_EVENT_DEVICE_DISCONNECT_COMPLETE
  | BTRMGR_EVENT_DEVICE_PAIRING_FAILED | BTRMGR_EVENT_DEVICE_UNPAIRING_FAILED
  | BTRMGR_EVENT_DEVICE_CONNECTION_FAILED
  | BTRMGR_EVENT_RECEIVED_EXTERNAL_PAIR_REQUEST | BTRMGR_EVENT_RECEIVED_EXTERNAL_CONNECT_REQUEST
  | BTRMGR_EVENT_RECEIVED_EXTERNAL_PLAYBACK_REQUEST | BTRMGR_EVENT_DEVICE_FOUND
  | BTRMGR_EVENT_MEDIA_TRACK_STARTED | BTRMGR_EVENT_MEDIA_TRACK_PLAYING
  | BTRMGR_EVENT_MEDIA_TRACK_PAUSED | BTRMGR_EVENT_MEDIA_TRACK_STOPPED
  | BTRMGR_EVENT_MEDIA_TRACK_POSITION | BTRMGR_EVENT_MEDIA_TRACK_CHANGED
  | BTRMGR_EVENT_MEDIA_PLAYBACK_ENDED | BTRMGR_EVENT_DEVICE_MEDIA_STATUS
  | BTRMGR_EVENT_IGNORED nat \<comment> \<open>every event the \<open>switch\<close> leaves without effect\<close>

record external_device = bt_device +
  ed_vendorID :: "16 word"
  ed_profiles :: "string list"
  ed_externalDevicePIN :: "32 word"

record media_info =
  mi_deviceHandle :: handle
  mi_name :: string
  mi_deviceType :: device_type
  mi_mediaPosition :: "32 word"
  mi_mediaDuration :: "32 word"
  mi_track :: media_track
  mi_ui8mediaDevVolume :: "8 word"
  mi_ui8mediaDevMute :: "8 word"
  mi_enmediaCtrlCmd :: BTRMGR_MediaCtrl

record BTRMGR_EventMessage =
  m_eventType :: BTRMGR_Events
  m_discoveredDevice :: discovered_device
  m_pairedDevice :: paired_device
  m_externalDevice :: external_device
  m_mediaInfo :: media_info

definition EVT_STATUS_CHANGED :: string where "EVT_STATUS_CHANGED = ''onStatusChanged''"
definition EVT_REQUEST_FAILED :: string where "EVT_REQUEST_FAILED = ''onRequestFailed''"
definition EVT_PLAYBACK_CHANGE :: string where "EVT_PLAYBACK_CHANGE = ''onPlaybackChange''"
definition EVT_PLAYBACK_POSITION :: string where "EVT_PLAYBACK_POSITION = ''onPlaybackProgress''"
definition EVT_PLAYBACK_NEW_TRACK :: string where "EVT_PLAYBACK_NEW_TRACK = ''onPlaybackNewTrack''"
definition EVT_DEVICE_FOUND :: string where "EVT_DEVICE_FOUND = ''onDeviceFound''"
definition EVT_DEVICE_LOST_OR_OUT_OF_RANGE :: string where "EVT_DEVICE_LOST_OR_OUT_OF_RANGE = ''onDeviceLost''"
definition EVT_DEVICE_DISCOVERY_UPDATE :: string where "EVT_DEVICE_DISCOVERY_UPDATE = ''onDiscoveredDevice''"
definition EVT_DEVICE_MEDIA_STATUS :: string where "EVT_DEVICE_MEDIA_STATUS = ''onDeviceMediaStatus''"

subsection \<open>Parameters of the notifications\<close>

text \<open>
  \<open>params[l] = BTRMGR_GetDeviceTypeAsString (t)\<close>: a \<open>const char*\<close>, possibly null. What Thunder's
  \<open>Variant\<close> makes of a null pointer is a parameter: a value (\<open>e_ofCStr\<close>) or an exception
  (\<open>e_nullThrows\<close>, see \<open>nullTypeThrows\<close>), which then leaves \<open>notifyEventWrapper\<close>.
\<close>

definition typeParam :: "env \<Rightarrow> device_type \<Rightarrow> json" where
  "typeParam E t = e_ofCStr E (e_typeString E t)"

definition pairingCompleteParams :: "env \<Rightarrow> discovered_device \<Rightarrow> json_object" where
  "pairingCompleteParams E d =
     [(''newStatus'', JStr ''PAIRING_CHANGE''), (''deviceID'', e_ofCStr E (Some (deviceId d))),
      (''name'', JStr (m_name d)), (''deviceType'', typeParam E (m_deviceType d)),
      (''rawDeviceType'', e_ofCStr E (Some (u32_string (m_ui32DevClassBtSpec d)))),
      (''rawBleDeviceType'', e_ofCStr E (Some (u16_string (m_ui16DevAppearanceBleSpec d)))),
      (''lastConnectedState'', JBool (dd_isLastConnectedDevice d)),
      (''paired'', JBool (dd_isPairedDevice d)), (''connected'', JBool (dd_isConnected d))]"

definition pairingFailedParams :: "env \<Rightarrow> discovered_device \<Rightarrow> json_object" where
  "pairingFailedParams E d =
     [(''newStatus'', JStr ''PAIRING_FAILED''), (''deviceID'', JStr (deviceId d)),
      (''name'', JStr (m_name d)), (''deviceType'', typeParam E (m_deviceType d)),
      (''rawDeviceType'', JStr (u32_string (m_ui32DevClassBtSpec d))),
      (''rawBleDeviceType'', JStr (u16_string (m_ui16DevAppearanceBleSpec d))),
      (''lastConnectedState'', JBool (dd_isLastConnectedDevice d)),
      (''paired'', JBool (dd_isPairedDevice d)), (''connected'', JBool (dd_isConnected d))]"

text \<open>Unpairing, connection and failure events describe a paired device.\<close>

definition pairedStatusParams :: "env \<Rightarrow> string \<Rightarrow> bool \<Rightarrow> paired_device \<Rightarrow> json_object" where
  "pairedStatusParams E newStatus paired d =
     [(''newStatus'', JStr newStatus), (''deviceID'', JStr (deviceId d)),
      (''name'', JStr (m_name d)), (''deviceType'', typeParam E (m_deviceType d)),
      (''rawDeviceType'', JStr (u32_string (m_ui32DevClassBtSpec d))),
      (''rawBleDeviceType'', JStr (u16_string (m_ui16DevAppearanceBleSpec d))),
      (''lastConnectedState'', JBool (pd_isLastConnectedDevice d)),
      (''paired'', JBool paired), (''connected'', JBool (pd_isConnected d))]"

definition connectionChangeParams :: "env \<Rightarrow> paired_device \<Rightarrow> 'z plugin_scheme \<Rightarrow> json_object" where
  "connectionChangeParams E d w =
     pairedStatusParams E ''CONNECTION_CHANGE'' True d @
     (case getAutoConnect E (deviceId d) AUTO_CONNECT_STATUS_UNSET w of
        (result, status) \<Rightarrow>
          if result = ERROR_NONE \<and> status \<noteq> AUTO_CONNECT_STATUS_UNSET
          then [(''autoconnect'', JBool (status = AUTO_CONNECT_STATUS_ENABLED))] else [])"

definition externalParams :: "env \<Rightarrow> external_device \<Rightarrow> json_object" where
  "externalParams E d =
     [(''deviceID'', JStr (deviceId d)), (''name'', JStr (m_name d)),
      (''deviceType'', typeParam E (m_deviceType d)),
      (''manufacturer'', JStr (u16_string (ed_vendorID d))), (''MAC'', JStr (m_deviceAddress d)),
      (''supportedProfile'', JStr (joinProfiles (ed_profiles d)))]"

definition pairRequestParams :: "env \<Rightarrow> external_device \<Rightarrow> json_object" where
  "pairRequestParams E d = externalParams E d @
     (if ed_externalDevicePIN d = 0 then [(''pinRequired'', e_ofCStr E (Some ''false''))]
      else [(''pinRequired'', e_ofCStr E (Some ''true'')),
            (''pinValue'', JStr (u32_string (ed_externalDevicePIN d)))])"

definition positionParams :: "media_info \<Rightarrow> json_object" where
  "positionParams m =
     [(''deviceID'', JStr (to_string_ull (mi_deviceHandle m))),
      (''position'', JStr (u32_string (mi_mediaPosition m))),
      (''Duration'', JStr (u32_string (mi_mediaDuration m)))]"

definition trackStoppedParams :: "env \<Rightarrow> media_info \<Rightarrow> json_object" where
  "trackStoppedParams E m =
     [(''action'', JStr ''stopped''),
      (''deviceID'', e_ofCStr E (Some (to_string_ull (mi_deviceHandle m)))),
      (''position'', e_ofCStr E (Some (u32_string (mi_mediaPosition m)))),
      (''Duration'', e_ofCStr E (Some (u32_string (mi_mediaDuration m))))]"

definition deviceFoundParams :: "env \<Rightarrow> paired_device \<Rightarrow> json_object" where
  "deviceFoundParams E d =
     [(''deviceID'', JStr (deviceId d)), (''name'', JStr (m_name d)),
      (''deviceType'', typeParam E (m_deviceType d)),
      (''rawDeviceType'', JStr (u32_string (m_ui32DevClassBtSpec d))),
      (''rawBleDeviceType'', JStr (u16_string (m_ui16DevAppearanceBleSpec d))),
      (''lastConnectedState'', JBool (pd_isLastConnectedDevice d))]"

definition discoveryUpdateParams :: "env \<Rightarrow> discovered_device \<Rightarrow> json_object" where
  "discoveryUpdateParams E d =
     [(''deviceID'', JStr (deviceId d)),
      (''discoveryType'', e_ofCStr E (Some (if dd_isDiscovered d then ''DISCOVERED'' else ''LOST''))),
      (''name'', JStr (m_name d)), (''deviceType'', typeParam E (m_deviceType d)),
      (''rawDeviceType'', JStr (u32_string (m_ui32DevClassBtSpec d))),
      (''rawBleDeviceType'', JStr (u16_string (m_ui16DevAppearanceBleSpec d))),
      (''lastConnectedState'', JBool (dd_isLastConnectedDevice d)),
      (''paired'', JBool (dd_isPairedDevice d))]"

definition mediaStatusParams :: "env \<Rightarrow> media_info \<Rightarrow> json_object" where
  "mediaStatusParams E m =
     [(''deviceID'', JStr (to_string_ull (mi_deviceHandle m))), (''name'', JStr (mi_name m)),
      (''deviceType'', typeParam E (mi_deviceType m)),
      (''volume'', JStr (u8_string (mi_ui8mediaDevVolume m))),
      (''mute'', JBool (mi_ui8mediaDevMute m \<noteq> 0)),
      (''command'', JStr (if mi_enmediaCtrlCmd m = BTRMGR_MEDIA_CTRL_VOLUMEUP then ''VOLUME_UP''
         else if mi_enmediaCtrlCmd m = BTRMGR_MEDIA_CTRL_VOLUMEDOWN then ''VOLUME_DOWN''
         else if mi_enmediaCtrlCmd m = BTRMGR_MEDIA_CTRL_MUTE then ''AUDIO_MUTE''
         else if mi_enmediaCtrlCmd m = BTRMGR_MEDIA_CTRL_UNMUTE then ''AUDIO_UNMUTE''
         else ''CMD_UNKNOWN''))]"

subsection \<open>An external connection request answered by the plugin\<close>

text \<open>
  Once migrated and for a device of the registry: accept or reject by its autoconnect
  status, connect it when accepted. A null device type makes \<open>std::string\<close> throw after the
  response was sent.
\<close>

definition answerConnectRequest :: "env \<Rightarrow> external_device \<Rightarrow> bool \<Rightarrow> 'z plugin_scheme
    \<Rightarrow> (cpp_exception option \<times> 'z plugin_scheme) option" where
  "answerConnectRequest E d bAccepted w =
     (let (ok, w1) = setEventResponse E (sint (m_deviceHandle d)) EVT_CONNECTION_REQUEST
            (if bAccepted then ''ACCEPTED'' else ''REJECTED'') w
      in if \<not> bAccepted then Some (None, w1)
         else case e_typeString E (m_deviceType d) of
           None \<Rightarrow> Some (Some null_c_string, w1)
         | Some t \<Rightarrow> do { (ok, w2) \<leftarrow> setDeviceConnection E (sint (m_deviceHandle d)) True t w1; Some (None, w2) })"

subsection \<open>\<open>notifyEventWrapper\<close>\<close>

text \<open>The name and the parameters of the notification of an event, if it has one.\<close>

definition notification :: "env \<Rightarrow> BTRMGR_EventMessage \<Rightarrow> 'z plugin_scheme \<Rightarrow> (string \<times> json_object) option" where
  "notification E msg w =
     (let d = m_discoveredDevice msg; p = m_pairedDevice msg; x = m_externalDevice msg; m = m_mediaInfo msg in
      case m_eventType msg of
        BTRMGR_EVENT_DEVICE_DISCOVERY_COMPLETE \<Rightarrow> Some (EVT_STATUS_CHANGED, [(''newStatus'', JStr ''DISCOVERY_COMPLETED'')])
      | BTRMGR_EVENT_DEVICE_PAIRING_COMPLETE \<Rightarrow> Some (EVT_STATUS_CHANGED, pairingCompleteParams E d)
      | BTRMGR_EVENT_DEVICE_UNPAIRING_COMPLETE \<Rightarrow> Some (EVT_STATUS_CHANGED, pairedStatusParams E ''PAIRING_CHANGE'' False p)
      | BTRMGR_EVENT_DEVICE_CONNECTION_COMPLETE \<Rightarrow> Some (EVT_STATUS_CHANGED, connectionChangeParams E p w)
      | BTRMGR_EVENT_DEVICE_DISCONNECT_COMPLETE \<Rightarrow> Some (EVT_STATUS_CHANGED, connectionChangeParams E p w)
      | BTRMGR_EVENT_DEVICE_DISCOVERY_STARTED \<Rightarrow> Some (EVT_STATUS_CHANGED, [(''newStatus'', JStr ''DISCOVERY_STARTED'')])
      | BTRMGR_EVENT_RECEIVED_EXTERNAL_PAIR_REQUEST \<Rightarrow> Some (EVT_PAIRING_REQUEST, pairRequestParams E x)
      | BTRMGR_EVENT_DEVICE_PAIRING_FAILED \<Rightarrow> Some (EVT_REQUEST_FAILED, pairingFailedParams E d)
      | BTRMGR_EVENT_DEVICE_UNPAIRING_FAILED \<Rightarrow> Some (EVT_REQUEST_FAILED, pairedStatusParams E ''PAIRING_FAILED'' True p)
      | BTRMGR_EVENT_DEVICE_CONNECTION_FAILED \<Rightarrow> Some (EVT_REQUEST_FAILED, pairedStatusParams E ''CONNECTION_FAILED'' True p)
      | BTRMGR_EVENT_RECEIVED_EXTERNAL_CONNECT_REQUEST \<Rightarrow> Some (EVT_CONNECTION_REQUEST, externalParams E x)
      | BTRMGR_EVENT_RECEIVED_EXTERNAL_PLAYBACK_REQUEST \<Rightarrow> Some (EVT_PLAYBACK_REQUEST, externalParams E x)
      | BTRMGR_EVENT_MEDIA_TRACK_STARTED \<Rightarrow> Some (EVT_PLAYBACK_CHANGE, (''action'', JStr ''started'') # positionParams m)
      | BTRMGR_EVENT_MEDIA_TRACK_PAUSED \<Rightarrow> Some (EVT_PLAYBACK_CHANGE, (''action'', JStr ''paused'') # positionParams m)
      | BTRMGR_EVENT_MEDIA_TRACK_STOPPED \<Rightarrow> Some (EVT_PLAYBACK_CHANGE, trackStoppedParams E m)
      | BTRMGR_EVENT_MEDIA_PLAYBACK_ENDED \<Rightarrow> Some (EVT_PLAYBACK_CHANGE,
          [(''action'', JStr ''ended''), (''deviceID'', JStr (to_string_ull (mi_deviceHandle m)))])
      | BTRMGR_EVENT_MEDIA_TRACK_PLAYING \<Rightarrow> Some (EVT_PLAYBACK_POSITION, positionParams m)
      | BTRMGR_EVENT_MEDIA_TRACK_POSITION \<Rightarrow> Some (EVT_PLAYBACK_POSITION, positionParams m)
      | BTRMGR_EVENT_MEDIA_TRACK_CHANGED \<Rightarrow> Some (EVT_PLAYBACK_NEW_TRACK,
          (''deviceID'', JStr (to_string_ull (mi_deviceHandle m))) # trackDetails (mi_track m))
      | BTRMGR_EVENT_DEVICE_FOUND \<Rightarrow> Some (EVT_DEVICE_FOUND, deviceFoundParams E p)
      | BTRMGR_EVENT_DEVICE_OUT_OF_RANGE \<Rightarrow> Some (EVT_DEVICE_LOST_OR_OUT_OF_RANGE, deviceFoundParams E p)
      | BTRMGR_EVENT_DEVICE_DISCOVERY_UPDATE \<Rightarrow> Some (EVT_DEVICE_DISCOVERY_UPDATE, discoveryUpdateParams E d)
      | BTRMGR_EVENT_DEVICE_MEDIA_STATUS \<Rightarrow> Some (EVT_DEVICE_MEDIA_STATUS, mediaStatusParams E m)
      | BTRMGR_EVENT_IGNORED n \<Rightarrow> None)"

text \<open>The device type whose name goes into the parameters without a test for null, and whether that throws.\<close>

definition namedType :: "BTRMGR_EventMessage \<Rightarrow> device_type option" where
  "namedType msg =
     (case m_eventType msg of
        BTRMGR_EVENT_DEVICE_PAIRING_COMPLETE \<Rightarrow> Some (m_deviceType (m_discoveredDevice msg))
      | BTRMGR_EVENT_DEVICE_PAIRING_FAILED \<Rightarrow> Some (m_deviceType (m_discoveredDevice msg))
      | BTRMGR_EVENT_DEVICE_DISCOVERY_UPDATE \<Rightarrow> Some (m_deviceType (m_discoveredDevice msg))
      | BTRMGR_EVENT_DEVICE_UNPAIRING_COMPLETE \<Rightarrow> Some (m_deviceType (m_pairedDevice msg))
      | BTRMGR_EVENT_DEVICE_UNPAIRING_FAILED \<Rightarrow> Some (m_deviceType (m_pairedDevice msg))
      | BTRMGR_EVENT_DEVICE_CONNECTION_COMPLETE \<Rightarrow> Some (m_deviceType (m_pairedDevice msg))
      | BTRMGR_EVENT_DEVICE_DISCONNECT_COMPLETE \<Rightarrow> Some (m_deviceType (m_pairedDevice msg))
      | BTRMGR_EVENT_DEVICE_CONNECTION_FAILED \<Rightarrow> Some (m_deviceType (m_pairedDevice msg))
      | BTRMGR_EVENT_DEVICE_FOUND \<Rightarrow> Some (m_deviceType (m_pairedDevice msg))
      | BTRMGR_EVENT_DEVICE_OUT_OF_RANGE \<Rightarrow> Some (m_deviceType (m_pairedDevice msg))
      | BTRMGR_EVENT_RECEIVED_EXTERNAL_PAIR_REQUEST \<Rightarrow> Some (m_deviceType (m_externalDevice msg))
      | BTRMGR_EVENT_RECEIVED_EXTERNAL_CONNECT_REQUEST \<Rightarrow> Some (m_deviceType (m_externalDevice msg))
      | BTRMGR_EVENT_RECEIVED_EXTERNAL_PLAYBACK_REQUEST \<Rightarrow> Some (m_deviceType (m_externalDevice msg))
      | BTRMGR_EVENT_DEVICE_MEDIA_STATUS \<Rightarrow> Some (mi_deviceType (m_mediaInfo msg))
      | _ \<Rightarrow> None)"

definition nullTypeThrows :: "env \<Rightarrow> BTRMGR_EventMessage \<Rightarrow> bool" where
  "nullTypeThrows E msg \<longleftrightarrow> e_nullThrows E \<and> (case namedType msg of None \<Rightarrow> False | Some t \<Rightarrow> e_typeString E t = None)"

text \<open>
  \<open>notifyEventWrapper\<close>: an exception that leaves it, and the state. The registry is asked
  about an external connection request only in the migration build, once migrated.
\<close>

definition notifyEventWrapper :: "env \<Rightarrow> BTRMGR_EventMessage \<Rightarrow> 'z plugin_scheme
    \<Rightarrow> (cpp_exception option \<times> 'z plugin_scheme) option" where
  "notifyEventWrapper E msg w =
     (let x = m_externalDevice msg;
          (result, status) = getAutoConnect E (deviceId x) AUTO_CONNECT_STATUS_UNSET w
      in if m_eventType msg = BTRMGR_EVENT_RECEIVED_EXTERNAL_CONNECT_REQUEST \<and>
            e_migration E \<and> isMigrated w \<and> result = ERROR_NONE
         then answerConnectRequest E x (status = AUTO_CONNECT_STATUS_ENABLED) w
         else if nullTypeThrows E msg then Some (Some null_c_string, w)
         else case notification E msg w of
           None \<Rightarrow> Some (None, w)
         | Some (eventId, params) \<Rightarrow> Some (None, sendNotify eventId params w))"

definition bluetoothSrv_EventCallback :: "env \<Rightarrow> BTRMGR_EventMessage \<Rightarrow> 'z plugin_scheme
    \<Rightarrow> ((cpp_exception + BTRMGR_Result) \<times> 'z plugin_scheme) option" where
  "bluetoothSrv_EventCallback E msg w =
     (if \<not> instanceSet w then Some (Inr BTRMGR_RESULT_INIT_FAILED, w)
      else do {
        (thrown, w1) \<leftarrow> notifyEventWrapper E msg w;
        Some (case thrown of Some e \<Rightarrow> Inl e | None \<Rightarrow> Inr BTRMGR_RESULT_SUCCESS, w1)
      })"

end
