(* ===== verification/JsonRpc.thy ===== *)
theory JsonRpc
  imports Events
begin

section \<open>The plugin: JSON-RPC methods\<close>

text \<open>
  The registered methods of \<open>Bluetooth/Bluetooth.cpp\<close>. A call returns the response object and
  the flag given to \<open>returnResponse\<close>, or throws: \<open>stoll\<close> on the \<open>deviceID\<close> parameter is not
  guarded. None: the call never returns.
\<close>

datatype rpc_result = Throws cpp_exception | Returns json_object bool

type_synonym 'w rpc = "json_object \<Rightarrow> 'w \<Rightarrow> (rpc_result \<times> 'w) option"

subsection \<open>Parameters\<close>

text \<open>The \<open>deviceID\<close> parameter: absent, a number, or the exception of \<open>stoll\<close>.\<close>

datatype id_param = NoId | BadId cpp_exception | Id string int

definition deviceIDParam :: "env \<Rightarrow> json_object \<Rightarrow> id_param" where
  "deviceIDParam E parameters =
     (if HasLabel parameters ''deviceID'' then
        let deviceIDStr = e_getString E parameters ''deviceID'' '''' in
        case stoll deviceIDStr of Inl e \<Rightarrow> BadId e | Inr n \<Rightarrow> Id deviceIDStr n
      else NoId)"

definition stringParam :: "env \<Rightarrow> json_object \<Rightarrow> string \<Rightarrow> string option" where
  "stringParam E parameters l =
     (if HasLabel parameters l then Some (e_getString E parameters l '''') else None)"

text \<open>A result and the state it comes with, as the outcome of a call.\<close>

definition returns :: "json_object \<Rightarrow> bool \<times> 'w \<Rightarrow> (rpc_result \<times> 'w) option" where
  "returns response r = (case r of (ok, w) \<Rightarrow> Some (Returns response ok, w))"

definition returnsLater :: "(bool \<times> 'w) option \<Rightarrow> (rpc_result \<times> 'w) option" where
  "returnsLater r = do { (ok, w) \<leftarrow> r; Some (Returns [] ok, w) }"

subsection \<open>Discovery and adapter\<close>

definition API_VERSION_NUMBER_MAJOR :: int where "API_VERSION_NUMBER_MAJOR = 1"

definition getApiVersionNumber :: "env \<Rightarrow> 'z plugin_scheme rpc" where
  "getApiVersionNumber E parameters w = Some (Returns [(''version'', JNum API_VERSION_NUMBER_MAJOR)] True, w)"

definition startScanWrapper :: "env \<Rightarrow> 'z plugin_scheme rpc" where
  "startScanWrapper E parameters w =
     (if HasLabel parameters ''timeout'' then
        let timeout = e_getNumber E parameters ''timeout'' (- 1);
            profile = (case stringParam E parameters ''profile'' of Some p \<Rightarrow> p | None \<Rightarrow> defaultProfile);
            (status, w1) = startDeviceDiscovery E timeout profile w
        in Some (Returns [(''status'', JStr status)] True, w1)
      else Some (Returns [] False, w))"

definition stopScanWrapper :: "env \<Rightarrow> 'z plugin_scheme rpc" where
  "stopScanWrapper E parameters w = Some (Returns [] True, snd (stopDeviceDiscovery E w))"

definition isDiscoverableWrapper :: "env \<Rightarrow> 'z plugin_scheme rpc" where
  "isDiscoverableWrapper E parameters w =
     (let (d, w1) = isAdapterDiscoverable E w in Some (Returns [(''discoverable'', JBool d)] True, w1))"

definition setDiscoverableWrapper :: "env \<Rightarrow> 'z plugin_scheme rpc" where
  "setDiscoverableWrapper E parameters w =
     (let timeout = (if HasLabel parameters ''timeout''
            then e_getNumber E parameters ''timeout'' (e_uninitInt E) else - 1)
      in if HasLabel parameters ''discoverable''
         then returns [] (setBluetoothDiscoverable E (e_getBool E parameters ''discoverable'' False) timeout w)
         else Some (Returns [] False, w))"

definition enableWrapper :: "env \<Rightarrow> 'z plugin_scheme rpc" where
  "enableWrapper E parameters w = returns [] (setBluetoothEnabled E ''BLUETOOTH_ENABLED'' w)"

definition disableWrapper :: "env \<Rightarrow> 'z plugin_scheme rpc" where
  "disableWrapper E parameters w = returns [] (setBluetoothEnabled E ''BLUETOOTH_DISABLED'' w)"

definition getNameWrapper :: "env \<Rightarrow> 'z plugin_scheme rpc" where
  "getNameWrapper E parameters w =
     (let (ok, response, w1) = getBluetoothProperties E w in Some (Returns response ok, w1))"

definition setNameWrapper :: "env \<Rightarrow> 'z plugin_scheme rpc" where
  "setNameWrapper E parameters w = returns [] (setBluetoothProperties E parameters w)"

subsection \<open>Devices\<close>

definition getDiscoveredDevicesWrapper :: "env \<Rightarrow> 'z plugin_scheme rpc" where
  "getDiscoveredDevicesWrapper E parameters w =
     (let (ds, w1) = getDiscoveredDevices E w in Some (Returns [(''discoveredDevices'', JArr ds)] True, w1))"

definition getPairedDevicesWrapper :: "env \<Rightarrow> 'z plugin_scheme rpc" where
  "getPairedDevicesWrapper E parameters w =
     (let (ds, w1) = getPairedDevices E w in Some (Returns [(''pairedDevices'', JArr ds)] True, w1))"

definition getConnectedDevicesWrapper :: "env \<Rightarrow> 'z plugin_scheme rpc" where
  "getConnectedDevicesWrapper E parameters w =
     (let (ds, w1) = getConnectedDevices E w in Some (Returns [(''connectedDevices'', JArr ds)] True, w1))"

definition defaultDeviceType :: string where
  "defaultDeviceType = ''UNKNOWN DEVICE''"

definition connectionWrapper :: "env \<Rightarrow> bool \<Rightarrow> 'z plugin_scheme rpc" where
  "connectionWrapper E connect parameters w =
     (case deviceIDParam E parameters of
        BadId e \<Rightarrow> Some (Throws e, w)
      | NoId \<Rightarrow> Some (Returns [] False, w)
      | Id s devId \<Rightarrow>
          let dtype = (case stringParam E parameters ''deviceType'' of Some t \<Rightarrow> t | None \<Rightarrow> defaultDeviceType)
          in returnsLater (setDeviceConnection E devId connect dtype w))"

definition connectWrapper :: "env \<Rightarrow> 'z plugin_scheme rpc" where
  "connectWrapper E parameters w = connectionWrapper E True parameters w"

definition disconnectWrapper :: "env \<Rightarrow> 'z plugin_scheme rpc" where
  "disconnectWrapper E parameters w = connectionWrapper E False parameters w"

definition pairWrapper :: "env \<Rightarrow> 'z plugin_scheme rpc" where
  "pairWrapper E parameters w =
     (case deviceIDParam E parameters of
        BadId e \<Rightarrow> Some (Throws e, w)
      | NoId \<Rightarrow> Some (Returns [] False, w)
      | Id s devId \<Rightarrow> returnsLater (setDevicePairing E devId True w))"

definition unpairWrapper :: "env \<Rightarrow> 'z plugin_scheme rpc" where
  "unpairWrapper E parameters w =
     (case deviceIDParam E parameters of
        BadId e \<Rightarrow> Some (Throws e, w)
      | NoId \<Rightarrow> Some (Returns [] False, w)
      | Id s devId \<Rightarrow> returnsLater (setDevicePairing E devId False w))"

definition getDeviceInfoWrapper :: "env \<Rightarrow> 'z plugin_scheme rpc" where
  "getDeviceInfoWrapper E parameters w =
     (case deviceIDParam E parameters of
        BadId e \<Rightarrow> Some (Throws e, w)
      | NoId \<Rightarrow> Some (Returns [] False, w)
      | Id s devId \<Rightarrow> (let (info, w1) = getDeviceInfo E devId w
                      in Some (Returns [(''deviceInfo'', JObj info)] True, w1)))"

subsection \<open>Audio and events\<close>

definition setAudioStreamWrapper :: "env \<Rightarrow> 'z plugin_scheme rpc" where
  "setAudioStreamWrapper E parameters w =
     (case deviceIDParam E parameters of
        BadId e \<Rightarrow> Some (Throws e, w)
      | NoId \<Rightarrow> Some (Returns [] False, w)
      | Id s devId \<Rightarrow> (case stringParam E parameters ''audioStreamName'' of
            None \<Rightarrow> Some (Returns [] False, w)
          | Some n \<Rightarrow> returns [] (setAudioStream E devId n w)))"

definition sendAudioPlaybackCommandWrapper :: "env \<Rightarrow> 'z plugin_scheme rpc" where
  "sendAudioPlaybackCommandWrapper E parameters w =
     (case deviceIDParam E parameters of
        BadId e \<Rightarrow> Some (Throws e, w)
      | NoId \<Rightarrow> Some (Returns [] False, w)
      | Id s devId \<Rightarrow> (case stringParam E parameters ''command'' of
            None \<Rightarrow> Some (Returns [] False, w)
          | Some c \<Rightarrow> returns [] (setAudioControlCommand E devId c w)))"

definition getMediaTrackInfoWrapper :: "env \<Rightarrow> 'z plugin_scheme rpc" where
  "getMediaTrackInfoWrapper E parameters w =
     (case deviceIDParam E parameters of
        BadId e \<Rightarrow> Some (Throws e, w)
      | NoId \<Rightarrow> Some (Returns [] False, w)
      | Id s devId \<Rightarrow> (let (info, w1) = getMediaTrackInfo E devId w
                      in Some (Returns [(''trackInfo'', JObj info)] True, w1)))"

definition getDeviceVolumeMuteInfoWrapper :: "env \<Rightarrow> 'z plugin_scheme rpc" where
  "getDeviceVolumeMuteInfoWrapper E parameters w =
     (case deviceIDParam E parameters of
        BadId e \<Rightarrow> Some (Throws e, w)
      | NoId \<Rightarrow> Some (Returns [] False, w)
      | Id s devId \<Rightarrow> (case stringParam E parameters ''deviceType'' of
            None \<Rightarrow> Some (Returns [] False, w)
          | Some t \<Rightarrow> (let (info, w1) = getDeviceVolumeMuteProperties E devId t w
                       in Some (Returns [(''volumeinfo'', JObj info)] True, w1))))"

text \<open>The volume and mute values are cut to eight bits.\<close>

definition setDeviceVolumeMuteInfoWrapper :: "env \<Rightarrow> 'z plugin_scheme rpc" where
  "setDeviceVolumeMuteInfoWrapper E parameters w =
     (case deviceIDParam E parameters of
        BadId e \<Rightarrow> Some (Throws e, w)
      | NoId \<Rightarrow> Some (Returns [] False, w)
      | Id deviceIDStr devId \<Rightarrow>
          (case stringParam E parameters ''deviceType'' of
             None \<Rightarrow> Some (Returns [] False, w)
           | Some t \<Rightarrow>
               if HasLabel parameters ''volume'' \<and> HasLabel parameters ''mute'' then
                 let ui8volume = (word_of_int (e_getNumber E parameters ''volume'' 0) :: 8 word);
                     mute = (word_of_int (e_getNumber E parameters ''mute'' 0) :: 8 word);
                     (successFlag, w1) = setDeviceVolumeMuteProperties E devId t ui8volume mute w
                 in if successFlag then do {
                      (r, w2) \<leftarrow> setLastVolumeSetting E deviceIDStr (uint ui8volume) w1;
                      Some (Returns [] True, w2)
                    } else Some (Returns [] False, w1)
               else Some (Returns [] False, w)))"

definition setEventResponseWrapper :: "env \<Rightarrow> 'z plugin_scheme rpc" where
  "setEventResponseWrapper E parameters w =
     (case deviceIDParam E parameters of
        BadId e \<Rightarrow> Some (Throws e, w)
      | NoId \<Rightarrow> Some (Returns [] False, w)
      | Id s devId \<Rightarrow>
          (case (stringParam E parameters ''eventType'', stringParam E parameters ''responseValue'') of
             (Some eventType, Some responseValue) \<Rightarrow> returns [] (setEventResponse E devId eventType responseValue w)
           | _ \<Rightarrow> Some (Returns [] False, w)))"

subsection \<open>Autoconnect and migration\<close>

definition notifyAutoConnectStatusChanged :: "string \<Rightarrow> bool \<Rightarrow> 'z plugin_scheme \<Rightarrow> 'z plugin_scheme" where
  "notifyAutoConnectStatusChanged deviceID enable w =
     sendNotify EVT_STATUS_CHANGED
       [(''deviceID'', JStr deviceID), (''autoconnect'', JBool enable),
        (''newStatus'', JStr ''AUTOCONNECT_STATUS_CHANGE'')] w"

definition setAutoConnectWrapper :: "env \<Rightarrow> 'z plugin_scheme rpc" where
  "setAutoConnectWrapper E parameters w =
     (if HasLabel parameters ''deviceID'' \<and> HasLabel parameters ''enable'' then
        let deviceID = e_getString E parameters ''deviceID'' '''';
            enable = e_getBool E parameters ''enable'' (e_uninitBool E)
        in do {
          (result, w1) \<leftarrow> setAutoConnect E deviceID enable w;
          Some (if result \<noteq> ERROR_NONE then (Returns [] False, w1)
                else (Returns [] True, notifyAutoConnectStatusChanged deviceID enable w1))
        }
      else Some (Returns [] False, w))"

definition getAutoConnectWrapper :: "env \<Rightarrow> 'z plugin_scheme rpc" where
  "getAutoConnectWrapper E parameters w =
     (case stringParam E parameters ''deviceID'' of
        None \<Rightarrow> Some (Returns [] False, w)
      | Some deviceID \<Rightarrow>
          (case getAutoConnect E deviceID AUTO_CONNECT_STATUS_UNSET w of
             (result, status) \<Rightarrow>
               if result = ERROR_NONE
               then Some (Returns [(''autoconnect'', JBool (status = AUTO_CONNECT_STATUS_ENABLED))] True, w)
               else Some (Returns [] False, w)))"

definition performMigrationWrapper :: "env \<Rightarrow> 'z plugin_scheme rpc" where
  "performMigrationWrapper E parameters w =
     do { (result, w1) \<leftarrow> performMigration E w; Some (Returns [] (result = ERROR_NONE), w1) }"

definition clearMigrationWrapper :: "env \<Rightarrow> 'z plugin_scheme rpc" where
  "clearMigrationWrapper E parameters w =
     (let (result, w1) = clearMigration E w in Some (Returns [] (result = ERROR_NONE), w1))"

subsection \<open>The methods by name\<close>

definition methodTable :: "env \<Rightarrow> (string \<times> 'z plugin_scheme rpc) list" where
  "methodTable E =
     [(''getApiVersionNumber'', getApiVersionNumber E), (''startScan'', startScanWrapper E),
      (''stopScan'', stopScanWrapper E), (''isDiscoverable'', isDiscoverableWrapper E),
      (''getDiscoveredDevices'', getDiscoveredDevicesWrapper E),
      (''getPairedDevices'', getPairedDevicesWrapper E),
      (''getConnectedDevices'', getConnectedDevicesWrapper E), (''connect'', connectWrapper E),
      (''disconnect'', disconnectWrapper E), (''setAudioStream'', setAudioStreamWrapper E),
      (''pair'', pairWrapper E), (''unpair'', unpairWrapper E), (''enable'', enableWrapper E),
      (''disable'', disableWrapper E), (''setDiscoverable'', setDiscoverableWrapper E),
      (''getName'', getNameWrapper E), (''setName'', setNameWrapper E),
      (''sendAudioPlaybackCommand'', sendAudioPlaybackCommandWrapper E),
      (''respondToEvent'', setEventResponseWrapper E), (''getDeviceInfo'', getDeviceInfoWrapper E),
      (''getAudioInfo'', getMediaTrackInfoWrapper E),
      (''getDeviceVolumeMuteInfo'', getDeviceVolumeMuteInfoWrapper E),
      (''setDeviceVolumeMuteInfo'', setDeviceVolumeMuteInfoWrapper E),
      (''setAutoConnect'', setAutoConnectWrapper E), (''getAutoConnect'', getAutoConnectWrapper E)] @
     (if e_migration E then [(''performMigration'', performMigrationWrapper E),
        (''clearMigration'', clearMigrationWrapper E)] else [])"

text \<open>A request for a method that was registered (None as handler: unknown method).\<close>

definition invoke :: "env \<Rightarrow> string \<Rightarrow> 'z plugin_scheme rpc option" where
  "invoke E name = map_of (methodTable E) name"

end
