(* ===== verification/Lifecycle.thy ===== *)
theory Lifecycle
  imports PowerMode JsonRpc
begin

section \<open>The plugin: initialisation and shutdown\<close>

text \<open>
  The constructor, \<open>Initialize\<close> and \<open>Deinitialize\<close> of \<open>Bluetooth/Bluetooth.cpp\<close>, in the
  order of their calls. \<open>Initialize\<close> returns an error message, empty on success.
\<close>

definition Bluetooth_ctor :: "'z plugin_scheme \<Rightarrow> 'z plugin_scheme" where
  "Bluetooth_ctor w = w\<lparr>service := False, pairedDeviceCache := [], isMigrated := False,
     discoveryRunning := False, powerManager := False, instanceSet := True, registeredMethods := []\<rparr>"

definition registerMethods :: "env \<Rightarrow> 'z plugin_scheme \<Rightarrow> 'z plugin_scheme" where
  "registerMethods E w =
     (let names = map fst (methodTable E :: (string \<times> 'z plugin_scheme rpc) list)
      in (fold (\<lambda>n. emit (EvRegisterMethod n)) names w)\<lparr>registeredMethods := names\<rparr>)"

text \<open>The PowerManager part of \<open>Initialize\<close>.\<close>

definition acquirePowerManager :: "env \<Rightarrow> 'z plugin_scheme \<Rightarrow> 'z plugin_scheme option" where
  "acquirePowerManager E w =
     (let ok = e_powerManager E (trace w); w1 = (emit (EvPowerAcquire ok) w)\<lparr>powerManager := ok\<rparr> in
      if \<not> ok then Some w1
      else let w2 = emit EvPowerRegister w1;
               (r, currentState, prevState) = e_powerState E (trace w2);
               w3 = emit (EvPowerRead r) w2
        in if r = ERROR_NONE then onPowerModeChanged E prevState currentState w3 else Some w3)"

definition Initialize :: "env \<Rightarrow> bool \<Rightarrow> 'z plugin_scheme \<Rightarrow> (string \<times> 'z plugin_scheme) option" where
  "Initialize E srv w =
     (let w1 = emit EvIarmInit (registerMethods E w); (rc, w2) = btCall E RegisterForCallbacks w1 in
      if rc \<noteq> BTRMGR_RESULT_SUCCESS then Some (''Failed to Register BTRMgr...!'', w2)
      else let (_, w3) = btCall E RegisterEventCallback w2 in do {
        w4 \<leftarrow> acquirePowerManager E w3;
        (result, w5) \<leftarrow> init E srv w4;
        if result \<noteq> ERROR_NONE then Some (''Failed to initialize BluetoothDeviceManager'', w5)
        else do { w6 \<leftarrow> disconnectExternallyConnectedDevices E w5; Some ('''', w6) }
      })"

definition Deinitialize :: "env \<Rightarrow> 'z plugin_scheme \<Rightarrow> 'z plugin_scheme" where
  "Deinitialize E w =
     (let w1 = deinit w;
          w2 = (if powerManager w1 then (emit EvPowerUnregister w1)\<lparr>powerManager := False\<rparr> else w1);
          w3 = w2\<lparr>instanceSet := False\<rparr>;
          (rc, w4) = btCall E UnRegisterFromCallbacks w3
      in w4)"

definition Information :: string where
  "Information = ''{'' @ [CHR 0x22] @ ''service'' @ [CHR 0x22] @ '': '' @ [CHR 0x22] @
     ''org.rdk.Bluetooth'' @ [CHR 0x22] @ ''}''"

end
