(* ===== verification/PluginCorrect.thy ===== *)
theory PluginCorrect
  imports Lifecycle RegistrySpec
begin

section \<open>The plugin as a machine\<close>

text \<open>
  Every entry point of the plugin (JSON-RPC requests, BTRMGR events, power mode changes, the
  discovery timer, initialisation and shutdown) as one machine, and its invariant: that of
  the registry, and that a scan is running exactly while the timer that ends it is
  scheduled. The operations of the registry do not touch the fields of the plugin, those of
  the plugin touch the registry only through its operations.
\<close>

subsection \<open>Frames\<close>

lemma plugin_fields_more:
  fixes w w' :: "'z plugin_scheme"
  assumes "dmgr.more w' = dmgr.more w"
  shows "discoveryRunning w' = discoveryRunning w" "discoveryTimer w' = discoveryTimer w"
    "powerManager w' = powerManager w" "instanceSet w' = instanceSet w"
    "registeredMethods w' = registeredMethods w"
  using assms by (cases w; cases w'; simp)+

lemma more_updates [simp]:
  "dmgr.more (w\<lparr>pairedDeviceCache := c\<rparr>) = dmgr.more w" "dmgr.more (w\<lparr>isMigrated := b\<rparr>) = dmgr.more w"
  "dmgr.more (w\<lparr>service := b\<rparr>) = dmgr.more w" "dmgr.more (emit e w) = dmgr.more w"
  by (simp_all add: emit_def)

lemma io_dmgr_more: "io P w w' \<Longrightarrow> dmgr.more w' = dmgr.more w"
  by (rule io_fields(4))

lemma btCall_more: "btCall E c w = (rc, w') \<Longrightarrow> dmgr.more w' = dmgr.more w"
  by (auto simp: btCall_def Let_def)

lemma syncStorage_more: "syncStorage E w = Some (r, w') \<Longrightarrow> dmgr.more w' = dmgr.more w"
  by (auto simp: syncStorage_def split: if_splits dest: writeStorage_io io_dmgr_more)

lemma registry_ops_more:
  "setAutoConnect E k b w = Some (r, w') \<Longrightarrow> dmgr.more w' = dmgr.more w"
  "setLastConnectTimeUtc E k w = Some w' \<Longrightarrow> dmgr.more w' = dmgr.more w"
  "setLastVolumeSetting E k v w = Some (r, w') \<Longrightarrow> dmgr.more w' = dmgr.more w"
  "addDevice E k w = Some (r, w') \<Longrightarrow> dmgr.more w' = dmgr.more w"
  "removeDevice E k w = Some (r, w') \<Longrightarrow> dmgr.more w' = dmgr.more w"
  by (auto simp: op_sync btCall_def Let_def split: if_splits option.splits sum.splits dest!: syncStorage_more)

lemma readVersion_more: "readMigrationVersionFromStorage E w = (r, v, w') \<Longrightarrow> dmgr.more w' = dmgr.more w"
  by (drule readVersion_io) (rule io_dmgr_more)

lemma writeVersion_more: "writeMigrationVersionToStorage E w = (r, w') \<Longrightarrow> dmgr.more w' = dmgr.more w"
  by (drule writeVersion_io) (rule io_dmgr_more)

lemma updateCacheFromStorage_more: "updateCacheFromStorage E w = (r, w') \<Longrightarrow> dmgr.more w' = dmgr.more w"
  by (erule updateCacheFromStorage_cases) (auto simp: storeRelease_def)

lemma updateCacheFromDevice_more: "updateCacheFromDevice E b w = (r, w') \<Longrightarrow> dmgr.more w' = dmgr.more w"
  by (auto simp: updateCacheFromDevice_def btCall_def Let_def split: if_splits)

lemma importCache_more:
  assumes "importCache E w = (r, w')"
  shows "dmgr.more w' = dmgr.more w"
proof -
  obtain rr raw w1 where rd: "ReadRaw E '''' w = (rr, raw, w1)" by (metis prod_cases3)
  obtain ir w2 where im: "writeCacheFromFilesystemPersistence E raw w1 = (ir, w2)" by fastforce
  have "dmgr.more w2 = dmgr.more w1"
    using im by (auto simp: writeCacheFromFilesystemPersistence_def btCall_def Let_def split: if_splits prod.splits)
  then show ?thesis
    using assms rd im io_dmgr_more [OF ReadRaw_quiet [OF rd, of "''''"]] updateCacheFromDevice_more [of E True w2 r w']
    by (auto simp: importCache_def Let_def split: if_splits)
qed

lemma performMigration_more:
  assumes "performMigration E w = Some (r, w')"
  shows "dmgr.more w' = dmgr.more w"
proof -
  obtain vr v w1 where rd: "readMigrationVersionFromStorage E w = (vr, v, w1)" by (metis prod_cases3)
  obtain ir w2 where im: "importCache E w1 = (ir, w2)" by fastforce
  note m1 = readVersion_more [OF rd] importCache_more [OF im]
  from assms rd im consider "w' = w1" | "w' = w1\<lparr>isMigrated := True\<rparr>" | "w' = w2"
    | wr w3 where "writeStorageFromCache E w2 = Some (wr, w3)"
        "w' = w3 \<or> (\<exists>vr w4. writeMigrationVersionToStorage E w3 = (vr, w4) \<and>
           (w' = w4 \<or> w' = w4\<lparr>isMigrated := True\<rparr>))"
    by (auto simp: performMigration_def Let_def split: if_splits prod.splits elim!: bind_SomeE)
  then show ?thesis
  proof cases
    case 4
    then show ?thesis using m1 io_dmgr_more [OF writeStorage_io [OF 4(1)]]
      by (auto dest: writeVersion_more)
  qed (use m1 in simp_all)
qed

lemma clearMigration_more: "clearMigration E w = (r, w') \<Longrightarrow> dmgr.more w' = dmgr.more w"
  by (auto simp: clearMigration_def storeAcquire_def storeDeleteKey_def storeRelease_def Let_def split: if_splits)

lemma releaseService_more [simp]: "dmgr.more (releaseService w) = dmgr.more w"
  by (simp add: releaseService_def)

lemma init_more:
  assumes "init E srv w = Some (r, w')"
  shows "dmgr.more w' = dmgr.more w"
proof (cases "srv")
  case False
  with assms show ?thesis by (simp add: init_def)
next
  case srv: True
  define v where "v = emit EvShellAddRef (w\<lparr>service := True\<rparr>)"
  have v: "dmgr.more v = dmgr.more w" by (simp add: v_def)
  obtain vr s w1 where rd: "readMigrationVersionFromStorage E v = (vr, s, w1)" by (metis prod_cases3)
  obtain sr w2 where up: "updateCacheFromStorage E (w1\<lparr>isMigrated := True\<rparr>) = (sr, w2)" by fastforce
  obtain sr' u1 where up': "updateCacheFromStorage E v = (sr', u1)" by fastforce
  obtain dr u2 where dv: "updateCacheFromDevice E False u1 = (dr, u2)" by fastforce
  show ?thesis
  proof (cases "e_migration E")
    case True
    then have "initMigrationBuild E v = (r, w')" using assms srv by (simp add: init_def v_def)
    then show ?thesis
      using rd up readVersion_more [OF rd] updateCacheFromStorage_more [OF up] v
      by (auto simp: initMigrationBuild_def Let_def split: if_splits)
  next
    case False
    then have "initPlainBuild E v = Some (r, w')" using assms srv by (simp add: init_def v_def)
    then show ?thesis
      using up' dv updateCacheFromStorage_more [OF up'] updateCacheFromDevice_more [OF dv] v
      by (auto simp: initPlainBuild_def Let_def split: if_splits elim!: bind_SomeE
          dest!: writeStorage_io io_dmgr_more)
  qed
qed

subsection \<open>The invariant\<close>

definition scan_ok :: "'z plugin_scheme \<Rightarrow> bool" where
  "scan_ok w \<longleftrightarrow> (discoveryRunning w \<longleftrightarrow> discoveryTimer w \<noteq> None)"

definition plugin_inv :: "'z plugin_scheme \<Rightarrow> bool" where
  "plugin_inv w \<longleftrightarrow> registry_inv w \<and> scan_ok w"

lemma scan_ok_more: "dmgr.more w' = dmgr.more w \<Longrightarrow> scan_ok w' = scan_ok w"
  using plugin_fields_more(1,2) [of w' w] by (simp add: scan_ok_def)

lemma emit_plugin_fields [simp]:
  "discoveryRunning (emit e w) = discoveryRunning w" "discoveryTimer (emit e w) = discoveryTimer w"
  "powerManager (emit e w) = powerManager w" "instanceSet (emit e w) = instanceSet w"
  "registeredMethods (emit e w) = registeredMethods w"
  by (simp_all add: emit_def)

text \<open>A step through the registry: its invariant is kept and the rest is untouched.\<close>

lemma plugin_inv_registry:
  "plugin_inv w \<Longrightarrow> registry_inv w' \<Longrightarrow> dmgr.more w' = dmgr.more w \<Longrightarrow> plugin_inv w'"
  using scan_ok_more [of w' w] by (simp add: plugin_inv_def)

lemma plugin_inv_emit:
  "plugin_inv w \<Longrightarrow> store_refs e = 0 \<Longrightarrow> shell_refs e = 0 \<Longrightarrow> plugin_inv (emit e w)"
  by (simp add: plugin_inv_def scan_ok_def registry_inv_emit)

lemma plugin_inv_btCall: "plugin_inv w \<Longrightarrow> btCall E c w = (rc, w') \<Longrightarrow> plugin_inv w'"
  by (auto simp: btCall_def Let_def intro: plugin_inv_emit)

lemma plugin_inv_notify: "plugin_inv w \<Longrightarrow> plugin_inv (sendNotify ev ps w)"
  by (simp add: sendNotify_def plugin_inv_emit)

lemma registry_inv_plugin_fields [simp]:
  "registry_inv (w\<lparr>discoveryRunning := b\<rparr>) = registry_inv w"
  "registry_inv (w\<lparr>discoveryTimer := t\<rparr>) = registry_inv w"
  "registry_inv (w\<lparr>powerManager := b\<rparr>) = registry_inv w"
  "registry_inv (w\<lparr>instanceSet := b\<rparr>) = registry_inv w"
  "registry_inv (w\<lparr>registeredMethods := ms\<rparr>) = registry_inv w"
  by (simp_all add: registry_inv_def)

lemma plugin_inv_fields [simp]:
  "plugin_inv (w\<lparr>powerManager := b\<rparr>) = plugin_inv w"
  "plugin_inv (w\<lparr>instanceSet := b\<rparr>) = plugin_inv w"
  "plugin_inv (w\<lparr>registeredMethods := ms\<rparr>) = plugin_inv w"
  by (simp_all add: plugin_inv_def scan_ok_def)

subsection \<open>Discovery\<close>

text \<open>Stopping ends a scan and its timer; it asks only for the registry's invariant.\<close>

lemma stopDeviceDiscovery_running:
  assumes "discoveryRunning w" "stopDeviceDiscovery E w = (ok, w')"
  shows "\<not> discoveryRunning w' \<and> discoveryTimer w' = None \<and> (registry_inv w \<longrightarrow> registry_inv w') \<and>
    trace w' = trace w @ [EvTimerRevoke, EvBT (StopDeviceDiscovery BTRMGR_DEVICE_OP_TYPE_AUDIO_OUTPUT)
      (if ok then BTRMGR_RESULT_SUCCESS else e_bt E (trace w @ [EvTimerRevoke]) (StopDeviceDiscovery BTRMGR_DEVICE_OP_TYPE_AUDIO_OUTPUT))]"
  using assms by (auto simp: stopDeviceDiscovery_def stopDiscoveryTimer_def btCall_def Let_def registry_inv_emit)

lemma stopDeviceDiscovery_idle: "\<not> discoveryRunning w \<Longrightarrow> stopDeviceDiscovery E w = (False, w)"
  by (simp add: stopDeviceDiscovery_def)

lemma stopDeviceDiscovery_inv: "plugin_inv w \<Longrightarrow> stopDeviceDiscovery E w = (ok, w') \<Longrightarrow> plugin_inv w'"
  by (cases "discoveryRunning w")
    (auto simp: stopDeviceDiscovery_idle plugin_inv_def scan_ok_def dest: stopDeviceDiscovery_running)

lemma startDiscoveryTimer_fields:
  "discoveryTimer (startDiscoveryTimer ms w) = Some ms"
  "discoveryRunning (startDiscoveryTimer ms w) = discoveryRunning w"
  "registry_inv w \<Longrightarrow> registry_inv (startDiscoveryTimer ms w)"
  "trace (startDiscoveryTimer ms w) = trace w @ [EvTimerRevoke, EvTimerSchedule ms]"
  by (simp_all add: startDiscoveryTimer_def stopDiscoveryTimer_def Let_def registry_inv_emit)

lemma startDeviceDiscovery_inv:
  assumes "plugin_inv w" "startDeviceDiscovery E timeout p w = (s, w')"
  shows "plugin_inv w'"
proof (cases "discoveryRunning w")
  case True
  with assms show ?thesis by (simp add: startDeviceDiscovery_def)
next
  case False
  obtain rc w1 where b1: "btCall E GetNumberOfAdapters w = (rc, w1)" by fastforce
  obtain rc2 w2 where b2: "btCall E (StartDeviceDiscovery (discoveryType E p)) w1 = (rc2, w2)" by fastforce
  have i1: "plugin_inv w1" using assms(1) b1 by (rule plugin_inv_btCall)
  then have i2: "registry_inv w2" using plugin_inv_btCall [OF i1 b2] by (simp add: plugin_inv_def)
  obtain ok w4 where st: "stopDeviceDiscovery E (w2\<lparr>discoveryRunning := True\<rparr>) = (ok, w4)" by fastforce
  have s4: "plugin_inv w4" using stopDeviceDiscovery_running [OF _ st] i2 by (simp add: plugin_inv_def scan_ok_def)
  have t4: "plugin_inv (startDiscoveryTimer ms (w2\<lparr>discoveryRunning := True\<rparr>))" for ms
    using i2 by (simp add: plugin_inv_def scan_ok_def startDiscoveryTimer_fields)
  show ?thesis
    using assms(2) False b1 b2 st i1 s4 t4 by (auto simp: startDeviceDiscovery_def Let_def split: if_splits)
qed

text \<open>When the timer fires, its entry is gone; the scan is stopped and the invariant holds again.\<close>

lemma Timed_inv:
  assumes "plugin_inv w" "discoveryTimer w \<noteq> None"
  shows "plugin_inv (Timed E w) \<and> \<not> discoveryRunning (Timed E w) \<and> discoveryTimer (Timed E w) = None"
proof -
  have run: "discoveryRunning w" using assms by (simp add: plugin_inv_def scan_ok_def)
  obtain ok w' where st: "stopDeviceDiscovery E (w\<lparr>discoveryTimer := None\<rparr>) = (ok, w')" by fastforce
  have "\<not> discoveryRunning w' \<and> discoveryTimer w' = None \<and> registry_inv w'"
    using stopDeviceDiscovery_running [OF _ st] run assms(1) by (simp add: plugin_inv_def)
  with st show ?thesis by (simp add: Timed_def onDiscoveryTimer_def plugin_inv_def scan_ok_def)
qed

subsection \<open>Connections and power modes\<close>

lemma setDeviceConnection_inv:
  assumes "plugin_inv w" "setDeviceConnection E i c t w = Some (ok, w')"
  shows "plugin_inv w'"
proof -
  obtain rc w1 where b: "btCall E (connectionCall E (handle_of i) c t) w = (rc, w1)" by fastforce
  have i1: "plugin_inv w1" using assms(1) b by (rule plugin_inv_btCall)
  from assms(2) b consider "w' = w1" | "setLastConnectTimeUtc E (to_string_ull (handle_of i)) w1 = Some w'"
    by (auto simp: setDeviceConnection_def Let_def split: if_splits elim!: bind_SomeE)
  then show ?thesis
  proof cases
    case 2
    with i1 show ?thesis
      by (intro plugin_inv_registry [OF i1]) (auto simp: plugin_inv_def intro: setLastConnectTimeUtc_inv registry_ops_more)
  qed (use i1 in simp)
qed

lemma setDevicePairing_inv:
  assumes "plugin_inv w" "setDevicePairing E i p w = Some (ok, w')"
  shows "plugin_inv w'"
proof -
  obtain rc w1 where b: "btCall E (if p then PairDevice (handle_of i) else UnpairDevice (handle_of i)) w = (rc, w1)"
    by fastforce
  have i1: "plugin_inv w1" using assms(1) b by (rule plugin_inv_btCall)
  from assms(2) b consider "w' = w1" | r where "addDevice E (to_string_ull (handle_of i)) w1 = Some (r, w')"
    | r where "removeDevice E (to_string_ull (handle_of i)) w1 = Some (r, w')"
    by (auto simp: setDevicePairing_def Let_def split: if_splits elim!: bind_SomeE)
  moreover have "registry_inv w1" using i1 by (simp add: plugin_inv_def)
  ultimately show ?thesis
    using i1 by cases (blast intro: plugin_inv_registry [OF i1] addDevice_inv removeDevice_inv registry_ops_more)+
qed

lemma map_snd_inv:
  "map_option snd (setDeviceConnection E i c t w) = Some w' \<Longrightarrow> plugin_inv w \<Longrightarrow> plugin_inv w'"
  by (auto intro: setDeviceConnection_inv)

lemma forEachDevice_inv:
  assumes "\<And>e w w'. plugin_inv w \<Longrightarrow> f e w = Some w' \<Longrightarrow> plugin_inv w'"
  shows "forEachDevice f es w = Some w' \<Longrightarrow> plugin_inv w \<Longrightarrow> plugin_inv w'"
  by (induction es arbitrary: w) (auto elim!: bind_SomeE intro: assms)

lemma setBluetoothEnabled_inv: "plugin_inv w \<Longrightarrow> setBluetoothEnabled E s w = (ok, w') \<Longrightarrow> plugin_inv w'"
  by (auto simp: setBluetoothEnabled_def split: if_splits prod.splits dest: plugin_inv_btCall)

lemma onPowerModeChanged_inv:
  fixes w :: "'a plugin_scheme"
  assumes "plugin_inv w" "onPowerModeChanged E cur new w = Some w'"
  shows "plugin_inv w'"
proof -
  have off: "plugin_inv v \<Longrightarrow> powerOffDevice E e v = Some v' \<Longrightarrow> plugin_inv v'" for e and v v' :: "'a plugin_scheme"
    by (auto simp: powerOffDevice_def split: prod.splits if_splits sum.splits intro: setDeviceConnection_inv)
  have sleep: "plugin_inv v \<Longrightarrow> deepSleepDevice E e v = Some v' \<Longrightarrow> plugin_inv v'" for e and v v' :: "'a plugin_scheme"
    by (auto simp: deepSleepDevice_def split: prod.splits if_splits sum.splits intro: setDeviceConnection_inv)
  have on: "plugin_inv (snd (setBluetoothEnabled E s w))" for s
    using setBluetoothEnabled_inv [OF assms(1)] by (metis prod.collapse)
  let ?es = "e_order E (getPairedDeviceInfos w)"
  have "onPowerModeChanged E cur new w \<in> {Some w, Some (snd (setBluetoothEnabled E ''BLUETOOTH_ENABLED'' w)),
      forEachDevice (powerOffDevice E) ?es w, forEachDevice (deepSleepDevice E) ?es w}"
    by (simp add: onPowerModeChanged_def)
  then consider "w' = w" | "w' = snd (setBluetoothEnabled E ''BLUETOOTH_ENABLED'' w)"
    | "forEachDevice (powerOffDevice E) ?es w = Some w'" | "forEachDevice (deepSleepDevice E) ?es w = Some w'"
    unfolding assms(2) by fastforce
  then show ?thesis
  proof cases
    case 3
    from forEachDevice_inv [OF off this assms(1)] show ?thesis .
  next
    case 4
    from forEachDevice_inv [OF sleep this assms(1)] show ?thesis .
  qed (use assms(1) on in simp_all)
qed

subsection \<open>The registry's operations, on the plugin\<close>

lemma plugin_registry_ops:
  assumes inv: "plugin_inv w"
  shows "setAutoConnect E k b w = Some (r, w') \<Longrightarrow> plugin_inv w'"
    and "setLastConnectTimeUtc E k w = Some w' \<Longrightarrow> plugin_inv w'"
    and "setLastVolumeSetting E k v w = Some (r, w') \<Longrightarrow> plugin_inv w'"
    and "addDevice E k w = Some (r, w') \<Longrightarrow> plugin_inv w'"
    and "removeDevice E k w = Some (r, w') \<Longrightarrow> plugin_inv w'"
    and "performMigration E w = Some (r, w') \<Longrightarrow> plugin_inv w'"
    and "clearMigration E w = (r, w') \<Longrightarrow> plugin_inv w'"
    and "init E srv w = Some (r, w') \<Longrightarrow> \<not> service w \<Longrightarrow> plugin_inv w'"
proof -
  note reg = plugin_inv_registry [OF inv]
  have ri: "registry_inv w" using inv by (simp add: plugin_inv_def)
  show "setAutoConnect E k b w = Some (r, w') \<Longrightarrow> plugin_inv w'"
    by (rule reg [OF setAutoConnect_inv [OF ri] registry_ops_more(1)])
  show "setLastConnectTimeUtc E k w = Some w' \<Longrightarrow> plugin_inv w'"
    by (rule reg [OF setLastConnectTimeUtc_inv [OF ri] registry_ops_more(2)])
  show "setLastVolumeSetting E k v w = Some (r, w') \<Longrightarrow> plugin_inv w'"
    by (rule reg [OF setLastVolumeSetting_inv [OF ri] registry_ops_more(3)])
  show "addDevice E k w = Some (r, w') \<Longrightarrow> plugin_inv w'"
    by (rule reg [OF addDevice_inv [OF ri] registry_ops_more(4)])
  show "removeDevice E k w = Some (r, w') \<Longrightarrow> plugin_inv w'"
    by (rule reg [OF removeDevice_inv [OF ri] registry_ops_more(5)])
  show "performMigration E w = Some (r, w') \<Longrightarrow> plugin_inv w'"
    by (rule reg [OF performMigration_inv [OF ri] performMigration_more])
  show "clearMigration E w = (r, w') \<Longrightarrow> plugin_inv w'"
    by (rule reg [OF clearMigration_inv [OF ri] clearMigration_more])
  show "plugin_inv w'" if "init E srv w = Some (r, w')" "\<not> service w"
    using reg init_inv [OF ri that(2,1)] init_more [OF that(1)] by blast
qed

end
