(* ===== verification/PluginMachine.thy ===== *)
theory PluginMachine
  imports PluginCorrect
begin

section \<open>Every entry point keeps the plugin's invariant\<close>

text \<open>
  The JSON-RPC methods, the events and the life cycle, one preservation lemma each, and the
  machine of the whole plugin as an interpretation of \<open>invariant_machine\<close>.
\<close>

subsection \<open>Calls to BTRMGR\<close>

lemma bt_ops_inv:
  assumes inv: "plugin_inv w"
  shows "setBluetoothDiscoverable E b t w = (ok, w') \<Longrightarrow> plugin_inv w'"
    and "setBluetoothProperties E ps w = (ok, w') \<Longrightarrow> plugin_inv w'"
    and "getBluetoothProperties E w = (ok, response, w') \<Longrightarrow> plugin_inv w'"
    and "isAdapterDiscoverable E w = (ok, w') \<Longrightarrow> plugin_inv w'"
    and "getStatusSupport E w = (status, w') \<Longrightarrow> plugin_inv w'"
    and "getDiscoveredDevices E w = (js, w') \<Longrightarrow> plugin_inv w'"
    and "getPairedDevices E w = (js, w') \<Longrightarrow> plugin_inv w'"
    and "getConnectedDevices E w = (js, w') \<Longrightarrow> plugin_inv w'"
    and "setAudioStream E i s w = (ok, w') \<Longrightarrow> plugin_inv w'"
    and "setAudioControlCommand E i s w = (ok, w') \<Longrightarrow> plugin_inv w'"
    and "setDeviceVolumeMuteProperties E i s v m w = (ok, w') \<Longrightarrow> plugin_inv w'"
    and "getDeviceVolumeMuteProperties E i s w = (ob, w') \<Longrightarrow> plugin_inv w'"
    and "setEventResponse E i s s' w = (ok, w') \<Longrightarrow> plugin_inv w'"
    and "getDeviceInfo E i w = (ob, w') \<Longrightarrow> plugin_inv w'"
    and "getMediaTrackInfo E i w = (ob, w') \<Longrightarrow> plugin_inv w'"
  using inv plugin_inv_emit [OF plugin_inv_emit [OF inv]] plugin_inv_emit [OF inv]
  by (auto simp: setBluetoothDiscoverable_def setBluetoothProperties_def getBluetoothProperties_def
      isAdapterDiscoverable_def getStatusSupport_def getDiscoveredDevices_def getPairedDevices_def
      getConnectedDevices_def setAudioStream_def setAudioControlCommand_def setDeviceVolumeMuteProperties_def
      getDeviceVolumeMuteProperties_def setEventResponse_def getDeviceInfo_def getMediaTrackInfo_def
      btCall_def Let_def split: if_splits option.splits prod.splits)

subsection \<open>JSON-RPC\<close>

lemma returns_inv: "returns ob p = Some (r, w') \<Longrightarrow> p = (ok, v) \<Longrightarrow> plugin_inv v \<Longrightarrow> plugin_inv w'"
  by (simp add: returns_def)

lemma returnsLater_inv:
  "returnsLater p = Some (r, w') \<Longrightarrow> (\<And>ok v. p = Some (ok, v) \<Longrightarrow> plugin_inv v) \<Longrightarrow> plugin_inv w'"
  by (auto simp: returnsLater_def elim!: bind_SomeE)

lemmas device_wrappers = connectWrapper_def disconnectWrapper_def connectionWrapper_def pairWrapper_def
  unpairWrapper_def getDeviceInfoWrapper_def setAudioStreamWrapper_def sendAudioPlaybackCommandWrapper_def
  getMediaTrackInfoWrapper_def getDeviceVolumeMuteInfoWrapper_def setDeviceVolumeMuteInfoWrapper_def
  setEventResponseWrapper_def

lemmas adapter_wrappers = getApiVersionNumber_def startScanWrapper_def stopScanWrapper_def
  isDiscoverableWrapper_def setDiscoverableWrapper_def enableWrapper_def disableWrapper_def
  getNameWrapper_def setNameWrapper_def getDiscoveredDevicesWrapper_def getPairedDevicesWrapper_def
  getConnectedDevicesWrapper_def

lemmas registry_wrappers = setAutoConnectWrapper_def getAutoConnectWrapper_def performMigrationWrapper_def
  clearMigrationWrapper_def

definition keeps_inv :: "'z plugin_scheme rpc \<Rightarrow> bool" where
  "keeps_inv m \<longleftrightarrow> (\<forall>ps w r w'. plugin_inv w \<longrightarrow> m ps w = Some (r, w') \<longrightarrow> plugin_inv w')"

lemma keeps_invI: "(\<And>ps w r w'. plugin_inv w \<Longrightarrow> m ps w = Some (r, w') \<Longrightarrow> plugin_inv w') \<Longrightarrow> keeps_inv m"
  by (simp add: keeps_inv_def)

lemma adapter_wrappers_inv:
  "keeps_inv (getApiVersionNumber E)" "keeps_inv (startScanWrapper E)" "keeps_inv (stopScanWrapper E)"
  "keeps_inv (isDiscoverableWrapper E)" "keeps_inv (setDiscoverableWrapper E)" "keeps_inv (enableWrapper E)"
  "keeps_inv (disableWrapper E)" "keeps_inv (getNameWrapper E)" "keeps_inv (setNameWrapper E)"
  "keeps_inv (getDiscoveredDevicesWrapper E)" "keeps_inv (getPairedDevicesWrapper E)"
  "keeps_inv (getConnectedDevicesWrapper E)"
  by (intro keeps_invI; auto simp: adapter_wrappers returns_def Let_def
      split: if_splits option.splits prod.splits
      dest: bt_ops_inv startDeviceDiscovery_inv stopDeviceDiscovery_inv setBluetoothEnabled_inv;
      metis stopDeviceDiscovery_inv prod.collapse)+

lemma device_wrappers_inv:
  "keeps_inv (connectWrapper E)" "keeps_inv (disconnectWrapper E)" "keeps_inv (pairWrapper E)"
  "keeps_inv (unpairWrapper E)" "keeps_inv (getDeviceInfoWrapper E)" "keeps_inv (setAudioStreamWrapper E)"
  "keeps_inv (sendAudioPlaybackCommandWrapper E)" "keeps_inv (getMediaTrackInfoWrapper E)"
  "keeps_inv (getDeviceVolumeMuteInfoWrapper E)" "keeps_inv (setEventResponseWrapper E)"
  by (intro keeps_invI; auto simp: device_wrappers returns_def returnsLater_def Let_def
      split: id_param.splits option.splits prod.splits elim!: bind_SomeE
      dest: bt_ops_inv setDeviceConnection_inv setDevicePairing_inv)+

lemma setDeviceVolumeMuteInfoWrapper_inv: "keeps_inv (setDeviceVolumeMuteInfoWrapper E)"
proof (rule keeps_invI)
  fix ps and w :: "'z plugin_scheme" and r w'
  assume inv: "plugin_inv w" and res: "setDeviceVolumeMuteInfoWrapper E ps w = Some (r, w')"
  from res consider "w' = w"
    | i t vol mute ok where "setDeviceVolumeMuteProperties E i t vol mute w = (ok, w')"
    | i t vol mute ok w1 s r where "setDeviceVolumeMuteProperties E i t vol mute w = (ok, w1)"
        "setLastVolumeSetting E s (uint vol) w1 = Some (r, w')"
    by (fastforce simp: setDeviceVolumeMuteInfoWrapper_def Let_def
        split: id_param.splits option.splits if_splits prod.splits elim!: bind_SomeE)
  then show "plugin_inv w'"
  proof cases
    case 3
    from plugin_registry_ops(3) [OF bt_ops_inv(11) [OF inv 3(1)] 3(2)] show ?thesis .
  qed (use inv bt_ops_inv(11) [OF inv] in blast)+
qed

lemma registry_wrappers_inv:
  "keeps_inv (setAutoConnectWrapper E)" "keeps_inv (getAutoConnectWrapper E)"
  "keeps_inv (performMigrationWrapper E)" "keeps_inv (clearMigrationWrapper E)"
  by (intro keeps_invI; auto simp: registry_wrappers notifyAutoConnectStatusChanged_def Let_def
      split: option.splits prod.splits if_splits elim!: bind_SomeE
      intro!: plugin_inv_notify dest: plugin_registry_ops)+

lemma invoke_inv:
  assumes "plugin_inv w" "invoke E name = Some m" "m ps w = Some (r, w')"
  shows "plugin_inv w'"
proof -
  have "\<forall>p \<in> set (methodTable E). keeps_inv (snd p)"
    by (auto simp: methodTable_def adapter_wrappers_inv device_wrappers_inv registry_wrappers_inv
        setDeviceVolumeMuteInfoWrapper_inv)
  moreover have "(name, m) \<in> set (methodTable E)" using assms(2) by (simp add: invoke_def map_of_SomeD)
  ultimately have "keeps_inv m" by fastforce
  with assms show ?thesis by (simp add: keeps_inv_def)
qed

subsection \<open>Events\<close>

lemma answerConnectRequest_inv:
  assumes "plugin_inv w" "answerConnectRequest E d b w = Some (t, w')"
  shows "plugin_inv w'"
proof -
  obtain ok w1 where r: "setEventResponse E (sint (m_deviceHandle d)) EVT_CONNECTION_REQUEST
      (if b then ''ACCEPTED'' else ''REJECTED'') w = (ok, w1)" by fastforce
  have i1: "plugin_inv w1" using bt_ops_inv(13) [OF assms(1) r] .
  with assms(2) r show ?thesis
    by (auto simp: answerConnectRequest_def Let_def split: if_splits option.splits elim!: bind_SomeE
        dest: setDeviceConnection_inv)
qed

lemma notifyEventWrapper_cases:
  assumes "notifyEventWrapper E msg w = Some (t, w')"
  obtains (answered) "m_eventType msg = BTRMGR_EVENT_RECEIVED_EXTERNAL_CONNECT_REQUEST" "e_migration E" "isMigrated w"
      "um_find (pairedDeviceCache w) (deviceId (m_externalDevice msg)) \<noteq> None"
      "answerConnectRequest E (m_externalDevice msg)
         (snd (getAutoConnect E (deviceId (m_externalDevice msg)) AUTO_CONNECT_STATUS_UNSET w) = AUTO_CONNECT_STATUS_ENABLED) w
       = Some (t, w')"
  | (thrown) "nullTypeThrows E msg" "t = Some null_c_string" "w' = w"
  | (silent) "t = None" "notification E msg w = None" "w' = w"
  | (notified) ev ps where "t = None" "notification E msg w = Some (ev, ps)" "w' = sendNotify ev ps w"
proof -
  obtain r st where g: "getAutoConnect E (deviceId (m_externalDevice msg)) AUTO_CONNECT_STATUS_UNSET w = (r, st)" by fastforce
  show thesis
  proof (cases "m_eventType msg = BTRMGR_EVENT_RECEIVED_EXTERNAL_CONNECT_REQUEST \<and> e_migration E \<and> isMigrated w \<and> r = ERROR_NONE")
    case True
    moreover from this g have "um_find (pairedDeviceCache w) (deviceId (m_externalDevice msg)) \<noteq> None"
      by (auto simp: getAutoConnect_def getPairedDeviceInfo_def split: option.splits)
    ultimately show thesis using assms g by (intro answered) (simp_all add: notifyEventWrapper_def)
  next
    case False
    then have "notifyEventWrapper E msg w = (if nullTypeThrows E msg then Some (Some null_c_string, w)
        else case notification E msg w of None \<Rightarrow> Some (None, w) | Some (ev, ps) \<Rightarrow> Some (None, sendNotify ev ps w))"
      unfolding notifyEventWrapper_def Let_def g prod.case by (simp only: simp_thms if_False)
    note eq = this [unfolded assms]
    show thesis
    proof (cases "nullTypeThrows E msg")
      case True
      then show thesis using eq by (intro thrown) simp_all
    next
      case False
      show thesis
      proof (cases "notification E msg w")
        case None
        then show thesis using eq False by (intro silent) simp_all
      next
        case (Some p)
        then show thesis using eq False by (cases p) (auto intro: notified)
      qed
    qed
  qed
qed

lemma notifyEventWrapper_inv:
  assumes "plugin_inv w" "notifyEventWrapper E msg w = Some (t, w')"
  shows "plugin_inv w'"
  using assms(2)
  by (cases rule: notifyEventWrapper_cases) (use assms(1) in \<open>auto intro: answerConnectRequest_inv plugin_inv_notify\<close>)

lemma eventCallback_inv:
  "plugin_inv w \<Longrightarrow> bluetoothSrv_EventCallback E msg w = Some (r, w') \<Longrightarrow> plugin_inv w'"
  by (auto simp: bluetoothSrv_EventCallback_def split: if_splits elim!: bind_SomeE dest: notifyEventWrapper_inv)

subsection \<open>Life cycle\<close>

lemma fold_emit_inv:
  "(\<forall>n \<in> set ns. store_refs (f n) = 0 \<and> shell_refs (f n) = 0) \<Longrightarrow> plugin_inv w \<Longrightarrow> plugin_inv (fold (\<lambda>n. emit (f n)) ns w)"
  by (induction ns arbitrary: w) (auto intro: plugin_inv_emit)

lemma fold_emit_fields:
  "service (fold (\<lambda>n. emit (f n)) ns w) = service w" "isMigrated (fold (\<lambda>n. emit (f n)) ns w) = isMigrated w"
  by (induction ns arbitrary: w) simp_all

lemma registerMethods_inv: "plugin_inv w \<Longrightarrow> plugin_inv (registerMethods E w)"
  by (simp add: registerMethods_def Let_def fold_emit_inv)

lemma acquirePowerManager_inv:
  assumes "plugin_inv w" "acquirePowerManager E w = Some w'"
  shows "plugin_inv w'"
  using assms
  by (auto simp: acquirePowerManager_def Let_def plugin_inv_emit split: if_splits prod.splits
      elim!: onPowerModeChanged_inv [rotated] intro!: plugin_inv_emit)

text \<open>Before the migration state is known a power mode change does nothing.\<close>

lemma onPowerModeChanged_unmigrated: "\<not> isMigrated w \<Longrightarrow> onPowerModeChanged E cur new w = Some w"
  by (simp add: onPowerModeChanged_def)

lemma acquirePowerManager_unmigrated:
  assumes "\<not> isMigrated w" "acquirePowerManager E w = Some w'"
  shows "service w' = service w \<and> isMigrated w' = isMigrated w \<and> pairedDeviceCache w' = pairedDeviceCache w \<and>
    (\<exists>es. trace w' = trace w @ es \<and> (\<forall>ev \<in> set es. \<forall>c rc. ev \<noteq> EvBT c rc))"
  using assms
  by (auto simp: acquirePowerManager_def Let_def onPowerModeChanged_unmigrated split: if_splits prod.splits)

lemma acquirePowerManager_total: "\<not> isMigrated w \<Longrightarrow> \<exists>w'. acquirePowerManager E w = Some w'"
  by (auto simp: acquirePowerManager_def Let_def onPowerModeChanged_unmigrated split: prod.splits)

lemma disconnectOne_inv: "plugin_inv w \<Longrightarrow> disconnectOne E v w = Some w' \<Longrightarrow> plugin_inv w'"
  by (auto simp: disconnectOne_def Let_def split: if_splits sum.splits intro: setDeviceConnection_inv)

lemma disconnectAll_inv: "plugin_inv w \<Longrightarrow> disconnectAll E vs w = Some w' \<Longrightarrow> plugin_inv w'"
  by (induction vs arbitrary: w) (auto elim!: bind_SomeE dest: disconnectOne_inv)

lemma disconnectExternally_inv:
  "plugin_inv w \<Longrightarrow> disconnectExternallyConnectedDevices E w = Some w' \<Longrightarrow> plugin_inv w'"
  by (auto simp: disconnectExternallyConnectedDevices_def split: prod.splits
      dest: bt_ops_inv(8) disconnectAll_inv)

lemma Initialize_inv:
  assumes inv: "plugin_inv w" and idle: "\<not> service w" "\<not> isMigrated w"
    and res: "Initialize E srv w = Some (msg, w')"
  shows "plugin_inv w'"
proof -
  let ?w1 = "emit EvIarmInit (registerMethods E w)"
  have i1: "plugin_inv ?w1" using registerMethods_inv [OF inv] by (rule plugin_inv_emit) simp_all
  have f1: "\<not> service ?w1" "\<not> isMigrated ?w1"
    using idle by (simp_all add: registerMethods_def Let_def fold_emit_fields)
  obtain rc w2 where b2: "btCall E RegisterForCallbacks ?w1 = (rc, w2)" by fastforce
  obtain rc3 w3 where b3: "btCall E RegisterEventCallback w2 = (rc3, w3)" by fastforce
  have i3: "plugin_inv w2" "plugin_inv w3"
    using plugin_inv_btCall [OF i1 b2] plugin_inv_btCall [OF plugin_inv_btCall [OF i1 b2] b3] by auto
  have f3: "\<not> service w3" "\<not> isMigrated w3"
    using f1 b2 b3 by (auto simp: btCall_def Let_def)
  from res b2 b3 consider "w' = w2" | w4 r w5 where "acquirePowerManager E w3 = Some w4" "init E srv w4 = Some (r, w5)"
      "w' = w5 \<or> disconnectExternallyConnectedDevices E w5 = Some w'"
    by (auto simp: Initialize_def Let_def split: if_splits elim!: bind_SomeE)
  then show ?thesis
  proof cases
    case 2
    have "plugin_inv w4" using i3(2) 2(1) by (rule acquirePowerManager_inv)
    moreover have "\<not> service w4" using acquirePowerManager_unmigrated [OF f3(2) 2(1)] f3(1) by simp
    ultimately have "plugin_inv w5" using plugin_registry_ops(8) 2(2) by blast
    with 2(3) show ?thesis by (auto intro: disconnectExternally_inv)
  qed (use i3 in simp)
qed

lemma deinit_plugin_inv: "plugin_inv w \<Longrightarrow> plugin_inv (deinit w)"
  by (simp add: deinit_def plugin_inv_registry [of w] releaseService_inv plugin_inv_def)
    (simp add: releaseService_def scan_ok_def)

lemma Deinitialize_inv: "plugin_inv w \<Longrightarrow> plugin_inv (Deinitialize E w)"
  using deinit_plugin_inv [of w]
  by (auto simp: Deinitialize_def Let_def btCall_def intro!: plugin_inv_emit)

subsection \<open>The machine\<close>

datatype plugin_op = Request string json_object | BtEvent BTRMGR_EventMessage
  | PowerChange PowerState PowerState | TimerFires | Start bool | Stop

fun plugin_enabled :: "env \<Rightarrow> plugin_op \<Rightarrow> plugin \<Rightarrow> bool" where
  "plugin_enabled E (Request name ps) w \<longleftrightarrow> invoke E name \<noteq> (None :: plugin rpc option)"
| "plugin_enabled E TimerFires w \<longleftrightarrow> discoveryTimer w \<noteq> None"
| "plugin_enabled E (Start srv) w \<longleftrightarrow> \<not> service w \<and> \<not> isMigrated w"
| "plugin_enabled E _ w \<longleftrightarrow> True"

fun plugin_step :: "env \<Rightarrow> plugin_op \<Rightarrow> 'z plugin_scheme \<Rightarrow> 'z plugin_scheme option" where
  "plugin_step E (Request name ps) w = (case invoke E name of None \<Rightarrow> Some w | Some m \<Rightarrow> map_option snd (m ps w))"
| "plugin_step E (BtEvent msg) w = map_option snd (bluetoothSrv_EventCallback E msg w)"
| "plugin_step E (PowerChange cur new) w = onPowerModeChanged E cur new w"
| "plugin_step E TimerFires w = Some (Timed E w)"
| "plugin_step E (Start srv) w = map_option snd (Initialize E srv w)"
| "plugin_step E Stop w = Some (Deinitialize E w)"

fun_cases plugin_stepE: "plugin_step E op w = Some w'"

interpretation whole: invariant_machine "plugin_enabled E" "plugin_step E" plugin_inv for E
proof
  fix w op w'
  assume "plugin_inv w" "plugin_enabled E op w" "plugin_step E op w = Some w'"
  from this(3,1,2) show "plugin_inv w'"
    by (elim plugin_stepE) (auto simp: eq_commute [of "Some w'"] split: option.splits intro: invoke_inv eventCallback_inv onPowerModeChanged_inv
        Timed_inv [THEN conjunct1] Initialize_inv Deinitialize_inv)
qed

definition plugin0 :: "files \<Rightarrow> plugin" where
  "plugin0 f = Bluetooth_ctor \<lparr>trace = [], files = f, service = False, pairedDeviceCache = [], isMigrated = False,
     discoveryRunning = False, discoveryTimer = None, powerManager = False, instanceSet = False,
     registeredMethods = []\<rparr>"

lemma plugin_inv0 [simp]: "plugin_inv (plugin0 f)"
  by (simp add: plugin0_def Bluetooth_ctor_def plugin_inv_def scan_ok_def registry_inv_def)

end
