(* ===== verification/PowerCorrect.thy ===== *)
theory PowerCorrect
  imports PluginMachine
begin

section \<open>What power modes, start-up and pairing make BTRMGR do\<close>

text \<open>
  The BTRMGR calls of the loops over devices, exactly and in order: \<open>bt_calls\<close> reads them
  off the history. A device is disconnected by the call for its type.
\<close>

definition bt_calls :: "trace \<Rightarrow> bt_call list" where
  "bt_calls tr = List.map_filter (\<lambda>ev. case ev of EvBT c rc \<Rightarrow> Some c | _ \<Rightarrow> None) tr"

definition notifications :: "trace \<Rightarrow> string list" where
  "notifications tr = List.map_filter (\<lambda>ev. case ev of EvNotify n ps \<Rightarrow> Some n | _ \<Rightarrow> None) tr"

lemma bt_calls_simps [simp]: "bt_calls [] = []" "bt_calls (tr @ tr') = bt_calls tr @ bt_calls tr'"
  "bt_calls (EvBT c rc # tr) = c # bt_calls tr" "bt_calls (EvNotify n ps # tr) = bt_calls tr"
  by (simp_all add: bt_calls_def map_filter_def)

lemma notifications_simps [simp]: "notifications [] = []"
  "notifications (tr @ tr') = notifications tr @ notifications tr'"
  "notifications (EvBT c rc # tr) = notifications tr" "notifications (EvNotify n ps # tr) = n # notifications tr"
  by (simp_all add: notifications_def map_filter_def)

text \<open>Only BTRMGR was called: these calls were appended, nothing else changed.\<close>

definition only_calls :: "bt_call list \<Rightarrow> 'z plugin_scheme \<Rightarrow> 'z plugin_scheme \<Rightarrow> bool" where
  "only_calls cs w w' \<longleftrightarrow> (\<exists>es. w' = w\<lparr>trace := trace w @ es\<rparr> \<and> bt_calls es = cs \<and>
     (\<forall>ev \<in> set es. \<exists>c rc. ev = EvBT c rc))"

lemma only_calls_refl [simp]: "only_calls [] w w"
  by (auto simp: only_calls_def intro: exI [of _ "[]"])

lemma only_calls_trans:
  assumes "only_calls cs w w'" "only_calls cs' w' w''"
  shows "only_calls (cs @ cs') w w''"
proof -
  from assms obtain es es' where "w' = w\<lparr>trace := trace w @ es\<rparr>" "bt_calls es = cs"
    "w'' = w'\<lparr>trace := trace w' @ es'\<rparr>" "bt_calls es' = cs'"
    "\<forall>ev \<in> set (es @ es'). \<exists>c rc. ev = EvBT c rc"
    unfolding only_calls_def by fastforce
  then show ?thesis unfolding only_calls_def by (intro exI [of _ "es @ es'"]) simp
qed

lemma only_calls_fields:
  assumes "only_calls cs w w'"
  shows "pairedDeviceCache w' = pairedDeviceCache w" "isMigrated w' = isMigrated w" "files w' = files w"
    "service w' = service w" "discoveryRunning w' = discoveryRunning w" "discoveryTimer w' = discoveryTimer w"
  using assms by (auto simp: only_calls_def)

lemma only_calls_btCall: "btCall E c w = (rc, w') \<Longrightarrow> only_calls [c] w w'"
  unfolding only_calls_def
  by (rule exI [of _ "[EvBT c rc]"]) (auto simp: btCall_def Let_def emit_def)

lemma only_calls_trace: "only_calls cs w w' \<Longrightarrow> \<exists>es. trace w' = trace w @ es \<and> bt_calls es = cs \<and> store_contents (trace w') = store_contents (trace w)"
proof -
  assume "only_calls cs w w'"
  then obtain es where es: "w' = w\<lparr>trace := trace w @ es\<rparr>" "bt_calls es = cs" "\<forall>ev \<in> set es. \<exists>c rc. ev = EvBT c rc"
    by (auto simp: only_calls_def)
  have "\<forall>ev \<in> set es. \<not> store_write ev" using es(3) by (auto simp: store_write_def)
  then have "store_contents (trace w @ es) = store_contents (trace w)"
    by (simp add: store_contents_append fold_store_step_id)
  with es show ?thesis by auto
qed

subsection \<open>Disconnecting\<close>

lemma setDeviceConnection_disconnect:
  "\<exists>ok w'. setDeviceConnection E i False t w = Some (ok, w') \<and> only_calls [connectionCall E (handle_of i) False t] w w'"
proof -
  obtain rc w1 where b: "btCall E (connectionCall E (handle_of i) False t) w = (rc, w1)" by fastforce
  then show ?thesis using only_calls_btCall [OF b] by (simp add: setDeviceConnection_def Let_def)
qed

definition disconnectCall :: "env \<Rightarrow> string \<times> BluetoothDeviceInfo \<Rightarrow> bt_call option" where
  "disconnectCall E e = (case stoll (fst e) of Inl x \<Rightarrow> None
     | Inr n \<Rightarrow> Some (connectionCall E (handle_of n) False (deviceType (snd e))))"

definition poweredOff :: "string \<times> BluetoothDeviceInfo \<Rightarrow> bool" where
  "poweredOff e \<longleftrightarrow> deviceType (snd e) \<noteq> HID \<and> autoConnectStatus (snd e) = AUTO_CONNECT_STATUS_DISABLED"

definition putToSleep :: "string \<times> BluetoothDeviceInfo \<Rightarrow> bool" where
  "putToSleep e \<longleftrightarrow> deviceType (snd e) \<noteq> HID"

lemma disconnect_step:
  assumes "(case stoll k of Inl x \<Rightarrow> Some w
     | Inr n \<Rightarrow> map_option snd (setDeviceConnection E n False (deviceType i) w)) = Some w'"
  shows "only_calls (case disconnectCall E (k, i) of None \<Rightarrow> [] | Some c \<Rightarrow> [c]) w w'"
proof (cases "stoll k")
  case (Inl x)
  with assms show ?thesis by (simp add: disconnectCall_def)
next
  case (Inr n)
  obtain ok w1 where "setDeviceConnection E n False (deviceType i) w = Some (ok, w1)"
    and "only_calls [connectionCall E (handle_of n) False (deviceType i)] w w1"
    using setDeviceConnection_disconnect by blast
  with assms Inr show ?thesis by (simp add: disconnectCall_def)
qed

lemma disconnect_step_total:
  "\<exists>w'. (case stoll k of Inl x \<Rightarrow> Some w
     | Inr n \<Rightarrow> map_option snd (setDeviceConnection E n False t w)) = Some w'"
proof (cases "stoll k")
  case (Inr n)
  then show ?thesis using setDeviceConnection_disconnect [of E n t w] by auto
qed simp

text \<open>
  The contract of a loop over the devices: its body disconnects those that satisfy \<open>P\<close> and
  skips the others. Such a loop always ends, with exactly these calls.
\<close>

locale disconnect_loop =
  fixes E :: env
    and f :: "string \<times> BluetoothDeviceInfo \<Rightarrow> 'z plugin_scheme \<Rightarrow> 'z plugin_scheme option"
    and P :: "string \<times> BluetoothDeviceInfo \<Rightarrow> bool"
  assumes body: "f (k, i) w = (if P (k, i) then (case stoll k of Inl x \<Rightarrow> Some w
      | Inr n \<Rightarrow> map_option snd (setDeviceConnection E n False (deviceType i) w)) else Some w)"
begin

lemma loop_calls:
  "\<exists>w'. forEachDevice f es w = Some w' \<and> only_calls (List.map_filter (disconnectCall E) (filter P es)) w w'"
proof (induction es arbitrary: w)
  case Nil
  then show ?case by (simp add: map_filter_def)
next
  case (Cons e es)
  obtain k i where e: "e = (k, i)" by (cases e)
  obtain w1 where st: "f (k, i) w = Some w1"
    using body [of k i w] disconnect_step_total [where k = k and w = w and t = "deviceType i" and E = E]
    by (cases "P (k, i)") auto
  let ?cs = "if P (k, i) then (case disconnectCall E (k, i) of None \<Rightarrow> [] | Some c \<Rightarrow> [c]) else []"
  have c1: "only_calls ?cs w w1"
    using st body [of k i w] disconnect_step [where k = k and w = w and i = i and E = E and w' = w1] by (auto split: if_splits)
  obtain w2 where "forEachDevice f es w1 = Some w2"
    "only_calls (List.map_filter (disconnectCall E) (filter P es)) w1 w2" using Cons.IH [of w1] by blast
  moreover have "List.map_filter (disconnectCall E) (filter P (e # es)) =
      ?cs @ List.map_filter (disconnectCall E) (filter P es)"
    using e by (simp add: map_filter_def split: option.split)
  ultimately show ?case
    using only_calls_trans [OF c1] st e by (intro exI [of _ w2]) (simp del: filter.simps)
qed

end

lemma powerOffDevice_eq:
  "powerOffDevice E (k, i) w = (if poweredOff (k, i) then (case stoll k of Inl x \<Rightarrow> Some w
     | Inr n \<Rightarrow> map_option snd (setDeviceConnection E n False (deviceType i) w)) else Some w)"
  by (simp add: powerOffDevice_def poweredOff_def)

lemma deepSleepDevice_eq:
  "deepSleepDevice E (k, i) w = (if putToSleep (k, i) then (case stoll k of Inl x \<Rightarrow> Some w
     | Inr n \<Rightarrow> map_option snd (setDeviceConnection E n False (deviceType i) w)) else Some w)"
  by (simp add: deepSleepDevice_def putToSleep_def)

interpretation power_off: disconnect_loop E "powerOffDevice E" poweredOff for E
  by unfold_locales (rule powerOffDevice_eq)

interpretation deep_sleep: disconnect_loop E "deepSleepDevice E" putToSleep for E
  by unfold_locales (rule deepSleepDevice_eq)

subsection \<open>Switching on\<close>

lemma pairedDevicesCount_eq:
  "pairedDevicesCount es n = n + of_nat (length (filter putToSleep es))"
  by (induction es n rule: pairedDevicesCount.induct) (auto simp: putToSleep_def algebra_simps)

lemma setBluetoothEnabled_calls:
  "only_calls [SetAdapterPowerStatus True] w (snd (setBluetoothEnabled E ''BLUETOOTH_ENABLED'' w))"
  using only_calls_btCall [of E "SetAdapterPowerStatus True" w] by (simp add: setBluetoothEnabled_def split: prod.split)

text \<open>The calls of a power mode change.\<close>

definition powerCalls :: "env \<Rightarrow> PowerState \<Rightarrow> PowerState \<Rightarrow> 'z plugin_scheme \<Rightarrow> bt_call list" where
  "powerCalls E cur new w =
     (let es = e_order E (pairedDeviceCache w) in
      if \<not> (e_migration E \<and> isMigrated w) \<or> new = cur then []
      else if cur \<in> {POWER_STATE_ON, POWER_STATE_UNKNOWN} \<and> new \<in> set powerOffStates
        then List.map_filter (disconnectCall E) (filter poweredOff es)
      else if new = POWER_STATE_ON then
        (if length (filter putToSleep es) mod 2 ^ 16 = 0 then [] else [SetAdapterPowerStatus True])
      else if new = POWER_STATE_STANDBY_DEEP_SLEEP
        then List.map_filter (disconnectCall E) (filter putToSleep es)
      else [])"

lemma onPowerModeChanged_calls:
  "\<exists>w'. onPowerModeChanged E cur new w = Some w' \<and> only_calls (powerCalls E cur new w) w w'"
proof -
  let ?es = "e_order E (getPairedDeviceInfos w)"
  have count: "0 < pairedDevicesCount ?es 0 \<longleftrightarrow> length (filter putToSleep ?es) mod 2 ^ 16 \<noteq> 0"
    by (simp add: pairedDevicesCount_eq word_greater_zero_iff word_of_nat_eq_0_iff dvd_eq_mod_eq_0)
  show ?thesis
    using power_off.loop_calls [of E ?es w] deep_sleep.loop_calls [of E ?es w]
      setBluetoothEnabled_calls [of w E] count
    by (simp add: onPowerModeChanged_def powerCalls_def getPairedDeviceInfos_def Let_def)
qed


subsection \<open>The table of transitions\<close>

text \<open>
  The power states are finitely many: as an instance of the library's class \<open>enum\<close> a statement
  about all transitions is decided by evaluating it on each.
\<close>

instantiation PowerState :: enum
begin

definition enum_PowerState :: "PowerState list" where
  "enum_PowerState = [POWER_STATE_UNKNOWN, POWER_STATE_OFF, POWER_STATE_STANDBY, POWER_STATE_ON,
     POWER_STATE_STANDBY_LIGHT_SLEEP, POWER_STATE_STANDBY_DEEP_SLEEP]"

definition enum_all_PowerState :: "(PowerState \<Rightarrow> bool) \<Rightarrow> bool" where
  "enum_all_PowerState P = list_all P enum_class.enum"

definition enum_ex_PowerState :: "(PowerState \<Rightarrow> bool) \<Rightarrow> bool" where
  "enum_ex_PowerState P = list_ex P enum_class.enum"

lemma all_PowerStates: "s \<in> set (enum_class.enum :: PowerState list)"
  by (cases s) (simp_all add: enum_PowerState_def)

instance
proof
  show "(UNIV :: PowerState set) = set enum_class.enum" using all_PowerStates by blast
  show "distinct (enum_class.enum :: PowerState list)" by (simp add: enum_PowerState_def)
  show "enum_class.enum_all P \<longleftrightarrow> Ball (UNIV :: PowerState set) P" for P
    using all_PowerStates by (auto simp: enum_all_PowerState_def list_all_iff)
  show "enum_class.enum_ex P \<longleftrightarrow> Bex (UNIV :: PowerState set) P" for P
    using all_PowerStates by (auto simp: enum_ex_PowerState_def list_ex_iff)
qed

end

datatype power_action = Nothing | DisconnectDisabled | SwitchOn | DisconnectAll

definition powerAction :: "PowerState \<Rightarrow> PowerState \<Rightarrow> power_action" where
  "powerAction cur new =
     (if new = cur then Nothing
      else if cur \<in> {POWER_STATE_ON, POWER_STATE_UNKNOWN} \<and> new \<in> set powerOffStates then DisconnectDisabled
      else if new = POWER_STATE_ON then SwitchOn
      else if new = POWER_STATE_STANDBY_DEEP_SLEEP then DisconnectAll
      else Nothing)"

definition actionCalls :: "env \<Rightarrow> (string \<times> BluetoothDeviceInfo) list \<Rightarrow> power_action \<Rightarrow> bt_call list" where
  "actionCalls E es a = (case a of Nothing \<Rightarrow> []
     | DisconnectDisabled \<Rightarrow> List.map_filter (disconnectCall E) (filter poweredOff es)
     | SwitchOn \<Rightarrow> (if length (filter putToSleep es) mod 2 ^ 16 = 0 then [] else [SetAdapterPowerStatus True])
     | DisconnectAll \<Rightarrow> List.map_filter (disconnectCall E) (filter putToSleep es))"

lemma powerCalls_action:
  "powerCalls E cur new w = (if e_migration E \<and> isMigrated w
     then actionCalls E (e_order E (pairedDeviceCache w)) (powerAction cur new) else [])"
  by (simp add: powerCalls_def powerAction_def actionCalls_def Let_def)

text \<open>The 16 transitions, of 30, that make the plugin act.\<close>

lemma transition_table:
  "[(cur, new). cur \<leftarrow> enum_class.enum, new \<leftarrow> enum_class.enum, powerAction cur new = DisconnectDisabled] =
    [(cur, new). cur \<leftarrow> [POWER_STATE_UNKNOWN, POWER_STATE_ON], new \<leftarrow> powerOffStates]"
  "\<forall>cur new. powerAction cur new = SwitchOn \<longleftrightarrow> new = POWER_STATE_ON \<and> cur \<noteq> POWER_STATE_ON"
  "\<forall>cur new. powerAction cur new = DisconnectAll \<longleftrightarrow>
    new = POWER_STATE_STANDBY_DEEP_SLEEP \<and> cur \<noteq> POWER_STATE_STANDBY_DEEP_SLEEP"
  by code_simp+

end
