(* ===== verification/PluginFacts.thy ===== *)
theory PluginFacts
  imports PowerCorrect
begin

section \<open>What the plugin does on events, requests and at start-up\<close>

text \<open>
  The notifications and BTRMGR calls of event handling, of pairing and of the devices found
  connected at start-up, the answer to requests without a device id, and that every entry
  point returns.
\<close>

subsection \<open>The registry neither notifies nor connects\<close>

definition registry_event :: "ext_event \<Rightarrow> bool" where
  "registry_event ev \<longleftrightarrow> (\<forall>n ps. ev \<noteq> EvNotify n ps) \<and>
     (\<forall>c rc. ev = EvBT c rc \<longrightarrow> (\<exists>h. c = GetDeviceProperties h))"

lemma store_io_registry: "store_io key ev \<Longrightarrow> registry_event ev"
  by (auto simp: store_io_def registry_event_def is_fs_def split: ext_event.splits)

lemma syncStorage_events: "syncStorage E w = Some (r, w') \<Longrightarrow> evolves (store_io PERSISTENT_STORE_KEY_DEVICE_INFO) w w'"
  by (auto simp: syncStorage_def split: if_splits dest: writeStorage_io io_evolves)

lemma evolves_cachePut [simp]: "evolves P (cachePut k i w) w' \<longleftrightarrow> evolves P w w'"
  by (simp add: evolves_def ledger_def)

lemma setLastConnectTimeUtc_events:
  "setLastConnectTimeUtc E k w = Some w' \<Longrightarrow> evolves (store_io PERSISTENT_STORE_KEY_DEVICE_INFO) w w'"
  by (auto simp: setLastConnectTimeUtc_sync split: option.splits dest!: syncStorage_events)

lemma store_io_quiet:
  assumes "\<forall>ev \<in> set es. store_io key ev"
  shows "bt_calls es = []" "notifications es = []"
  using assms
  by (induction es) (auto simp: bt_calls_def notifications_def map_filter_def store_io_def is_fs_def
      split: ext_event.splits)

lemma setDeviceConnection_events:
  assumes "setDeviceConnection E i c t w = Some (ok, w')"
  shows "\<exists>es. trace w' = trace w @ es \<and> bt_calls es = [connectionCall E (handle_of i) c t] \<and> notifications es = []"
proof -
  obtain rc w1 where b: "btCall E (connectionCall E (handle_of i) c t) w = (rc, w1)" by fastforce
  then have t1: "trace w1 = trace w @ [EvBT (connectionCall E (handle_of i) c t) rc]"
    by (auto simp: btCall_def Let_def)
  from assms b consider "w' = w1" | "setLastConnectTimeUtc E (to_string_ull (handle_of i)) w1 = Some w'"
    by (auto simp: setDeviceConnection_def Let_def split: if_splits elim!: bind_SomeE)
  then show ?thesis
  proof cases
    case 1
    with t1 show ?thesis by simp
  next
    case 2
    obtain es where "trace w' = trace w1 @ es" "\<forall>ev \<in> set es. store_io PERSISTENT_STORE_KEY_DEVICE_INFO ev"
      using evolves_trace [OF setLastConnectTimeUtc_events [OF 2]] by blast
    with t1 store_io_quiet show ?thesis by fastforce
  qed
qed

subsection \<open>External connection requests\<close>

lemma handle_of_sint [simp]: "handle_of (sint h) = h"
  by (simp add: handle_of_def)

text \<open>What the code relies on of the case-insensitive comparison.\<close>

definition compares_words :: "env \<Rightarrow> bool" where
  "compares_words E \<longleftrightarrow> e_equal E ''ACCEPTED'' ''ACCEPTED'' \<and> \<not> e_equal E ''REJECTED'' ''ACCEPTED''"

definition connectAnswer :: "env \<Rightarrow> external_device \<Rightarrow> bool \<Rightarrow> bt_call list" where
  "connectAnswer E d accept = SetEventResponse (m_deviceHandle d) RESP_EXTERNAL_CONNECT_REQUEST accept #
     (if accept then (case e_typeString E (m_deviceType d) of None \<Rightarrow> []
        | Some t \<Rightarrow> [connectionCall E (m_deviceHandle d) True t]) else [])"

lemma setEventResponse_connect:
  assumes "compares_words E"
    and "setEventResponse E (sint h) EVT_CONNECTION_REQUEST (if b then ''ACCEPTED'' else ''REJECTED'') w = (ok, w')"
  shows "only_calls [SetEventResponse h RESP_EXTERNAL_CONNECT_REQUEST b] w w'"
  using assms
  by (cases b) (auto simp: setEventResponse_def EVT_CONNECTION_REQUEST_def EVT_PAIRING_REQUEST_def
      compares_words_def Let_def split: prod.splits dest: only_calls_btCall)

lemma answerConnectRequest_calls:
  assumes "compares_words E" "answerConnectRequest E d b w = Some (t, w')"
  shows "\<exists>es. trace w' = trace w @ es \<and> bt_calls es = connectAnswer E d b \<and> notifications es = [] \<and>
    (t \<noteq> None \<longleftrightarrow> b \<and> e_typeString E (m_deviceType d) = None)"
proof -
  obtain ok w1 where r: "setEventResponse E (sint (m_deviceHandle d)) EVT_CONNECTION_REQUEST
      (if b then ''ACCEPTED'' else ''REJECTED'') w = (ok, w1)" by fastforce
  from setEventResponse_connect [OF assms(1) r] obtain es1 where es1: "trace w1 = trace w @ es1"
    "bt_calls es1 = [SetEventResponse (m_deviceHandle d) RESP_EXTERNAL_CONNECT_REQUEST b]"
    "\<forall>ev \<in> set es1. \<exists>c rc. ev = EvBT c rc"
    by (auto simp: only_calls_def)
  have n1: "notifications es1 = []" using es1(3) by (induction es1) (auto simp: notifications_def map_filter_def)
  from assms(2) r consider "\<not> b" "t = None" "w' = w1"
    | "b" "e_typeString E (m_deviceType d) = None" "t \<noteq> None" "w' = w1"
    | ty ok where "b" "e_typeString E (m_deviceType d) = Some ty" "t = None"
        "setDeviceConnection E (sint (m_deviceHandle d)) True ty w1 = Some (ok, w')"
    by (auto simp: answerConnectRequest_def Let_def split: if_splits option.splits elim!: bind_SomeE)
  then show ?thesis
  proof cases
    case 3
    obtain es2 where "trace w' = trace w1 @ es2" "bt_calls es2 = [connectionCall E (m_deviceHandle d) True ty]"
      "notifications es2 = []" using setDeviceConnection_events [OF 3(4)] by auto
    with 3 es1 n1 show ?thesis by (intro exI [of _ "es1 @ es2"]) (simp add: connectAnswer_def)
  qed (use es1 n1 in \<open>auto simp: connectAnswer_def\<close>)
qed

definition answered :: "env \<Rightarrow> BTRMGR_EventMessage \<Rightarrow> 'z plugin_scheme \<Rightarrow> bool" where
  "answered E msg w \<longleftrightarrow> m_eventType msg = BTRMGR_EVENT_RECEIVED_EXTERNAL_CONNECT_REQUEST \<and> e_migration E \<and>
     isMigrated w \<and> um_find (pairedDeviceCache w) (deviceId (m_externalDevice msg)) \<noteq> None"

text \<open>The enabled status of a registered device, as the answer uses it.\<close>

lemma getAutoConnect_enabled:
  "\<not> e_migration E \<or> isMigrated w \<Longrightarrow> um_find (pairedDeviceCache w) k = Some i \<Longrightarrow>
   getAutoConnect E k s w = (ERROR_NONE, if autoConnectStatus i = AUTO_CONNECT_STATUS_UNSET
     then AUTO_CONNECT_STATUS_DISABLED else autoConnectStatus i)"
  by (auto simp: getAutoConnect_def getPairedDeviceInfo_def)

lemma notifyEventWrapper_answered:
  assumes "answered E msg w" "um_find (pairedDeviceCache w) (deviceId (m_externalDevice msg)) = Some i"
  shows "notifyEventWrapper E msg w =
    answerConnectRequest E (m_externalDevice msg) (autoConnectStatus i = AUTO_CONNECT_STATUS_ENABLED) w"
  using assms by (auto simp: answered_def notifyEventWrapper_def getAutoConnect_enabled Let_def)

lemma notifyEventWrapper_notified:
  assumes "\<not> answered E msg w"
  shows "notifyEventWrapper E msg w = Some (if nullTypeThrows E msg then (Some null_c_string, w) else (None,
    case notification E msg w of None \<Rightarrow> w | Some (ev, ps) \<Rightarrow> sendNotify ev ps w))"
proof -
  have "\<not> (m_eventType msg = BTRMGR_EVENT_RECEIVED_EXTERNAL_CONNECT_REQUEST \<and> e_migration E \<and> isMigrated w \<and>
      fst (getAutoConnect E (deviceId (m_externalDevice msg)) AUTO_CONNECT_STATUS_UNSET w) = ERROR_NONE)"
    using assms by (auto simp: answered_def getAutoConnect_def getPairedDeviceInfo_def split: option.splits)
  then show ?thesis
    by (auto simp: notifyEventWrapper_def Let_def split: prod.splits option.splits)
qed

subsection \<open>Devices connected at start-up\<close>

lemma label_append: "HasLabel (xs @ ys) l \<longleftrightarrow> HasLabel xs l \<or> HasLabel ys l"
  by (simp add: HasLabel_def um_find_def map_of_append map_add_def split: option.split)

text \<open>
  The connected devices that are disconnected at the start: no human interface device, and none
  whose handle \<open>stoll\<close> cannot read; until the migration all the others, from then on (and in the
  build without migration) those the registry has with autoconnect not enabled. A device the
  registry does not know then stays connected.
\<close>

definition disconnectedAtStart :: "env \<Rightarrow> 'z plugin_scheme \<Rightarrow> connected_device \<Rightarrow> bool" where
  "disconnectedAtStart E w d \<longleftrightarrow> typeName E (m_deviceType d) \<noteq> HID \<and> uint (m_deviceHandle d) \<le> LLONG_MAX \<and>
     (e_migration E \<and> \<not> isMigrated w \<or>
      (\<exists>i. um_find (pairedDeviceCache w) (deviceId d) = Some i \<and> autoConnectStatus i \<noteq> AUTO_CONNECT_STATUS_ENABLED))"

lemma getAutoConnect_unset: "getAutoConnect E k AUTO_CONNECT_STATUS_UNSET w = (ERROR_NONE, s) \<Longrightarrow> s \<noteq> AUTO_CONNECT_STATUS_UNSET"
  by (auto simp: getAutoConnect_def getPairedDeviceInfo_def split: if_splits option.splits)

lemma not_enabled_at_start:
  "getAutoConnect E (deviceId d) AUTO_CONNECT_STATUS_UNSET w = (r, s) \<Longrightarrow>
   disconnectedAtStart E w d \<longleftrightarrow> typeName E (m_deviceType d) \<noteq> HID \<and> r = ERROR_NONE \<and>
     s \<noteq> AUTO_CONNECT_STATUS_ENABLED \<and> uint (m_deviceHandle d) \<le> LLONG_MAX"
  by (auto simp: disconnectedAtStart_def getAutoConnect_def getPairedDeviceInfo_def split: option.splits if_splits)

lemma disconnectOne_calls:
  assumes "json_accessors E"
  shows "\<exists>w'. disconnectOne E (JObj (connectedDetails E v d)) w = Some w' \<and>
    only_calls (if disconnectedAtStart E v d
      then [connectionCall E (m_deviceHandle d) False (typeName E (m_deviceType d))] else []) w w'"
proof -
  let ?ob = "connectedDetails E v d"
  obtain r s where g: "getAutoConnect E (deviceId d) AUTO_CONNECT_STATUS_UNSET v = (r, s)" by fastforce
  have ids: "json_at ?ob ''deviceID'' = JStr (deviceId d)" "json_at ?ob ''deviceType'' = JStr (typeName E (m_deviceType d))"
    by (simp_all add: connectedDetails_def connectedFields_def)
  have lab: "HasLabel ?ob ''autoconnect'' \<longleftrightarrow> r = ERROR_NONE"
    using g getAutoConnect_unset [of E "deviceId d" v s]
    by (auto simp: connectedDetails_def connectedFields_def registryDetails_def label_append split: prod.splits)
  have val: "r = ERROR_NONE \<Longrightarrow> json_at ?ob ''autoconnect'' = JBool (s = AUTO_CONNECT_STATUS_ENABLED)"
    using g getAutoConnect_unset [of E "deviceId d" v s]
    by (auto simp: connectedDetails_def connectedFields_def registryDetails_def json_at_def um_find_def split: prod.splits)
  have h: "stoll (deviceId d) = (if uint (m_deviceHandle d) \<le> LLONG_MAX then Inr (uint (m_deviceHandle d)) else Inl out_of_range)"
    unfolding deviceId_def by (rule stoll_to_string_ull)
  obtain ok w' where c: "setDeviceConnection E (uint (m_deviceHandle d)) False (typeName E (m_deviceType d)) w = Some (ok, w')"
    "only_calls [connectionCall E (m_deviceHandle d) False (typeName E (m_deviceType d))] w w'"
    using setDeviceConnection_disconnect [of E "uint (m_deviceHandle d)" "typeName E (m_deviceType d)" w]
    by (auto simp: handle_of_def)
  show ?thesis
    using assms ids lab val h g c
    by (auto simp: disconnectOne_def not_enabled_at_start [OF g] Let_def)
qed

lemma disconnectAll_calls:
  assumes "json_accessors E"
  shows "\<exists>w'. disconnectAll E (map (\<lambda>d. JObj (connectedDetails E v d)) ds) w = Some w' \<and>
    only_calls (map (\<lambda>d. connectionCall E (m_deviceHandle d) False (typeName E (m_deviceType d)))
      (filter (disconnectedAtStart E v) ds)) w w'"
proof (induction ds arbitrary: w)
  case Nil
  then show ?case by simp
next
  case (Cons d ds)
  obtain w1 where 1: "disconnectOne E (JObj (connectedDetails E v d)) w = Some w1"
    "only_calls (if disconnectedAtStart E v d
      then [connectionCall E (m_deviceHandle d) False (typeName E (m_deviceType d))] else []) w w1"
    using disconnectOne_calls [OF assms] by blast
  obtain w2 where 2: "disconnectAll E (map (\<lambda>d. JObj (connectedDetails E v d)) ds) w1 = Some w2"
    "only_calls (map (\<lambda>d. connectionCall E (m_deviceHandle d) False (typeName E (m_deviceType d)))
      (filter (disconnectedAtStart E v) ds)) w1 w2" using Cons.IH by blast
  from 1(1) 2(1) only_calls_trans [OF 1(2) 2(2)] show ?case by (auto split: if_splits)
qed

lemma disconnectExternally_calls:
  assumes "json_accessors E" "e_bt E (trace w) GetConnectedDevices = BTRMGR_RESULT_SUCCESS"
  shows "\<exists>w'. disconnectExternallyConnectedDevices E w = Some w' \<and>
    only_calls (GetConnectedDevices # map (\<lambda>d. connectionCall E (m_deviceHandle d) False (typeName E (m_deviceType d)))
      (filter (disconnectedAtStart E w) (e_connected E (trace w)))) w w'"
proof -
  obtain rc w1 where b: "btCall E GetConnectedDevices w = (rc, w1)" by fastforce
  have rc: "rc = BTRMGR_RESULT_SUCCESS" using b assms(2) by (auto simp: btCall_def Let_def)
  note c1 = only_calls_btCall [OF b]
  have same: "disconnectedAtStart E w1 = disconnectedAtStart E w"
    using only_calls_fields(1,2) [OF c1]
    by (auto simp: disconnectedAtStart_def fun_eq_iff)
  obtain w2 where "disconnectAll E (map (\<lambda>d. JObj (connectedDetails E w1 d)) (e_connected E (trace w))) w1 = Some w2"
    "only_calls (map (\<lambda>d. connectionCall E (m_deviceHandle d) False (typeName E (m_deviceType d)))
      (filter (disconnectedAtStart E w1) (e_connected E (trace w)))) w1 w2"
    using disconnectAll_calls [OF assms(1)] by blast
  with b rc only_calls_trans [OF c1] same show ?thesis
    by (auto simp: disconnectExternallyConnectedDevices_def getConnectedDevices_def)
qed

end
