(* ===== verification/Totality.thy ===== *)
theory Totality
  imports PluginFacts MigrationCorrect
begin

section \<open>Every entry point returns\<close>

text \<open>
  The only loop of the program that may run forever is the write loop of the persistence
  adapter. When the system interrupts a write, or accepts nothing, only finitely often
  (\<open>bounded_retries\<close>), every operation of the registry, every JSON-RPC method, every event
  and every life cycle call returns.
\<close>

subsection \<open>The registry\<close>

lemma syncStorage_total: "bounded_retries E B \<Longrightarrow> syncStorage E w \<noteq> None"
  using writeStorage_total [of E B w] by (auto simp: syncStorage_def)

lemma mutators_total:
  assumes "bounded_retries E B"
  shows "setAutoConnect E k b w \<noteq> None" "setLastConnectTimeUtc E k w \<noteq> None"
    "setLastVolumeSetting E k v w \<noteq> None" "addDevice E k w \<noteq> None" "removeDevice E k w \<noteq> None"
  by (auto simp: op_sync Let_def syncStorage_total [OF assms] simp del: not_None_eq
      split: option.splits sum.splits prod.splits)

lemma writeStorage_not_None: "bounded_retries E B \<Longrightarrow> writeStorageFromCache E w \<noteq> None"
  using writeStorage_total [of E B w] by auto

lemma init_total: "bounded_retries E B \<Longrightarrow> init E srv w \<noteq> None"
  by (auto simp: init_def initPlainBuild_def Let_def Option.bind_eq_None_conv writeStorage_not_None
      simp del: not_None_eq split: prod.splits)

lemma performMigration_not_None: "bounded_retries E B \<Longrightarrow> performMigration E w \<noteq> None"
  using performMigration_total [of E B w] by auto

lemma dm_step_total:
  assumes "bounded_retries E B"
  shows "dm_step E op w \<noteq> None"
  using performMigration_total [OF assms, of w]
  by (cases op) (auto simp: mutators_total [OF assms] init_total [OF assms] Option.bind_eq_None_conv
      simp del: not_None_eq)

lemma registry_step_total: "bounded_retries E B \<Longrightarrow> registry_step E op w \<noteq> None"
  using dm_step_total by (simp add: registry_step_def)

subsection \<open>The JSON-RPC methods\<close>

lemma setDeviceConnection_total: "bounded_retries E B \<Longrightarrow> setDeviceConnection E i c t w \<noteq> None"
  by (auto simp: setDeviceConnection_def Let_def mutators_total Option.bind_eq_None_conv
      simp del: not_None_eq split: prod.splits)

lemma setDevicePairing_total: "bounded_retries E B \<Longrightarrow> setDevicePairing E i p w \<noteq> None"
  by (auto simp: setDevicePairing_def Let_def mutators_total Option.bind_eq_None_conv
      simp del: not_None_eq split: prod.splits)

definition total :: "'z plugin_scheme rpc \<Rightarrow> bool" where
  "total m \<longleftrightarrow> (\<forall>ps w. m ps w \<noteq> None)"

lemma returns_total [simp]: "returns ob p \<noteq> None" "returns ob p = None \<longleftrightarrow> False"
  by (simp_all add: returns_def split: prod.split)

lemma returnsLater_None: "returnsLater p = None \<longleftrightarrow> p = None"
  by (cases p) (auto simp: returnsLater_def)

lemma adapter_wrappers_total:
  "total (getApiVersionNumber E)" "total (startScanWrapper E)" "total (stopScanWrapper E)"
  "total (isDiscoverableWrapper E)" "total (setDiscoverableWrapper E)" "total (enableWrapper E)"
  "total (disableWrapper E)" "total (getNameWrapper E)" "total (setNameWrapper E)"
  "total (getDiscoveredDevicesWrapper E)" "total (getPairedDevicesWrapper E)"
  "total (getConnectedDevicesWrapper E)"
  by (simp_all add: total_def adapter_wrappers Let_def del: not_None_eq split: prod.split)

lemma device_wrappers_total:
  assumes "bounded_retries E B"
  shows "total (connectWrapper E)" "total (disconnectWrapper E)" "total (pairWrapper E)"
    "total (unpairWrapper E)" "total (getDeviceInfoWrapper E)" "total (setAudioStreamWrapper E)"
    "total (sendAudioPlaybackCommandWrapper E)" "total (getMediaTrackInfoWrapper E)"
    "total (getDeviceVolumeMuteInfoWrapper E)" "total (setEventResponseWrapper E)"
  by (simp_all add: total_def device_wrappers Let_def returnsLater_None setDeviceConnection_total [OF assms]
      setDevicePairing_total [OF assms] del: not_None_eq split: prod.split id_param.split option.split)

lemma volume_wrapper_total:
  assumes "bounded_retries E B"
  shows "total (setDeviceVolumeMuteInfoWrapper E)"
  by (simp add: total_def device_wrappers Let_def mutators_total(3) [OF assms] Option.bind_eq_None_conv
      del: not_None_eq split: prod.split id_param.split option.split)

lemma registry_wrappers_total:
  assumes "bounded_retries E B"
  shows "total (setAutoConnectWrapper E)" "total (getAutoConnectWrapper E)"
    "total (performMigrationWrapper E)" "total (clearMigrationWrapper E)"
  by (simp_all add: performMigration_not_None [OF assms] total_def registry_wrappers Let_def mutators_total(1) [OF assms] Option.bind_eq_None_conv
      del: not_None_eq split: prod.split option.split)

lemma invoke_total:
  assumes "bounded_retries E B" "invoke E name = Some m"
  shows "m ps w \<noteq> None"
proof -
  have "(name, m) \<in> set (methodTable E)" using assms(2) by (simp add: invoke_def map_of_SomeD)
  then have "total m"
    using adapter_wrappers_total [of E] device_wrappers_total [OF assms(1)] volume_wrapper_total [OF assms(1)]
      registry_wrappers_total [OF assms(1)]
    by (auto simp: methodTable_def split: if_splits)
  then show ?thesis by (simp add: total_def)
qed

subsection \<open>Events and the life cycle\<close>

lemma notifyEventWrapper_total: "bounded_retries E B \<Longrightarrow> notifyEventWrapper E msg w \<noteq> None"
  by (simp add: notifyEventWrapper_def answerConnectRequest_def Let_def setDeviceConnection_total
      Option.bind_eq_None_conv del: not_None_eq split: prod.splits option.splits)

lemma eventCallback_total: "bounded_retries E B \<Longrightarrow> bluetoothSrv_EventCallback E msg w \<noteq> None"
  by (simp add: bluetoothSrv_EventCallback_def notifyEventWrapper_total Option.bind_eq_None_conv
      del: not_None_eq split: prod.split)

lemma disconnectOne_total: "bounded_retries E B \<Longrightarrow> disconnectOne E v w \<noteq> None"
  by (simp add: disconnectOne_def Let_def setDeviceConnection_total del: not_None_eq split: sum.split)

lemma disconnectAll_total: "bounded_retries E B \<Longrightarrow> disconnectAll E vs w \<noteq> None"
  by (induction vs arbitrary: w) (simp_all add: disconnectOne_total Option.bind_eq_None_conv del: not_None_eq)

lemma onPowerModeChanged_total: "onPowerModeChanged E cur new w \<noteq> None"
  using onPowerModeChanged_calls [of E cur new w] by auto

lemma acquirePowerManager_total': "acquirePowerManager E w \<noteq> None"
  by (simp add: acquirePowerManager_def Let_def onPowerModeChanged_total del: not_None_eq split: prod.split)

lemma Initialize_total:
  assumes "bounded_retries E B"
  shows "Initialize E srv w \<noteq> None"
  by (simp add: Initialize_def disconnectExternallyConnectedDevices_def Let_def acquirePowerManager_total'
      init_total [OF assms] disconnectAll_total [OF assms] Option.bind_eq_None_conv del: not_None_eq split: prod.split)

lemma plugin_step_total:
  assumes "bounded_retries E B"
  shows "plugin_step E op w \<noteq> None"
  by (cases op) (simp_all add: invoke_total [OF assms] eventCallback_total [OF assms] onPowerModeChanged_total
      Initialize_total [OF assms] del: not_None_eq split: option.split)

end
