(* ===== verification/StoreFaults.thy ===== *)
theory StoreFaults
  imports RestartCorrect Totality
begin

section \<open>What a store that fails halfway leaves behind\<close>

text \<open>
  The sequences of store calls of \<open>clearMigration\<close> and \<open>init\<close>, cut short by a failing call:
  which keys are left, and what the next start, migration and change of the cache make of
  them.
\<close>

subsection \<open>\<open>clearMigration\<close>\<close>

lemma clearMigration_cases:
  assumes "clearMigration E w = (r, w')"
  obtains (refused) "r = ERROR_GENERAL" "w' = w \<or> w' = emit (EvStoreAcquire False) w"
  | (first) "service w" "storageFailed r"
      "w' = storeRelease (emit (EvStoreDel DEVICE_INFO r) (emit (EvStoreAcquire True) w))"
  | (second) r1 where "service w" "\<not> storageFailed r1" "storageFailed r"
      "w' = storeRelease (emit (EvStoreDel MARKER r) (emit (EvStoreDel DEVICE_INFO r1) (emit (EvStoreAcquire True) w)))"
  | (cleared) r1 r2 where "service w" "r = ERROR_NONE" "\<not> storageFailed r1" "\<not> storageFailed r2"
      "w' = (storeRelease (emit (EvStoreDel MARKER r2) (emit (EvStoreDel DEVICE_INFO r1) (emit (EvStoreAcquire True) w))))
         \<lparr>pairedDeviceCache := [], isMigrated := False\<rparr>"
  using assms
  by (auto simp: clearMigration_def storeAcquire_def storeDeleteKey_def storageFailed_def Let_def split: if_splits)

lemma clearMigration_outcome:
  assumes "clearMigration E w = (r, w')"
  shows "service w' = service w \<and> files w' = files w \<and>
    (if r = ERROR_NONE then service w \<and> pairedDeviceCache w' = [] \<and> \<not> isMigrated w'
     else pairedDeviceCache w' = pairedDeviceCache w \<and> isMigrated w' = isMigrated w \<and>
       store_contents (trace w') MARKER = store_contents (trace w) MARKER)"
  using assms
  by (cases rule: clearMigration_cases)
    (auto simp: storeRelease_def storageFailed_def store_contents_append store_step_def)

text \<open>On a store that reports missing keys only when they are missing, success means both keys are gone.\<close>

definition deletes_truthfully :: "env \<Rightarrow> bool" where
  "deletes_truthfully E \<longleftrightarrow>
     (\<forall>tr k. missingFromPersistentStore (e_storeDel E tr k) \<longrightarrow> store_contents tr k = None)"

lemma clearMigration_store:
  assumes "clearMigration E w = (ERROR_NONE, w')" "deletes_truthfully E"
  shows "store_contents (trace w') = (store_contents (trace w))(DEVICE_INFO := None, MARKER := None)"
proof -
  let ?w1 = "emit (EvStoreAcquire True) w"
  let ?r1 = "e_storeDel E (trace ?w1) DEVICE_INFO"
  let ?w2 = "emit (EvStoreDel DEVICE_INFO ?r1) ?w1"
  let ?r2 = "e_storeDel E (trace ?w2) MARKER"
  have w': "w' = (storeRelease (emit (EvStoreDel MARKER ?r2) ?w2))\<lparr>pairedDeviceCache := [], isMigrated := False\<rparr>"
    and ok: "\<not> storageFailed ?r1" "\<not> storageFailed ?r2"
    using assms(1)
    by (auto simp: clearMigration_def storeAcquire_def storeDeleteKey_def storageFailed_def
        missingFromPersistentStore_def Let_def split: if_splits)
  have s1: "store_contents (trace ?w1) = store_contents (trace w)"
    by (simp add: store_contents_append store_step_def)
  have "store_contents (trace ?w2) = (store_contents (trace w))(DEVICE_INFO := None)"
  proof (cases "?r1 = ERROR_NONE")
    case False
    then have "store_contents (trace ?w1) DEVICE_INFO = None"
      using ok(1) assms(2) unfolding storageFailed_def deletes_truthfully_def by blast
    with False s1 show ?thesis by (auto simp: store_contents_append store_step_def)
  qed (simp add: store_contents_append store_step_def)
  moreover have "store_contents (trace w') = (store_contents (trace ?w2))(MARKER := None)"
  proof (cases "?r2 = ERROR_NONE")
    case False
    then have "store_contents (trace ?w2) MARKER = None"
      using ok(2) assms(2) unfolding storageFailed_def deletes_truthfully_def by blast
    with False w' show ?thesis by (auto simp: storeRelease_def store_contents_append store_step_def)
  qed (simp add: w' storeRelease_def store_contents_append store_step_def)
  ultimately show ?thesis by simp
qed

subsection \<open>\<open>init\<close> with the marker but without device info\<close>

lemma init_marker_only:
  assumes "e_migration E" "store_faithful E" "\<forall>tr. e_storeUp E tr"
    and m: "migrated_marker (trace w)" and none: "store_contents (trace w) DEVICE_INFO = None"
  shows "\<exists>w'. init E True w = Some (ERROR_NONE, w') \<and> service w' \<and> isMigrated w' \<and>
    pairedDeviceCache w' = pairedDeviceCache w \<and> store_contents (trace w') = store_contents (trace w)"
proof -
  define w0 where "w0 = emit EvShellAddRef (w\<lparr>service := True\<rparr>)"
  have c0: "store_contents (trace w0) = store_contents (trace w)" "service w0" "pairedDeviceCache w0 = pairedDeviceCache w"
    by (simp_all add: w0_def store_step_def)
  then have "migrated_marker (trace w0)" using m by (simp add: migrated_marker_def)
  then obtain w1 where rd: "readMigrationVersionFromStorage E w0 = (ERROR_NONE, BLUETOOTH_MIGRATION_VERSION, w1)"
    and w1: "service w1" "store_contents (trace w1) = store_contents (trace w0)"
    using readVersion_reads [of E w0] assms(2,3) c0(2) by auto
  have c1: "pairedDeviceCache w1 = pairedDeviceCache w0" using io_fields [OF readVersion_io [OF rd]] by simp
  have "store_contents (trace w1 @ [EvStoreAcquire True]) DEVICE_INFO = None"
    using none w1(2) c0(1) by (simp add: store_contents_append store_step_def)
  then have "missingFromPersistentStore (fst (e_storeGet E (trace w1 @ [EvStoreAcquire True]) DEVICE_INFO))"
    using assms(2) by (simp add: faithful_None)
  then obtain r s where g: "e_storeGet E (trace w1 @ [EvStoreAcquire True]) DEVICE_INFO = (r, s)"
    and r: "missingFromPersistentStore r" "r \<noteq> ERROR_NONE"
    by (metis fst_conv hresult.distinct(3,5) missingFromPersistentStore_def prod.collapse)
  let ?w2 = "storeRelease (emit (EvStoreGet DEVICE_INFO r) (emit (EvStoreAcquire True) (w1\<lparr>isMigrated := True\<rparr>)))"
  have "updateCacheFromStorage E (w1\<lparr>isMigrated := True\<rparr>) = (r, ?w2)"
    using g r(2) w1(1) assms(3) by (simp add: updateCacheFromStorage_def storeAcquire_def storeGetValue_def Let_def)
  then have "init E True w = Some (ERROR_NONE, ?w2)"
    using assms(1) rd r(1) by (simp add: init_def initMigrationBuild_def storageFailed_def w0_def Let_def)
  then show ?thesis using w1 c1 c0 by (simp add: storeRelease_def store_contents_append store_step_def)
qed

subsection \<open>\<open>init\<close> while the store cannot be reached\<close>

lemma init_unreachable:
  assumes "e_migration E" "\<not> e_storeUp E (trace w @ [EvShellAddRef])"
  shows "init E True w = Some (ERROR_NONE,
    (emit (EvStoreAcquire False) (emit EvShellAddRef (w\<lparr>service := True\<rparr>)))\<lparr>isMigrated := False\<rparr>)"
  using assms
  by (simp add: init_def initMigrationBuild_def readMigrationVersionFromStorage_def storeAcquire_def Let_def
      emit_def)

text \<open>A change that is stored replaces what the store held by the cache.\<close>

lemma addDevice_stored:
  assumes "addDevice E k w = Some (ERROR_NONE, w')" "\<not> e_migration E \<or> isMigrated w"
  shows "\<exists>info. pairedDeviceCache w' = um_put k info (pairedDeviceCache w) \<and>
    store_contents (trace w') DEVICE_INFO = Some (storedPayload E (pairedDeviceCache w'))"
proof -
  from assms(1) obtain n where n: "stoll k = Inr n" by (auto simp: addDevice_sync split: sum.splits)
  obtain rc w1 where b: "btCall E (GetDeviceProperties (word_of_int n)) w = (rc, w1)" by fastforce
  let ?info = "addedInfo E k (e_devProps E (trace w) (word_of_int n))"
  have f: "isMigrated w1 = isMigrated w" "pairedDeviceCache w1 = pairedDeviceCache w"
    using b by (auto simp: btCall_def Let_def)
  then have "writeStorageFromCache E (cachePut k ?info w1) = Some (ERROR_NONE, w')"
    using assms n b by (auto simp: addDevice_sync syncStorage_def Let_def split: if_splits)
  from writeStorage_contents [OF this] io_fields(2) [OF writeStorage_io [OF this]] f(2)
  show ?thesis by auto
qed

lemma late_migration:
  assumes "e_migration E" "store_faithful E" "migrated_marker (trace w)"
    and "\<not> e_storeUp E (trace w @ [EvShellAddRef])"
    and "init E True (restart w) = Some (r, w1)" "performMigration E w1 = Some (ERROR_NONE, w2)"
  shows "r = ERROR_NONE \<and> isMigrated w2 \<and> pairedDeviceCache w2 = [] \<and>
    store_contents (trace w2) = store_contents (trace w)"
proof -
  have r: "r = ERROR_NONE" and w1: "w1 = (emit (EvStoreAcquire False)
      (emit EvShellAddRef ((restart w)\<lparr>service := True\<rparr>)))\<lparr>isMigrated := False\<rparr>"
    using init_unreachable [of E "restart w"] assms(1,4,5) by simp_all
  have c1: "store_contents (trace w1) = store_contents (trace w)"
    using w1 by (simp add: store_contents_append store_step_def)
  then have m1: "migrated_marker (trace w1)" using assms(3) by (simp add: migrated_marker_def)
  from performMigration_again [OF assms(2) m1 assms(6)] r w1 c1 show ?thesis by simp
qed


subsection \<open>The AS file follows the store\<close>

lemma writeStorage_mirrors:
  assumes "writeStorageFromCache E w = Some (r, w')"
  shows "files w' (e_path E) = files w (e_path E) \<or>
    r = ERROR_NONE \<and> e_migration E \<and> isMigrated w \<and>
    (\<exists>ex. files w' (e_path E) = Some (writePayload E ex (filesystemSnapshot (pairedDeviceCache w)))) \<and>
    store_contents (trace w') DEVICE_INFO = Some (storedPayload E (pairedDeviceCache w))"
proof (cases "r = ERROR_NONE \<and> e_migration E \<and> isMigrated w")
  case False
  with writeStorage_file [OF assms] show ?thesis by simp
next
  case True
  with writeStorage_file [OF assms] obtain v :: "'a dmgr_scheme" and r' v' where
    wr: "Write E (filesystemSnapshot (pairedDeviceCache w)) v = Some (r', v')"
    and fs: "files v = files w" "files w' = files v'"
    by (auto simp: file_synced_def)
  from Write_files [OF wr] fs True writeStorage_contents [OF assms] show ?thesis
    by (cases "r' = ERROR_NONE") auto
qed

subsection \<open>A restart of the build without migration\<close>

lemma plain_restart:
  assumes plain: "\<not> e_migration E" and it: "iterates_all E" and st: "store_faithful E" "\<And>tr. e_storeUp E tr"
    and ds: "\<And>tr. e_paired E tr = ds" "distinct (map m_deviceHandle ds)"
    and str: "store_contents (trace w) DEVICE_INFO = Some str"
    and res: "init E True (restart w) = Some (ERROR_NONE, w')"
  shows "(\<forall>d \<in> set ds. um_find (pairedDeviceCache w') (deviceId d) =
      Some (case um_find (loadedCache E str) (deviceId d) of Some i \<Rightarrow> backfill E d i | None \<Rightarrow> freshInfo E d)) \<and>
    (\<forall>k. k \<notin> deviceId ` set ds \<longrightarrow> um_find (pairedDeviceCache w') k = None) \<and>
    store_contents (trace w') DEVICE_INFO = Some (storedPayload E (pairedDeviceCache w'))"
proof -
  let ?v = "emit EvShellAddRef ((restart w)\<lparr>service := True\<rparr>)"
  have ret: "initPlainBuild E ?v = Some (ERROR_NONE, w')" using res plain by (simp add: init_def)
  obtain w1 w2 where ok: "cache_ok (pairedDeviceCache w1)"
    and c2: "pairedDeviceCache w2 = scrub E ds (mergeDevices E False ds (pairedDeviceCache w1))"
    and wr: "writeStorageFromCache E w2 = Some (ERROR_NONE, w')" and up: "\<exists>sr. updateCacheFromStorage E ?v = (sr, w1)"
    by (rule initPlain_result [OF ret it]) (auto simp: ds(1))
  have c1: "pairedDeviceCache w1 = loadedCache E str"
    using updateCacheFromStorage_loads [of E ?v str] st str up by (auto simp: store_step_def)
  have c': "pairedDeviceCache w' = pairedDeviceCache w2" using io_fields(2) [OF writeStorage_io [OF wr]] .
  have fnd: "um_find (pairedDeviceCache w') k = (case map_of (map (\<lambda>d. (deviceId d, d)) ds) k of
       None \<Rightarrow> None | Some d \<Rightarrow> mergedInfo E False d (um_find (loadedCache E str) k))" for k
    using reconcile_find [OF it ok distinct_handles [OF ds(2)]] unfolding c' c2 c1 .
  have "distinct (map fst (map (\<lambda>d. (deviceId d, d)) ds))"
    using distinct_handles [OF ds(2)] by (simp add: comp_def)
  then have "d \<in> set ds \<Longrightarrow> map_of (map (\<lambda>d. (deviceId d, d)) ds) (deviceId d) = Some d" for d
    by (intro map_of_is_SomeI) auto
  moreover have "k \<notin> deviceId ` set ds \<Longrightarrow> map_of (map (\<lambda>d. (deviceId d, d)) ds) k = None" for k
    by (auto simp: map_of_eq_None_iff image_iff)
  ultimately show ?thesis
    using fnd writeStorage_contents [OF wr] c' by (auto simp: mergedInfo_def split: option.split)
qed

end
