(* ===== verification/RequestFacts.thy ===== *)
theory RequestFacts
  imports Totality StoreFaults
begin

section \<open>What requests and the start-up do to the registry and to BTRMGR\<close>

text \<open>
  The outcome of starting a scan, of connecting, pairing and setting a volume, the answer of
  the methods that take a device id to a missing or malformed one, the shape of the device
  lists, and the BTRMGR calls of a whole \<open>Initialize\<close>.
\<close>

subsection \<open>Starting a scan\<close>

lemma btCall_trace: "btCall E c w = (rc, w') \<Longrightarrow> trace w' = trace w @ [EvBT c rc] \<and> rc = e_bt E (trace w) c"
  by (auto simp: btCall_def Let_def)

lemma btCall_plugin_fields:
  "btCall E c w = (rc, w') \<Longrightarrow> discoveryRunning w' = discoveryRunning w \<and> discoveryTimer w' = discoveryTimer w \<and>
    pairedDeviceCache w' = pairedDeviceCache w \<and> isMigrated w' = isMigrated w \<and> service w' = service w"
  by (auto simp: btCall_def Let_def)

lemma startDeviceDiscovery_outcome:
  assumes "startDeviceDiscovery E timeout p w = (s, w')"
  shows "if discoveryRunning w then s = STATUS_AVAILABLE \<and> w' = w
    else if e_numAdapters E (trace w) = 0 then s = STATUS_NO_BLUETOOTH_HARDWARE \<and>
      \<not> discoveryRunning w' \<and> discoveryTimer w' = discoveryTimer w
    else s = STATUS_AVAILABLE \<and> (\<exists>rc rc' es. trace w' = trace w @
        [EvBT GetNumberOfAdapters rc, EvBT (StartDeviceDiscovery (discoveryType E p)) rc', EvTimerRevoke] @ es \<and>
        (if timeout \<le> 0 then \<not> discoveryRunning w' \<and> discoveryTimer w' = None \<and>
           bt_calls es = [StopDeviceDiscovery BTRMGR_DEVICE_OP_TYPE_AUDIO_OUTPUT]
         else discoveryRunning w' \<and> discoveryTimer w' = Some (milliseconds E timeout) \<and>
           es = [EvTimerSchedule (milliseconds E timeout)]))"
proof -
  obtain rc w1 where b1: "btCall E GetNumberOfAdapters w = (rc, w1)" by fastforce
  obtain rc' w2 where b2: "btCall E (StartDeviceDiscovery (discoveryType E p)) w1 = (rc', w2)" by fastforce
  obtain ok w3 where st: "stopDeviceDiscovery E (w2\<lparr>discoveryRunning := True\<rparr>) = (ok, w3)" by fastforce
  note facts = btCall_trace [OF b1] btCall_trace [OF b2] btCall_plugin_fields [OF b1] btCall_plugin_fields [OF b2]
    stopDeviceDiscovery_running [OF _ st]
  show ?thesis
    using assms b1 b2 st facts
    by (auto simp: startDeviceDiscovery_def startDiscoveryTimer_fields Let_def split: if_splits)
qed

subsection \<open>Connecting, pairing, volume\<close>

lemma setLastConnectTimeUtc_cache:
  assumes "setLastConnectTimeUtc E k w = Some w'"
  shows "pairedDeviceCache w' = (case um_find (pairedDeviceCache w) k of None \<Rightarrow> pairedDeviceCache w
    | Some i \<Rightarrow> um_put k (i\<lparr>lastConnectTimeUtc := to_string_ll (e_now E (trace w))\<rparr>) (pairedDeviceCache w))"
  using assms
  by (auto simp: setLastConnectTimeUtc_sync syncStorage_def Let_def split: option.splits if_splits
      dest!: writeStorage_io io_fields(2))

lemma setDeviceConnection_outcome:
  assumes "setDeviceConnection E i c t w = Some (ok, w')"
  shows "ok = (e_bt E (trace w) (connectionCall E (handle_of i) c t) = BTRMGR_RESULT_SUCCESS) \<and>
    (\<exists>tr. pairedDeviceCache w' =
      (case um_find (pairedDeviceCache w) (to_string_ull (handle_of i)) of
         Some d \<Rightarrow> if c \<and> ok
           then um_put (to_string_ull (handle_of i)) (d\<lparr>lastConnectTimeUtc := to_string_ll (e_now E tr)\<rparr>) (pairedDeviceCache w)
           else pairedDeviceCache w
       | None \<Rightarrow> pairedDeviceCache w))"
proof -
  obtain rc w1 where b: "btCall E (connectionCall E (handle_of i) c t) w = (rc, w1)" by fastforce
  note f = btCall_trace [OF b] btCall_plugin_fields [OF b]
  show ?thesis
  proof (cases "rc = BTRMGR_RESULT_SUCCESS \<and> c")
    case True
    with assms b have ok: "ok" and st: "setLastConnectTimeUtc E (to_string_ull (handle_of i)) w1 = Some w'"
      by (auto simp: setDeviceConnection_def Let_def elim!: bind_SomeE)
    have "pairedDeviceCache w' = (case um_find (pairedDeviceCache w) (to_string_ull (handle_of i)) of
        Some d \<Rightarrow> if c \<and> ok
           then um_put (to_string_ull (handle_of i)) (d\<lparr>lastConnectTimeUtc := to_string_ll (e_now E (trace w1))\<rparr>) (pairedDeviceCache w)
           else pairedDeviceCache w
       | None \<Rightarrow> pairedDeviceCache w)"
      using setLastConnectTimeUtc_cache [OF st] True ok f by (simp split: option.split)
    moreover have "e_bt E (trace w) (connectionCall E (handle_of i) c t) = BTRMGR_RESULT_SUCCESS" using True f by metis
    ultimately show ?thesis using ok by blast
  next
    case False
    with assms b have "ok = (rc = BTRMGR_RESULT_SUCCESS)" "w' = w1"
      by (auto simp: setDeviceConnection_def Let_def split: if_splits)
    with False f show ?thesis by (auto split: option.split)
  qed
qed

lemma handle_of_nonneg: "is_ll i \<Longrightarrow> 0 \<le> i \<Longrightarrow> to_string_ull (handle_of i) = to_string_ll i"
proof -
  assume i: "is_ll i" "0 \<le> i"
  have "uint (handle_of i) = i mod 2 ^ 64" by (simp add: handle_of_def uint_word_of_int)
  also have "\<dots> = i" using i by (intro mod_pos_pos_trivial) (simp_all add: is_ll_def LLONG_MAX_def)
  finally have "unat (handle_of i) = nat i" by (simp add: unat_eq_nat_uint)
  with i show ?thesis by (simp add: to_string_ull_def to_string_ll_def)
qed

lemma handle_of_neg: "is_ll i \<Longrightarrow> i < 0 \<Longrightarrow> LLONG_MAX < uint (handle_of i)"
proof -
  assume i: "is_ll i" "i < 0"
  have "uint (handle_of i) = (i + 2 ^ 64) mod 2 ^ 64" by (simp add: handle_of_def uint_word_of_int)
  also have "\<dots> = i + 2 ^ 64" using i by (intro mod_pos_pos_trivial) (simp_all add: is_ll_def LLONG_MIN_def)
  finally show ?thesis using i by (simp add: is_ll_def LLONG_MIN_def LLONG_MAX_def)
qed

lemma setDevicePairing_outcome:
  assumes "is_ll i" "e_bt E (trace w) (PairDevice (handle_of i)) = BTRMGR_RESULT_SUCCESS"
    and "\<And>tr. e_bt E tr (GetDeviceProperties (handle_of i)) = BTRMGR_RESULT_SUCCESS"
    and "setDevicePairing E i True w = Some (ok, w')"
  shows "ok \<and> (if 0 \<le> i
    then \<exists>tr. pairedDeviceCache w' =
      um_put (to_string_ll i) (addedInfo E (to_string_ll i) (e_devProps E tr (handle_of i))) (pairedDeviceCache w)
    else pairedDeviceCache w' = pairedDeviceCache w)"
proof -
  obtain rc w1 where b: "btCall E (PairDevice (handle_of i)) w = (rc, w1)" by fastforce
  note f = btCall_trace [OF b] btCall_plugin_fields [OF b]
  let ?k = "to_string_ull (handle_of i)"
  from assms(2,4) b f obtain r where ad: "addDevice E ?k w1 = Some (r, w')" and ok: ok
    by (auto simp: setDevicePairing_def Let_def elim!: bind_SomeE)
  show ?thesis
  proof (cases "0 \<le> i")
    case True
    have id: "stoll ?k = Inr i" "word_of_int i = handle_of i"
      using stoll_to_string_ll [OF assms(1)] handle_of_nonneg [OF assms(1) True] by (simp_all add: handle_of_def)
    obtain rc2 w2 where b2: "btCall E (GetDeviceProperties (handle_of i)) w1 = (rc2, w2)" by fastforce
    have "rc2 = BTRMGR_RESULT_SUCCESS" using btCall_trace [OF b2] assms(3) by simp
    with ad id b2 have "syncStorage E (cachePut ?k (addedInfo E ?k (e_devProps E (trace w1) (handle_of i))) w2) = Some (r, w')"
      by (simp add: addDevice_sync Let_def)
    from syncStorage_cache [OF this] True ok f btCall_plugin_fields [OF b2] handle_of_nonneg [OF assms(1) True]
    show ?thesis by auto
  next
    case False
    then have "stoll ?k = Inl out_of_range" using handle_of_neg [OF assms(1)] by (simp add: stoll_to_string_ull)
    with ad False ok f show ?thesis by (auto simp: addDevice_sync)
  qed
qed

lemma setLastVolumeSetting_cache:
  assumes "setLastVolumeSetting E k v w = Some (r, w')"
  shows "pairedDeviceCache w' = (case um_find (pairedDeviceCache w) k of None \<Rightarrow> pairedDeviceCache w
    | Some i \<Rightarrow> um_put k (i\<lparr>lastVolumeSetting := v\<rparr>) (pairedDeviceCache w))"
  using assms
  by (auto simp: setLastVolumeSetting_sync split: option.splits dest!: syncStorage_cache)


lemma setDeviceVolumeMuteInfo_outcome:
  assumes "deviceIDParam E ps = Id s n" "stringParam E ps ''deviceType'' = Some t"
    and "HasLabel ps ''volume''" "HasLabel ps ''mute''"
    and "c = SetDeviceVolumeMute (handle_of n) (btmgrDeviceOperationTypeFromString E t)
      (word_of_int (e_getNumber E ps ''volume'' 0)) (word_of_int (e_getNumber E ps ''mute'' 0))"
    and "setDeviceVolumeMuteInfoWrapper E ps w = Some (res, w')"
  shows "res = Returns [] (e_bt E (trace w) c = BTRMGR_RESULT_SUCCESS) \<and>
    pairedDeviceCache w' = (case um_find (pairedDeviceCache w) s of
        Some i \<Rightarrow> if e_bt E (trace w) c = BTRMGR_RESULT_SUCCESS
          then um_put s (i\<lparr>lastVolumeSetting := e_getNumber E ps ''volume'' 0 mod 256\<rparr>) (pairedDeviceCache w)
          else pairedDeviceCache w
      | None \<Rightarrow> pairedDeviceCache w)"
proof -
  obtain rc w1 where b: "btCall E c w = (rc, w1)" by fastforce
  note f = btCall_trace [OF b] btCall_plugin_fields [OF b]
  have vol: "uint (word_of_int v :: 8 word) = v mod 256" for v by (simp add: uint_word_of_int)
  from assms b obtain r where
    "if rc = BTRMGR_RESULT_SUCCESS then res = Returns [] True \<and>
         setLastVolumeSetting E s (e_getNumber E ps ''volume'' 0 mod 256) w1 = Some (r, w')
     else res = Returns [] False \<and> w' = w1"
    by (auto simp: setDeviceVolumeMuteInfoWrapper_def setDeviceVolumeMuteProperties_def vol Let_def
        split: if_splits elim!: bind_SomeE)
  with f show ?thesis by (auto split: if_splits option.split dest!: setLastVolumeSetting_cache)
qed

subsection \<open>Requests whose device id is missing or malformed\<close>

definition deviceMethods :: "string set" where
  "deviceMethods = {''connect'', ''disconnect'', ''pair'', ''unpair'', ''getDeviceInfo'', ''setAudioStream'',
     ''sendAudioPlaybackCommand'', ''getAudioInfo'', ''getDeviceVolumeMuteInfo'',
     ''setDeviceVolumeMuteInfo'', ''respondToEvent''}"

lemma deviceMethods_invoke:
  assumes "name \<in> deviceMethods"
  obtains m where "invoke E name = Some m"
    "m \<in> {connectWrapper E, disconnectWrapper E, pairWrapper E, unpairWrapper E, getDeviceInfoWrapper E,
      setAudioStreamWrapper E, sendAudioPlaybackCommandWrapper E, getMediaTrackInfoWrapper E,
      getDeviceVolumeMuteInfoWrapper E, setDeviceVolumeMuteInfoWrapper E, setEventResponseWrapper E}"
  using assms by (auto simp: deviceMethods_def invoke_def methodTable_def)

lemma device_wrappers_id:
  assumes "m \<in> {connectWrapper E, disconnectWrapper E, pairWrapper E, unpairWrapper E, getDeviceInfoWrapper E,
      setAudioStreamWrapper E, sendAudioPlaybackCommandWrapper E, getMediaTrackInfoWrapper E,
      getDeviceVolumeMuteInfoWrapper E, setDeviceVolumeMuteInfoWrapper E, setEventResponseWrapper E}"
  shows "deviceIDParam E ps = NoId \<Longrightarrow> m ps w = Some (Returns [] False, w)"
    and "deviceIDParam E ps = BadId e \<Longrightarrow> m ps w = Some (Throws e, w)"
  using assms by (auto simp: device_wrappers)

subsection \<open>The device lists\<close>

text \<open>Id, name and type are strings, \<open>autoconnect\<close> is a boolean and \<open>lastConnectTimeUtc\<close> a
  nonempty string where they are present.\<close>

definition device_entry :: "json \<Rightarrow> bool" where
  "device_entry v \<longleftrightarrow> (\<exists>ob. v = JObj ob \<and>
     (\<forall>l \<in> {''deviceID'', ''name'', ''deviceType''}. \<exists>s. um_find ob l = Some (JStr s)) \<and>
     (HasLabel ob ''autoconnect'' \<longrightarrow> (\<exists>b. um_find ob ''autoconnect'' = Some (JBool b))) \<and>
     (HasLabel ob ''lastConnectTimeUtc'' \<longrightarrow> (\<exists>s. s \<noteq> '''' \<and> um_find ob ''lastConnectTimeUtc'' = Some (JStr s))))"

lemma entries_typed:
  "device_entry (JObj (discoveredDetails E d))"
  "device_entry (JObj (pairedDetails E w p))"
  "device_entry (JObj (connectedDetails E w c))"
  by (auto simp: device_entry_def discoveredDetails_def pairedDetails_def pairedFields_def connectedDetails_def connectedFields_def registryDetails_def
      HasLabel_def split: prod.splits if_splits)

lemma lists_typed:
  "getDiscoveredDevices E w = (js, w') \<Longrightarrow> \<forall>v \<in> set js. device_entry v"
  "getPairedDevices E w = (js, w') \<Longrightarrow> \<forall>v \<in> set js. device_entry v"
  "getConnectedDevices E w = (js, w') \<Longrightarrow> \<forall>v \<in> set js. device_entry v"
  by (auto simp: getDiscoveredDevices_def getPairedDevices_def getConnectedDevices_def Let_def entries_typed
      split: prod.splits if_splits)

subsection \<open>A whole start\<close>

lemma bt_calls_quiet: "\<forall>ev \<in> set es. registry_event ev \<and> (\<forall>h rc. ev \<noteq> EvBT (GetDeviceProperties h) rc) \<Longrightarrow> bt_calls es = []"
  by (induction es) (auto simp: bt_calls_def map_filter_def registry_event_def split: ext_event.splits)

lemma evolves_quiet: "evolves (store_io key) w w' \<Longrightarrow> \<exists>es. trace w' = trace w @ es \<and> bt_calls es = []"
  using evolves_trace store_io_quiet(1) by blast

lemma bt_calls_snoc [simp]: "bt_calls (ev # es) = (case ev of EvBT c rc \<Rightarrow> [c] | _ \<Rightarrow> []) @ bt_calls es"
  by (simp add: bt_calls_def map_filter_def split: ext_event.split)

lemma init_bt_calls:
  assumes "e_migration E" "init E srv w = Some (r, w')"
  shows "\<exists>es. trace w' = trace w @ es \<and> bt_calls es = []"
proof (cases srv)
  case False
  with assms show ?thesis by (simp add: init_def)
next
  case True
  let ?v = "emit EvShellAddRef (w\<lparr>service := True\<rparr>)"
  obtain vr v w1 where rd: "readMigrationVersionFromStorage E ?v = (vr, v, w1)" by (metis prod_cases3)
  obtain sr w3 where up: "updateCacheFromStorage E (w1\<lparr>isMigrated := True\<rparr>) = (sr, w3)" by fastforce
  obtain es1 where es1: "trace w1 = trace ?v @ es1" "bt_calls es1 = []"
    using evolves_quiet [OF io_evolves [OF readVersion_io [OF rd]]] by blast
  obtain es3 where es3: "trace w3 = trace w1 @ es3" "bt_calls es3 = []"
    using up by (cases rule: updateCacheFromStorage_cases) (auto simp: storeRelease_def)
  from assms True have "initMigrationBuild E ?v = (r, w')" by (simp add: init_def)
  with rd up have "w' \<in> {w1\<lparr>isMigrated := False\<rparr>, w3, releaseService w3}"
    by (auto simp: initMigrationBuild_def Let_def split: if_splits)
  with es1 es3 show ?thesis by (auto simp: releaseService_def)
qed

lemma registerMethods_exact:
  "trace (registerMethods E w) = trace w @ map EvRegisterMethod (registeredMethods (registerMethods E w))"
proof -
  have "trace (fold (\<lambda>n. emit (EvRegisterMethod n)) ns w) = trace w @ map EvRegisterMethod ns" for ns
    by (induction ns arbitrary: w) simp_all
  then show ?thesis by (simp add: registerMethods_def Let_def)
qed

lemma registerMethods_trace:
  "\<exists>es. trace (registerMethods E w) = trace w @ es \<and> bt_calls es = []"
proof -
  have "bt_calls (map EvRegisterMethod ns) = []" for ns by (induction ns) simp_all
  with registerMethods_exact show ?thesis by blast
qed

lemma acquirePowerManager_calls:
  assumes "\<not> isMigrated w" "acquirePowerManager E w = Some w'"
  shows "\<exists>es. trace w' = trace w @ es \<and> bt_calls es = []"
proof -
  obtain es where es: "trace w' = trace w @ es" "\<forall>ev \<in> set es. \<forall>c rc. ev \<noteq> EvBT c rc"
    using acquirePowerManager_unmigrated [OF assms] by blast
  from es(2) have "bt_calls es = []" by (induction es) (auto split: ext_event.split)
  with es show ?thesis by blast
qed

lemma Initialize_calls:
  assumes mig: "e_migration E" and acc: "json_accessors E" and um: "\<not> isMigrated w"
    and conn: "\<And>tr. e_bt E tr GetConnectedDevices = BTRMGR_RESULT_SUCCESS" "\<And>tr. e_connected E tr = ds"
    and res: "Initialize E srv w = Some ('''', w')"
  shows "\<exists>es. trace w' = trace w @ es \<and>
    bt_calls es = [RegisterForCallbacks, RegisterEventCallback, GetConnectedDevices] @
      map (\<lambda>d. connectionCall E (m_deviceHandle d) False (typeName E (m_deviceType d)))
        (filter (disconnectedAtStart E w') ds)"
proof -
  let ?w1 = "emit EvIarmInit (registerMethods E w)"
  obtain rc w2 where b2: "btCall E RegisterForCallbacks ?w1 = (rc, w2)" by fastforce
  obtain rc3 w3 where b3: "btCall E RegisterEventCallback w2 = (rc3, w3)" by fastforce
  have "\<not> isMigrated ?w1" using um by (simp add: registerMethods_def Let_def fold_emit_fields)
  then have u3: "\<not> isMigrated w3" using btCall_plugin_fields [OF b2] btCall_plugin_fields [OF b3] by simp
  from res b2 b3 obtain w4 r w5 where
    pm: "acquirePowerManager E w3 = Some w4" and it: "init E srv w4 = Some (r, w5)"
    and dc: "disconnectExternallyConnectedDevices E w5 = Some w'"
    by (auto simp: Initialize_def Let_def split: if_splits elim!: bind_SomeE)
  obtain w6 where d6: "disconnectExternallyConnectedDevices E w5 = Some w6"
    and c6: "only_calls (GetConnectedDevices # map (\<lambda>d. connectionCall E (m_deviceHandle d) False (typeName E (m_deviceType d)))
      (filter (disconnectedAtStart E w5) ds)) w5 w6"
    using disconnectExternally_calls [OF acc conn(1)] conn(2) by fastforce
  have w6: "w6 = w'" using d6 dc by simp
  have same: "disconnectedAtStart E w' = disconnectedAtStart E w5"
    using only_calls_fields(1,2) [OF c6] w6
    by (auto simp: disconnectedAtStart_def getAutoConnect_def getPairedDeviceInfo_def fun_eq_iff)
  obtain es1 where e1: "trace (registerMethods E w) = trace w @ es1" "bt_calls es1 = []"
    using registerMethods_trace by blast
  obtain es4 where e4: "trace w4 = trace w3 @ es4" "bt_calls es4 = []"
    using acquirePowerManager_calls [OF u3 pm] by blast
  obtain es5 where e5: "trace w5 = trace w4 @ es5" "bt_calls es5 = []" using init_bt_calls [OF mig it] by blast
  obtain es6 where e6: "trace w' = trace w5 @ es6" "bt_calls es6 = GetConnectedDevices #
      map (\<lambda>d. connectionCall E (m_deviceHandle d) False (typeName E (m_deviceType d))) (filter (disconnectedAtStart E w') ds)"
    using only_calls_trace [OF c6] w6 same by auto
  let ?es = "es1 @ [EvIarmInit, EvBT RegisterForCallbacks rc, EvBT RegisterEventCallback rc3] @ es4 @ es5 @ es6"
  have "trace w' = trace w @ ?es"
    using e1 e4 e5 e6 btCall_trace [OF b2] btCall_trace [OF b3] by simp
  moreover have "bt_calls ?es = [RegisterForCallbacks, RegisterEventCallback, GetConnectedDevices] @
      map (\<lambda>d. connectionCall E (m_deviceHandle d) False (typeName E (m_deviceType d)))
        (filter (disconnectedAtStart E w') ds)"
    using e1(2) e4(2) e5(2) e6(2) by simp
  ultimately show ?thesis by blast
qed

subsection \<open>Shutdown\<close>

text \<open>\<open>Deinitialize\<close> releases the registry's service but does not end a scan.\<close>

lemma Deinitialize_outcome:
  "\<not> service (Deinitialize E w) \<and> \<not> instanceSet (Deinitialize E w) \<and>
   discoveryRunning (Deinitialize E w) = discoveryRunning w \<and> discoveryTimer (Deinitialize E w) = discoveryTimer w \<and>
   (\<exists>es. trace (Deinitialize E w) = trace w @ es \<and> bt_calls es = [UnRegisterFromCallbacks])"
  by (auto simp: Deinitialize_def deinit_def releaseService_def Let_def btCall_def)


subsection \<open>The two classifications of a profile string\<close>

lemma operation_types_agree:
  "btmgrDeviceOperationTypeFromString E p =
    (if discoveryType E p = BTRMGR_DEVICE_OP_TYPE_AUDIO_AND_HID \<or>
        discoveryType E p = BTRMGR_DEVICE_OP_TYPE_UNKNOWN \<and> \<not> e_contains E p ''DEFAULT''
     then BTRMGR_DEVICE_OP_TYPE_AUDIO_OUTPUT else discoveryType E p)"
  by (simp add: btmgrDeviceOperationTypeFromString_def discoveryType_def)


text \<open>Whether BTRMGR scans, by the calls it has answered with success.\<close>

definition scan_event :: "ext_event \<Rightarrow> bool \<Rightarrow> bool" where
  "scan_event ev on = (case ev of
     EvBT (StartDeviceDiscovery ty) rc \<Rightarrow> on \<or> rc = BTRMGR_RESULT_SUCCESS
   | EvBT (StopDeviceDiscovery ty) rc \<Rightarrow> on \<and> rc \<noteq> BTRMGR_RESULT_SUCCESS
   | _ \<Rightarrow> on)"

definition scanning :: "trace \<Rightarrow> bool" where
  "scanning tr = fold scan_event tr False"

lemma running_scan_ends:
  assumes "plugin_inv w" "discoveryRunning w"
  shows "plugin_enabled E TimerFires w \<and>
    (\<exists>w' rc. rc = e_bt E (trace w @ [EvTimerRevoke]) (StopDeviceDiscovery BTRMGR_DEVICE_OP_TYPE_AUDIO_OUTPUT) \<and>
       plugin_step E TimerFires w = Some w' \<and> \<not> discoveryRunning w' \<and> discoveryTimer w' = None \<and>
       trace w' = trace w @ [EvTimerRevoke, EvBT (StopDeviceDiscovery BTRMGR_DEVICE_OP_TYPE_AUDIO_OUTPUT) rc] \<and>
       (scanning (trace w') \<longleftrightarrow> scanning (trace w) \<and> rc \<noteq> BTRMGR_RESULT_SUCCESS) \<and>
       (\<forall>ps. plugin_step E (Request ''stopScan'' ps) w' = Some w'))"
proof -
  let ?rc = "e_bt E (trace w @ [EvTimerRevoke]) (StopDeviceDiscovery BTRMGR_DEVICE_OP_TYPE_AUDIO_OUTPUT)"
  obtain ok w' where st: "stopDeviceDiscovery E (w\<lparr>discoveryTimer := None\<rparr>) = (ok, w')" by fastforce
  have t: "plugin_step E TimerFires w = Some w'" using st by (simp add: Timed_def onDiscoveryTimer_def)
  have e: "discoveryTimer w \<noteq> None" using assms by (simp add: plugin_inv_def scan_ok_def)
  have r: "\<not> discoveryRunning w'" "discoveryTimer w' = None"
    "trace w' = trace w @ [EvTimerRevoke, EvBT (StopDeviceDiscovery BTRMGR_DEVICE_OP_TYPE_AUDIO_OUTPUT) ?rc]"
    using assms(2) st by (auto simp: stopDeviceDiscovery_def stopDiscoveryTimer_def btCall_def Let_def)
  then have "plugin_step E (Request ''stopScan'' ps) w' = Some w'" for ps
    by (simp add: invoke_def methodTable_def stopScanWrapper_def stopDeviceDiscovery_idle)
  moreover have "scanning (trace w') \<longleftrightarrow> scanning (trace w) \<and> ?rc \<noteq> BTRMGR_RESULT_SUCCESS"
    using r(3) by (simp add: scanning_def scan_event_def)
  ultimately show ?thesis using e t r by auto
qed

text \<open>Stopping the plugin leaves a scan and its timer as they are.\<close>

lemma Deinitialize_scan:
  "discoveryRunning (Deinitialize E w) = discoveryRunning w" "discoveryTimer (Deinitialize E w) = discoveryTimer w"
  by (simp_all add: Deinitialize_def deinit_def releaseService_def btCall_def Let_def)

subsection \<open>Switching on\<close>

lemma switch_on_calls:
  assumes "e_migration E" "isMigrated w" "iterates_all E" "cur \<noteq> POWER_STATE_ON"
  shows "\<exists>w'. onPowerModeChanged E cur POWER_STATE_ON w = Some w' \<and>
    only_calls (if 65536 dvd length (filter (\<lambda>e. deviceType (snd e) \<noteq> HID) (pairedDeviceCache w))
      then [] else [SetAdapterPowerStatus True]) w w'"
proof -
  have perm: "mset (e_order E (pairedDeviceCache w)) = mset (pairedDeviceCache w)"
    using assms(3) by (simp add: iterates_all_def)
  have "length (filter putToSleep (e_order E (pairedDeviceCache w))) = length (filter putToSleep (pairedDeviceCache w))"
    using perm by (metis mset_filter size_mset)
  moreover have "POWER_STATE_ON \<notin> set powerOffStates" by (simp add: powerOffStates_def)
  ultimately have "powerCalls E cur POWER_STATE_ON w =
      (if 65536 dvd length (filter (\<lambda>e. deviceType (snd e) \<noteq> HID) (pairedDeviceCache w)) then [] else [SetAdapterPowerStatus True])"
    using assms by (simp add: powerCalls_def Let_def putToSleep_def dvd_eq_mod_eq_0 cong: filter_cong)
  with onPowerModeChanged_calls [of E cur POWER_STATE_ON w] show ?thesis by simp
qed


lemma deviceMethods_id:
  fixes w :: "'z plugin_scheme"
  assumes "name \<in> deviceMethods"
  shows "\<exists>m. invoke E name = Some m \<and> (deviceIDParam E ps = NoId \<longrightarrow> m ps w = Some (Returns [] False, w)) \<and>
    (\<forall>e. deviceIDParam E ps = BadId e \<longrightarrow> m ps w = Some (Throws e, w))"
proof -
  obtain m :: "'z plugin_scheme rpc" where m: "invoke E name = Some m"
    "m \<in> {connectWrapper E, disconnectWrapper E, pairWrapper E, unpairWrapper E, getDeviceInfoWrapper E,
      setAudioStreamWrapper E, sendAudioPlaybackCommandWrapper E, getMediaTrackInfoWrapper E,
      getDeviceVolumeMuteInfoWrapper E, setDeviceVolumeMuteInfoWrapper E, setEventResponseWrapper E}"
    using assms by (rule deviceMethods_invoke)
  show ?thesis using m(1) device_wrappers_id [OF m(2), where ps = ps and w = w] by (intro exI [of _ m] conjI impI allI)
qed


subsection \<open>What a notification says\<close>

text \<open>The device an event is about: the two discovery events and the ignored ones have none.\<close>

definition eventDevice :: "BTRMGR_EventMessage \<Rightarrow> handle option" where
  "eventDevice msg =
     (let t = m_eventType msg in
      if t \<in> {BTRMGR_EVENT_DEVICE_PAIRING_COMPLETE, BTRMGR_EVENT_DEVICE_PAIRING_FAILED,
           BTRMGR_EVENT_DEVICE_DISCOVERY_UPDATE} then Some (m_deviceHandle (m_discoveredDevice msg))
      else if t \<in> {BTRMGR_EVENT_DEVICE_UNPAIRING_COMPLETE, BTRMGR_EVENT_DEVICE_UNPAIRING_FAILED,
           BTRMGR_EVENT_DEVICE_CONNECTION_COMPLETE, BTRMGR_EVENT_DEVICE_DISCONNECT_COMPLETE,
           BTRMGR_EVENT_DEVICE_CONNECTION_FAILED, BTRMGR_EVENT_DEVICE_FOUND,
           BTRMGR_EVENT_DEVICE_OUT_OF_RANGE} then Some (m_deviceHandle (m_pairedDevice msg))
      else if t \<in> {BTRMGR_EVENT_RECEIVED_EXTERNAL_PAIR_REQUEST, BTRMGR_EVENT_RECEIVED_EXTERNAL_CONNECT_REQUEST,
           BTRMGR_EVENT_RECEIVED_EXTERNAL_PLAYBACK_REQUEST} then Some (m_deviceHandle (m_externalDevice msg))
      else if t \<in> {BTRMGR_EVENT_DEVICE_DISCOVERY_STARTED, BTRMGR_EVENT_DEVICE_DISCOVERY_COMPLETE} \<or>
           (\<exists>n. t = BTRMGR_EVENT_IGNORED n) then None
      else Some (mi_deviceHandle (m_mediaInfo msg)))"

definition names_device :: "env \<Rightarrow> json_object \<Rightarrow> handle option \<Rightarrow> bool" where
  "names_device E ps d \<longleftrightarrow> (case d of None \<Rightarrow> \<not> HasLabel ps ''deviceID''
     | Some h \<Rightarrow> json_at ps ''deviceID'' \<in> {JStr (to_string_ull h), e_ofCStr E (Some (to_string_ull h))})"

lemmas notification_params = pairingCompleteParams_def pairingFailedParams_def pairedStatusParams_def
  connectionChangeParams_def externalParams_def pairRequestParams_def positionParams_def
  trackStoppedParams_def deviceFoundParams_def discoveryUpdateParams_def mediaStatusParams_def

lemma notification_device:
  "notification E msg w = Some (ev, ps) \<Longrightarrow> names_device E ps (eventDevice msg)"
  by (cases "m_eventType msg") (auto simp: notification_def notification_params eventDevice_def names_device_def
      deviceId_def HasLabel_def json_at_def Let_def)

lemma notification_None: "notification E msg w = None \<longleftrightarrow> (\<exists>n. m_eventType msg = BTRMGR_EVENT_IGNORED n)"
  by (cases "m_eventType msg") (auto simp: notification_def Let_def)

lemma ignored_no_throw: "m_eventType msg = BTRMGR_EVENT_IGNORED n \<Longrightarrow> \<not> nullTypeThrows E msg"
  by (simp add: nullTypeThrows_def namedType_def)

lemma notified_outcome:
  assumes "\<not> answered E msg w"
  shows "if \<exists>n. m_eventType msg = BTRMGR_EVENT_IGNORED n then notifyEventWrapper E msg w = Some (None, w)
    else if nullTypeThrows E msg then notifyEventWrapper E msg w = Some (Some null_c_string, w)
    else \<exists>ev ps. notifyEventWrapper E msg w = Some (None, w\<lparr>trace := trace w @ [EvNotify ev ps]\<rparr>) \<and>
      names_device E ps (eventDevice msg)"
  using notifyEventWrapper_notified [OF assms] notification_None [of E msg w] notification_device [of E msg w]
  by (auto simp: sendNotify_def emit_def ignored_no_throw split: option.splits prod.splits)

end
