(* ===== verification/CrashRecovery.thy ===== *)
theory CrashRecovery
  imports StoreFaults
begin

section \<open>A migration cut short by a crash\<close>

text \<open>
  The process may die between any two external calls of \<open>performMigration\<close>. The state the next
  start finds is the history up to there and the files it makes (\<open>crashed\<close>): either the marker
  is missing and the AS file is as it was, or the store holds the whole migrated cache.
\<close>

definition crashed :: "trace \<Rightarrow> 'z dmgr_scheme \<Rightarrow> 'z dmgr_scheme" where
  "crashed done w = (restart w)\<lparr>trace := trace w @ done, files := replay done (files w)\<rparr>"

lemma crashed_fields [simp]:
  "trace (crashed done w) = trace w @ done" "files (crashed done w) = replay done (files w)"
  "\<not> service (crashed done w)" "\<not> isMigrated (crashed done w)" "pairedDeviceCache (crashed done w) = []"
  by (simp_all add: crashed_def)

abbreviation spares :: "string \<Rightarrow> ext_event \<Rightarrow> bool" where
  "spares p ev \<equiv> \<not> touches p ev"

lemma spares_store [simp]:
  "spares p (EvStoreAcquire ok)" "spares p EvStoreRelease" "spares p (EvStoreSet k v r)"
  "spares p (EvStoreGet k r)" "spares p EvShellAddRef"
  by (simp_all add: touches_def)

lemma writeStorage_spares:
  assumes "writeStorageFromCache E w = Some (r, w')" "\<not> isMigrated w"
  shows "evolves (spares p) w w'"
  using assms(1)
proof (cases rule: writeStorage_cases)
  case refused
  then show ?thesis by (auto intro!: io_evolves [OF io_emit])
next
  case (failed v)
  then show ?thesis unfolding failed(3) storeRelease_def by (auto intro!: io_evolves [OF io_emit] io_emit)
next
  case (stored w2 w3)
  then have "w3 = w2" using assms(2) by simp
  then show ?thesis unfolding stored(3,5) storeRelease_def by (auto intro!: io_evolves [OF io_emit] io_emit)
qed

lemma writeVersion_spares: "writeMigrationVersionToStorage E w = (r, w') \<Longrightarrow> evolves (spares p) w w'"
  by (erule writeVersion_cases) (auto simp: storeRelease_def intro!: io_evolves [OF io_emit] io_emit)

lemma performMigration_spares:
  assumes "performMigration E w = Some (r, w')" "\<not> isMigrated w"
  shows "evolves (spares p) w w'"
proof -
  have imp: "import_event p ev \<Longrightarrow> spares p ev" for ev by (simp add: import_event_def)
  show ?thesis
    using assms(1)
  proof (cases rule: performMigration_phases)
    case early
    from evolves_mono [OF early(1) imp] show ?thesis .
  next
    case (wrote w2 wr w3 xr w4)
    have "evolves (spares p) w w2" using wrote(2) [of p] imp by (rule evolves_mono)
    also have "evolves (spares p) w2 w3" using wrote(3,4) assms(2) by (simp add: writeStorage_spares)
    finally have "evolves (spares p) w w3" .
    moreover have "evolves (spares p) w3 w4" using wrote(5) by (rule writeVersion_spares)
    ultimately show ?thesis using wrote(6) by (auto intro: evolves_trans)
  qed
qed

lemma init_unmigrated:
  assumes "e_migration E" "store_faithful E" "\<not> migrated_marker (trace w)"
  shows "\<exists>w'. init E True w = Some (ERROR_NONE, w') \<and> service w' \<and> \<not> isMigrated w' \<and> files w' = files w"
proof -
  let ?v = "emit EvShellAddRef (w\<lparr>service := True\<rparr>)"
  obtain r s w1 where rd: "readMigrationVersionFromStorage E ?v = (r, s, w1)" by (metis prod_cases3)
  have "\<not> migrated_marker (trace ?v)" using assms(3) by (simp add: migrated_marker_def store_step_def)
  from no_marker_read [OF assms(2) this] rd have m: "\<not> (r = ERROR_NONE \<and> s = BLUETOOTH_MIGRATION_VERSION)"
    by (elim readVersion_cases) auto
  have "service w1" using io_fields(1) [OF readVersion_io [OF rd]] by simp
  moreover have "files w1 = files w" using rd by (elim readVersion_cases) (auto simp: storeRelease_def)
  moreover have "init E True w = Some (ERROR_NONE, w1\<lparr>isMigrated := False\<rparr>)"
    using assms(1) rd m by (auto simp: init_def initMigrationBuild_def Let_def)
  ultimately show ?thesis by simp
qed

lemma migration_recovers:
  assumes "e_migration E" "store_faithful E" "\<And>tr. e_storeUp E tr"
    and mg: "performMigration E w = Some (r, w')" and hist: "trace w' = trace w @ done @ rest"
    and before: "\<not> migrated_marker (trace w)" "\<not> isMigrated w"
  shows "\<exists>v. init E True (crashed done w) = Some (ERROR_NONE, v) \<and>
    (if migrated_marker (trace w @ done)
     then isMigrated v \<and> pairedDeviceCache v = loadedCache E (storedPayload E (pairedDeviceCache w'))
     else \<not> isMigrated v \<and> files v (e_path E) = files w (e_path E))"
proof (cases "migrated_marker (trace w @ done)")
  case True
  from performMigration_prefix [OF mg hist before(1) True] True
  show ?thesis using init_migrated [OF assms(1,2), of "crashed done w"] assms(3) by auto
next
  case False
  have "\<forall>ev \<in> set (done @ rest). spares (e_path E) ev"
    using evolves_trace [OF performMigration_spares [OF mg before(2), of "e_path E"]] hist by auto
  then have "replay done (files w) (e_path E) = files w (e_path E)" by (intro replay_untouched) simp
  with False show ?thesis using init_unmigrated [OF assms(1,2), of "crashed done w"] by auto
qed

end
