(* ===== verification/Interleaving.thy ===== *)
theory Interleaving
  imports RegistryCorrect
begin

section \<open>The registry under concurrent calls\<close>

text \<open>
  JSON-RPC requests, BTRMGR events and power changes reach \<open>BluetoothDeviceManager\<close> from
  different threads; \<open>_adminLock\<close> protects single accesses to the cache, \<open>_migrationLock\<close>
  lets one migration run at a time. Here every operation of the registry is the list of its
  sections, a section being what runs under one hold of \<open>_adminLock\<close>, or one call or one
  access of an atomic or unprotected field outside it. A thread has the local variables of
  the operation; a pool of threads runs its sections in any order (\<open>cstep\<close>), except that
  \<open>_migrationLock\<close> blocks. Run alone, the sections of an operation are the operation of the
  theories DeviceManager and Migration (\<open>alone_is_atomic\<close>). The pointer \<open>_service\<close> is not
  protected: its tests, assignments and the calls through it are sections of their own, those of
  \<open>init\<close> and \<open>deinit\<close> included. \<open>Write\<close> is one section, since it holds
  \<open>gFilesystemPersistenceWriteMutex\<close> (theory Writers takes it apart), and so is \<open>ReadRaw\<close>, which
  reads the file it has opened, before or after a rename.
\<close>

subsection \<open>Sections\<close>

datatype lock_section =
    StopUnlessMigrated hresult
  | FindRecord string | StampRecord string
  | ChangeAuto string bool | ChangeVolume string int | EraseRecord string
  | FetchProperties string | AddRecord string
  | CheckService | QueryStore | ReleaseStore
  | TakePayload | StorePayload | CheckMirror | TakeFileSnapshot | WriteFile
  | EnterMigration | GetMarker | CheckMarker | ReadFile | ParseFile | InstallImport | SeeIfEmpty
  | FetchPaired | MergePaired bool | SetMarker | CheckResult | SetMigrated bool
  | DeleteInfo | DeleteMarker | CheckDeleted | ClearCache
  | TakeService bool | AddRefService | NoteMigrated | GetDeviceInfo | LoadCache | AbortInit bool | ResetInit bool
  | TestService | DropService | ResetService
  | Return hresult

text \<open>
  \<open>t_lock\<close>: the thread holds \<open>_migrationLock\<close>; \<open>t_ready\<close>: it found \<open>_service\<close> not null;
  \<open>t_open\<close>: its \<open>pPersistentStore\<close> is a pointer not yet released; \<open>t_crashed\<close>: it called
  through a null pointer. The other fields are local variables of the operations.
\<close>

record thread =
  todo :: "lock_section list"
  t_done :: bool
  t_lock :: bool
  t_crashed :: bool
  t_ready :: bool
  t_open :: bool
  t_info :: BluetoothDeviceInfo
  t_payload :: string
  t_mirror :: bool
  t_snapshot :: device_cache
  t_version :: string
  t_raw :: string
  t_import :: device_cache
  t_empty :: bool
  t_paired :: "paired_device list"
  t_result :: hresult

text \<open>Returning destroys the guard object that holds \<open>_migrationLock\<close>.\<close>

definition finish :: "hresult \<Rightarrow> thread \<Rightarrow> thread" where
  "finish r t = t\<lparr>t_result := r, t_done := True, t_lock := False\<rparr>"

definition crash :: "thread \<Rightarrow> thread" where
  "crash t = t\<lparr>t_done := True, t_crashed := True\<rparr>"

definition stopUnlessMigrated :: "env \<Rightarrow> hresult \<Rightarrow> thread \<times> 'z dmgr_scheme \<Rightarrow> thread \<times> 'z dmgr_scheme" where
  "stopUnlessMigrated E r s = (case s of (t, w) \<Rightarrow>
     if e_migration E \<and> \<not> isMigrated w then (finish r t, w) else (t, w))"

text \<open>The two sections of \<open>setLastConnectTimeUtc\<close>: the record is read in one and written in the other.\<close>

definition findRecord :: "string \<Rightarrow> thread \<times> 'z dmgr_scheme \<Rightarrow> thread \<times> 'z dmgr_scheme" where
  "findRecord deviceID s = (case s of (t, w) \<Rightarrow>
     case getPairedDeviceInfo deviceID w of
       Inl _ \<Rightarrow> (finish ERROR_NONE t, w)
     | Inr info \<Rightarrow> (t\<lparr>t_info := info\<rparr>, w))"

definition stampRecord :: "env \<Rightarrow> string \<Rightarrow> thread \<times> 'z dmgr_scheme \<Rightarrow> thread \<times> 'z dmgr_scheme" where
  "stampRecord E deviceID s = (case s of (t, w) \<Rightarrow>
     (t, cachePut deviceID ((t_info t)\<lparr>lastConnectTimeUtc := to_string_ll (e_now E (trace w))\<rparr>) w))"

text \<open>\<open>setAutoConnect\<close> and \<open>setLastVolumeSetting\<close> find and replace the record in one section.\<close>

definition changeRecord :: "string \<Rightarrow> (BluetoothDeviceInfo \<Rightarrow> BluetoothDeviceInfo)
    \<Rightarrow> thread \<times> 'z dmgr_scheme \<Rightarrow> thread \<times> 'z dmgr_scheme" where
  "changeRecord deviceID f s = (case s of (t, w) \<Rightarrow>
     case getPairedDeviceInfo deviceID w of
       Inl _ \<Rightarrow> (finish ERROR_NOT_EXIST t, w)
     | Inr info \<Rightarrow> (t, cachePut deviceID (f info) w))"

definition eraseRecord :: "string \<Rightarrow> thread \<times> 'z dmgr_scheme \<Rightarrow> thread \<times> 'z dmgr_scheme" where
  "eraseRecord deviceID s = (case s of (t, w) \<Rightarrow>
     if um_find (pairedDeviceCache w) deviceID = None then (finish ERROR_NOT_EXIST t, w)
     else (t, w\<lparr>pairedDeviceCache := um_erase deviceID (pairedDeviceCache w)\<rparr>))"

definition fetchProperties :: "env \<Rightarrow> string \<Rightarrow> thread \<times> 'z dmgr_scheme \<Rightarrow> thread \<times> 'z dmgr_scheme" where
  "fetchProperties E deviceID s = (case s of (t, w) \<Rightarrow>
     case stoll deviceID of
       Inl e \<Rightarrow> (finish ERROR_INVALID_PARAMETER t, w)
     | Inr n \<Rightarrow>
         let h = word_of_int n; prop = e_devProps E (trace w) h;
             (result, w1) = btCall E (GetDeviceProperties h) w
         in if result \<noteq> BTRMGR_RESULT_SUCCESS then (finish ERROR_NOT_EXIST t, w1)
            else (t\<lparr>t_info := addedInfo E deviceID prop\<rparr>, w1))"

definition addRecord :: "string \<Rightarrow> thread \<times> 'z dmgr_scheme \<Rightarrow> thread \<times> 'z dmgr_scheme" where
  "addRecord deviceID s = (case s of (t, w) \<Rightarrow> (t, cachePut deviceID (t_info t) w))"

text \<open>
  The two steps from \<open>_service\<close> to the store, without a lock: the test for null and the call
  of \<open>QueryInterfaceByCallsign\<close> through the pointer, which \<open>deinit\<close> may have reset meanwhile.
  The functions that open the store return \<open>ERROR_GENERAL\<close> when either fails; the sections
  up to \<open>releaseStore\<close> then do nothing.
\<close>

definition checkService :: "thread \<times> 'z dmgr_scheme \<Rightarrow> thread \<times> 'z dmgr_scheme" where
  "checkService s = (case s of (t, w) \<Rightarrow>
     if \<not> service w then (t\<lparr>t_ready := False, t_result := ERROR_GENERAL\<rparr>, w) else (t\<lparr>t_ready := True\<rparr>, w))"

definition queryStore :: "env \<Rightarrow> thread \<times> 'z dmgr_scheme \<Rightarrow> thread \<times> 'z dmgr_scheme" where
  "queryStore E s = (case s of (t, w) \<Rightarrow>
     if \<not> t_ready t then (t, w)
     else if \<not> service w then (crash t, w)
     else let (ok, w1) = storeAcquire E w in
       if \<not> ok then (t\<lparr>t_result := ERROR_GENERAL\<rparr>, w1) else (t\<lparr>t_open := True\<rparr>, w1))"

definition releaseStore :: "thread \<times> 'z dmgr_scheme \<Rightarrow> thread \<times> 'z dmgr_scheme" where
  "releaseStore s = (case s of (t, w) \<Rightarrow> if t_open t then (t\<lparr>t_open := False\<rparr>, storeRelease w) else (t, w))"

text \<open>The sections of \<open>writeStorageFromCache\<close>: only the two snapshots are taken under the lock.\<close>

definition takePayload :: "env \<Rightarrow> thread \<times> 'z dmgr_scheme \<Rightarrow> thread \<times> 'z dmgr_scheme" where
  "takePayload E s = (case s of (t, w) \<Rightarrow>
     (if t_open t then t\<lparr>t_payload := storedPayload E (pairedDeviceCache w)\<rparr> else t, w))"

definition storePayload :: "env \<Rightarrow> thread \<times> 'z dmgr_scheme \<Rightarrow> thread \<times> 'z dmgr_scheme" where
  "storePayload E s = (case s of (t, w) \<Rightarrow>
     if \<not> t_open t then (t, w)
     else let (result, w1) = storeSetValue E PERSISTENT_STORE_KEY_DEVICE_INFO (t_payload t) w
       in (t\<lparr>t_result := result\<rparr>, w1))"

definition checkMirror :: "env \<Rightarrow> thread \<times> 'z dmgr_scheme \<Rightarrow> thread \<times> 'z dmgr_scheme" where
  "checkMirror E s = (case s of (t, w) \<Rightarrow>
     (t\<lparr>t_mirror := (t_open t \<and> t_result t = ERROR_NONE \<and> e_migration E \<and> isMigrated w)\<rparr>, w))"

definition takeFileSnapshot :: "thread \<times> 'z dmgr_scheme \<Rightarrow> thread \<times> 'z dmgr_scheme" where
  "takeFileSnapshot s = (case s of (t, w) \<Rightarrow>
     (if t_mirror t then t\<lparr>t_snapshot := filesystemSnapshot (pairedDeviceCache w)\<rparr> else t, w))"

definition writeFile :: "env \<Rightarrow> thread \<times> 'z dmgr_scheme \<Rightarrow> (thread \<times> 'z dmgr_scheme) option" where
  "writeFile E s = (case s of (t, w) \<Rightarrow>
     if t_mirror t then do { (result, w1) \<leftarrow> Write E (t_snapshot t) w; Some (t, w1) } else Some (t, w))"

text \<open>The sections of \<open>performMigration\<close>.\<close>

definition enterMigration :: "thread \<times> 'z dmgr_scheme \<Rightarrow> thread \<times> 'z dmgr_scheme" where
  "enterMigration s = (case s of (t, w) \<Rightarrow> (t\<lparr>t_lock := True\<rparr>, w))"

definition getMarker :: "env \<Rightarrow> thread \<times> 'z dmgr_scheme \<Rightarrow> thread \<times> 'z dmgr_scheme" where
  "getMarker E s = (case s of (t, w) \<Rightarrow>
     if \<not> t_open t then (t, w)
     else let (result, version, w1) = storeGetValue E PERSISTENT_STORE_KEY_MIGRATION_VERSION w
       in (t\<lparr>t_result := result, t_version := version\<rparr>, w1))"

definition markerSeen :: "thread \<Rightarrow> bool" where
  "markerSeen t \<longleftrightarrow> t_result t = ERROR_NONE \<and> t_version t = BLUETOOTH_MIGRATION_VERSION"

definition checkMarker :: "thread \<times> 'z dmgr_scheme \<Rightarrow> thread \<times> 'z dmgr_scheme" where
  "checkMarker s = (case s of (t, w) \<Rightarrow>
     if \<not> missingFromPersistentStore (t_result t) \<and> t_result t \<noteq> ERROR_NONE then (finish (t_result t) t, w)
     else if markerSeen t then (finish ERROR_NONE t, w\<lparr>isMigrated := True\<rparr>)
     else (t, w))"

definition readFile :: "env \<Rightarrow> thread \<times> 'z dmgr_scheme \<Rightarrow> thread \<times> 'z dmgr_scheme" where
  "readFile E s = (case s of (t, w) \<Rightarrow>
     let (readRawResult, rawContent, w1) = ReadRaw E '''' w in
     if readRawResult \<noteq> ERROR_NONE \<and> readRawResult \<noteq> ERROR_NOT_EXIST then (finish readRawResult t, w1)
     else (t\<lparr>t_raw := rawContent\<rparr>, w1))"

text \<open>\<open>writeCacheFromFilesystemPersistence\<close> builds the imported cache in one section and installs it in the next.\<close>

definition parseFile :: "env \<Rightarrow> thread \<times> 'z dmgr_scheme \<Rightarrow> thread \<times> 'z dmgr_scheme" where
  "parseFile E s = (case s of (t, w) \<Rightarrow>
     if t_raw t = '''' then (t\<lparr>t_import := [], t_result := ERROR_NONE\<rparr>, w)
     else let (result, importedDevices) = Parse E (t_raw t) [] in
       if result \<noteq> ERROR_NONE then (finish result t, w)
       else let pairedDevices = e_paired E (trace w); (rc, w1) = btCall E GetPairedDevices w in
         if rc \<noteq> BTRMGR_RESULT_SUCCESS then (finish ERROR_GENERAL t, w1)
         else (t\<lparr>t_import := importDevices (addrToDeviceId pairedDevices []) importedDevices [],
                 t_result := ERROR_NONE\<rparr>, w1))"

definition installImport :: "thread \<times> 'z dmgr_scheme \<Rightarrow> thread \<times> 'z dmgr_scheme" where
  "installImport s = (case s of (t, w) \<Rightarrow> (t, w\<lparr>pairedDeviceCache := t_import t\<rparr>))"

definition seeIfEmpty :: "thread \<times> 'z dmgr_scheme \<Rightarrow> thread \<times> 'z dmgr_scheme" where
  "seeIfEmpty s = (case s of (t, w) \<Rightarrow> (t\<lparr>t_empty := (pairedDeviceCache w = [])\<rparr>, w))"

text \<open>The two sections of \<open>updateCacheFromDevice\<close>, and the test of a result the callers make.\<close>

definition fetchPaired :: "env \<Rightarrow> thread \<times> 'z dmgr_scheme \<Rightarrow> thread \<times> 'z dmgr_scheme" where
  "fetchPaired E s = (case s of (t, w) \<Rightarrow>
     if t_empty t then (t, w)
     else let pairedDevices = e_paired E (trace w); (result, w1) = btCall E GetPairedDevices w in
       if result \<noteq> BTRMGR_RESULT_SUCCESS then (t\<lparr>t_result := ERROR_GENERAL\<rparr>, w1)
       else (t\<lparr>t_paired := pairedDevices, t_result := ERROR_NONE\<rparr>, w1))"

definition mergePaired :: "env \<Rightarrow> bool \<Rightarrow> thread \<times> 'z dmgr_scheme \<Rightarrow> thread \<times> 'z dmgr_scheme" where
  "mergePaired E backfillOnly s = (case s of (t, w) \<Rightarrow>
     if t_empty t \<or> t_result t \<noteq> ERROR_NONE then (t, w)
     else let cache = mergeDevices E backfillOnly (t_paired t) (pairedDeviceCache w)
       in (t, w\<lparr>pairedDeviceCache := (if \<not> backfillOnly then scrub E (t_paired t) cache else cache)\<rparr>))"

definition setMarker :: "env \<Rightarrow> thread \<times> 'z dmgr_scheme \<Rightarrow> thread \<times> 'z dmgr_scheme" where
  "setMarker E s = (case s of (t, w) \<Rightarrow>
     if \<not> t_open t then (t, w)
     else let (result, w1) = storeSetValue E PERSISTENT_STORE_KEY_MIGRATION_VERSION BLUETOOTH_MIGRATION_VERSION w
       in (t\<lparr>t_result := result\<rparr>, w1))"

definition checkResult :: "thread \<times> 'z dmgr_scheme \<Rightarrow> thread \<times> 'z dmgr_scheme" where
  "checkResult s = (case s of (t, w) \<Rightarrow> (if t_result t \<noteq> ERROR_NONE then finish (t_result t) t else t, w))"

definition setMigrated :: "bool \<Rightarrow> thread \<times> 'z dmgr_scheme \<Rightarrow> thread \<times> 'z dmgr_scheme" where
  "setMigrated b s = (case s of (t, w) \<Rightarrow> (t, w\<lparr>isMigrated := b\<rparr>))"

text \<open>The sections of \<open>clearMigration\<close>; an error of the first deletion skips the second.\<close>

definition deleteInfo :: "env \<Rightarrow> thread \<times> 'z dmgr_scheme \<Rightarrow> thread \<times> 'z dmgr_scheme" where
  "deleteInfo E s = (case s of (t, w) \<Rightarrow>
     if \<not> t_open t then (t, w)
     else let (result, w1) = storeDeleteKey E PERSISTENT_STORE_KEY_DEVICE_INFO w in (t\<lparr>t_result := result\<rparr>, w1))"

definition deleteMarker :: "env \<Rightarrow> thread \<times> 'z dmgr_scheme \<Rightarrow> thread \<times> 'z dmgr_scheme" where
  "deleteMarker E s = (case s of (t, w) \<Rightarrow>
     if \<not> t_open t \<or> storageFailed (t_result t) then (t, w)
     else let (result, w1) = storeDeleteKey E PERSISTENT_STORE_KEY_MIGRATION_VERSION w in (t\<lparr>t_result := result\<rparr>, w1))"

definition checkDeleted :: "thread \<times> 'z dmgr_scheme \<Rightarrow> thread \<times> 'z dmgr_scheme" where
  "checkDeleted s = (case s of (t, w) \<Rightarrow> (if storageFailed (t_result t) then finish (t_result t) t else t, w))"

definition clearCache :: "thread \<times> 'z dmgr_scheme \<Rightarrow> thread \<times> 'z dmgr_scheme" where
  "clearCache s = (case s of (t, w) \<Rightarrow> (t, w\<lparr>pairedDeviceCache := []\<rparr>))"

text \<open>The sections of \<open>init\<close> and \<open>deinit\<close>: \<open>_service\<close> is assigned, then \<open>AddRef\<close> is called through it.\<close>

definition takeService :: "bool \<Rightarrow> thread \<times> 'z dmgr_scheme \<Rightarrow> thread \<times> 'z dmgr_scheme" where
  "takeService srv s = (case s of (t, w) \<Rightarrow>
     if \<not> srv then (finish ERROR_GENERAL t, w) else (t, w\<lparr>service := True\<rparr>))"

definition addRefService :: "thread \<times> 'z dmgr_scheme \<Rightarrow> thread \<times> 'z dmgr_scheme" where
  "addRefService s = (case s of (t, w) \<Rightarrow> if service w then (t, emit EvShellAddRef w) else (crash t, w))"

definition noteMigrated :: "thread \<times> 'z dmgr_scheme \<Rightarrow> thread \<times> 'z dmgr_scheme" where
  "noteMigrated s = (case s of (t, w) \<Rightarrow>
     (if markerSeen t then t else finish ERROR_NONE t, w\<lparr>isMigrated := markerSeen t\<rparr>))"

definition readDeviceInfo :: "env \<Rightarrow> thread \<times> 'z dmgr_scheme \<Rightarrow> thread \<times> 'z dmgr_scheme" where
  "readDeviceInfo E s = (case s of (t, w) \<Rightarrow>
     if \<not> t_open t then (t, w)
     else let (result, str, w1) = storeGetValue E PERSISTENT_STORE_KEY_DEVICE_INFO w
       in (t\<lparr>t_result := result, t_payload := str\<rparr>, w1))"

definition loadCache :: "env \<Rightarrow> thread \<times> 'z dmgr_scheme \<Rightarrow> thread \<times> 'z dmgr_scheme" where
  "loadCache E s = (case s of (t, w) \<Rightarrow>
     if t_result t \<noteq> ERROR_NONE then (t, w)
     else (t, w\<lparr>pairedDeviceCache := um_put_all (map (loadedEntry E) (e_parseArr E (t_payload t))) []\<rparr>))"

text \<open>
  A failed step of \<open>init\<close>: \<open>Release\<close> is called through \<open>_service\<close>, then the pointer is reset and
  \<open>init\<close> returns. The argument tells whether a missing key counts as a failure.
\<close>

definition initFailed :: "bool \<Rightarrow> thread \<Rightarrow> bool" where
  "initFailed strict t \<longleftrightarrow> (if strict then t_result t \<noteq> ERROR_NONE else storageFailed (t_result t))"

definition abortInit :: "bool \<Rightarrow> thread \<times> 'z dmgr_scheme \<Rightarrow> thread \<times> 'z dmgr_scheme" where
  "abortInit strict s = (case s of (t, w) \<Rightarrow>
     if initFailed strict t then if service w then (t, emit EvShellRelease w) else (crash t, w)
     else (t, w))"

definition resetInit :: "bool \<Rightarrow> thread \<times> 'z dmgr_scheme \<Rightarrow> thread \<times> 'z dmgr_scheme" where
  "resetInit strict s = (case s of (t, w) \<Rightarrow>
     if initFailed strict t then (finish (t_result t) t, w\<lparr>service := False\<rparr>) else (t, w))"

text \<open>\<open>deinit\<close>: the test of \<open>_service\<close>, \<open>Release\<close> through it, and the reset.\<close>

definition testService :: "thread \<times> 'z dmgr_scheme \<Rightarrow> thread \<times> 'z dmgr_scheme" where
  "testService s = (case s of (t, w) \<Rightarrow> (if service w then t else finish ERROR_NONE t, w))"

definition dropService :: "thread \<times> 'z dmgr_scheme \<Rightarrow> thread \<times> 'z dmgr_scheme" where
  "dropService s = (case s of (t, w) \<Rightarrow> if service w then (t, emit EvShellRelease w) else (crash t, w))"

definition resetService :: "thread \<times> 'z dmgr_scheme \<Rightarrow> thread \<times> 'z dmgr_scheme" where
  "resetService s = (case s of (t, w) \<Rightarrow> (t, w\<lparr>service := False\<rparr>))"

definition autoSetting :: "bool \<Rightarrow> AutoConnectStatus" where
  "autoSetting enable = (if enable then AUTO_CONNECT_STATUS_ENABLED else AUTO_CONNECT_STATUS_DISABLED)"

fun section_step :: "env \<Rightarrow> lock_section \<Rightarrow> thread \<times> 'z dmgr_scheme \<Rightarrow> (thread \<times> 'z dmgr_scheme) option" where
  "section_step E (StopUnlessMigrated r) s = Some (stopUnlessMigrated E r s)"
| "section_step E (FindRecord k) s = Some (findRecord k s)"
| "section_step E (StampRecord k) s = Some (stampRecord E k s)"
| "section_step E (ChangeAuto k b) s = Some (changeRecord k (autoConnectStatus_update (\<lambda>_. autoSetting b)) s)"
| "section_step E (ChangeVolume k v) s = Some (changeRecord k (lastVolumeSetting_update (\<lambda>_. v)) s)"
| "section_step E (EraseRecord k) s = Some (eraseRecord k s)"
| "section_step E (FetchProperties k) s = Some (fetchProperties E k s)"
| "section_step E (AddRecord k) s = Some (addRecord k s)"
| "section_step E CheckService s = Some (checkService s)"
| "section_step E QueryStore s = Some (queryStore E s)"
| "section_step E ReleaseStore s = Some (releaseStore s)"
| "section_step E TakePayload s = Some (takePayload E s)"
| "section_step E StorePayload s = Some (storePayload E s)"
| "section_step E CheckMirror s = Some (checkMirror E s)"
| "section_step E TakeFileSnapshot s = Some (takeFileSnapshot s)"
| "section_step E WriteFile s = writeFile E s"
| "section_step E EnterMigration s = Some (enterMigration s)"
| "section_step E GetMarker s = Some (getMarker E s)"
| "section_step E CheckMarker s = Some (checkMarker s)"
| "section_step E ReadFile s = Some (readFile E s)"
| "section_step E ParseFile s = Some (parseFile E s)"
| "section_step E InstallImport s = Some (installImport s)"
| "section_step E SeeIfEmpty s = Some (seeIfEmpty s)"
| "section_step E FetchPaired s = Some (fetchPaired E s)"
| "section_step E (MergePaired b) s = Some (mergePaired E b s)"
| "section_step E SetMarker s = Some (setMarker E s)"
| "section_step E CheckResult s = Some (checkResult s)"
| "section_step E (SetMigrated b) s = Some (setMigrated b s)"
| "section_step E DeleteInfo s = Some (deleteInfo E s)"
| "section_step E DeleteMarker s = Some (deleteMarker E s)"
| "section_step E CheckDeleted s = Some (checkDeleted s)"
| "section_step E ClearCache s = Some (clearCache s)"
| "section_step E (TakeService b) s = Some (takeService b s)"
| "section_step E AddRefService s = Some (addRefService s)"
| "section_step E NoteMigrated s = Some (noteMigrated s)"
| "section_step E GetDeviceInfo s = Some (readDeviceInfo E s)"
| "section_step E LoadCache s = Some (loadCache E s)"
| "section_step E (AbortInit b) s = Some (abortInit b s)"
| "section_step E (ResetInit b) s = Some (resetInit b s)"
| "section_step E TestService s = Some (testService s)"
| "section_step E DropService s = Some (dropService s)"
| "section_step E ResetService s = Some (resetService s)"
| "section_step E (Return r) s = (case s of (t, w) \<Rightarrow> Some (finish r t, w))"

subsection \<open>Operations as programs\<close>

definition storage_program :: "lock_section list" where
  "storage_program = [CheckService, QueryStore, TakePayload, StorePayload, CheckMirror, TakeFileSnapshot,
     WriteFile, ReleaseStore]"

definition marker_program :: "lock_section list" where
  "marker_program = [CheckService, QueryStore, GetMarker, ReleaseStore]"

definition import_program :: "lock_section list" where
  "import_program = [ReadFile, ParseFile, InstallImport, SeeIfEmpty, FetchPaired, MergePaired True, CheckResult]"

definition migration_program :: "lock_section list" where
  "migration_program = EnterMigration # marker_program @ CheckMarker # import_program @ storage_program @
     [CheckResult, CheckService, QueryStore, SetMarker, ReleaseStore, CheckResult, SetMigrated True, Return ERROR_NONE]"

definition clear_program :: "lock_section list" where
  "clear_program = [EnterMigration, CheckService, QueryStore, DeleteInfo, DeleteMarker, ReleaseStore, CheckDeleted,
     ClearCache, SetMigrated False, Return ERROR_NONE]"

definition load_program :: "lock_section list" where
  "load_program = [CheckService, QueryStore, GetDeviceInfo, ReleaseStore, LoadCache, AbortInit False, ResetInit False]"

definition init_program :: "env \<Rightarrow> bool \<Rightarrow> lock_section list" where
  "init_program E srv = TakeService srv # AddRefService #
     (if e_migration E then marker_program @ NoteMigrated # load_program
      else load_program @ [FetchPaired, MergePaired False, AbortInit True, ResetInit True] @ storage_program @
        [AbortInit True, ResetInit True]) @
     [Return ERROR_NONE]"

fun program :: "env \<Rightarrow> dm_op \<Rightarrow> lock_section list" where
  "program E (SetAutoConnect k b) = StopUnlessMigrated ERROR_GENERAL # ChangeAuto k b # storage_program"
| "program E (SetLastConnectTimeUtc k) = FindRecord k # StampRecord k # StopUnlessMigrated ERROR_NONE # storage_program"
| "program E (SetLastVolumeSetting k v) = ChangeVolume k v # StopUnlessMigrated ERROR_NONE # storage_program"
| "program E (AddDevice k) = FetchProperties k # AddRecord k # StopUnlessMigrated ERROR_NONE # storage_program"
| "program E (RemoveDevice k) = EraseRecord k # StopUnlessMigrated ERROR_NONE # storage_program"
| "program E PerformMigration = migration_program"
| "program E ClearMigration = clear_program"
| "program E (Init srv) = init_program E srv"
| "program E Deinit = [TestService, DropService, ResetService]"

text \<open>\<open>setLastConnectTimeUtc\<close> returns nothing: its result here is \<open>ERROR_NONE\<close>.\<close>

definition op_result :: "dm_op \<Rightarrow> hresult \<Rightarrow> hresult" where
  "op_result op r = (case op of SetLastConnectTimeUtc k \<Rightarrow> ERROR_NONE | _ \<Rightarrow> r)"

definition spawn :: "env \<Rightarrow> dm_op \<Rightarrow> thread" where
  "spawn E op = \<lparr>todo = program E op, t_done = False, t_lock = False, t_crashed = False, t_ready = False,
     t_open = False, t_info = defaultDeviceInfo, t_payload = '''', t_mirror = False, t_snapshot = [],
     t_version = '''', t_raw = '''', t_import = [], t_empty = False, t_paired = [], t_result = ERROR_NONE\<rparr>"

fun alone :: "env \<Rightarrow> lock_section list \<Rightarrow> thread \<times> 'z dmgr_scheme \<Rightarrow> (thread \<times> 'z dmgr_scheme) option" where
  "alone E [] s = Some s"
| "alone E (sec # secs) s = do { s' \<leftarrow> section_step E sec s; if t_done (fst s') then Some s' else alone E secs s' }"

lemma alone_append:
  "alone E (secs @ secs') s =
     do { s' \<leftarrow> alone E secs s; if t_done (fst s') \<and> secs \<noteq> [] then Some s' else alone E secs' s' }"
  by (induction secs arbitrary: s) (auto split: Option.bind_splits)

subsection \<open>Pools of threads\<close>

text \<open>
  A thread waits at \<open>EnterMigration\<close> while another holds \<open>_migrationLock\<close>; after a call
  through a null pointer the process is gone.
\<close>

definition may_run :: "lock_section \<Rightarrow> thread list \<Rightarrow> bool" where
  "may_run sec ts \<longleftrightarrow> (\<forall>t \<in> set ts. \<not> t_crashed t) \<and> (sec = EnterMigration \<longrightarrow> (\<forall>t \<in> set ts. \<not> t_lock t))"

inductive cstep :: "env \<Rightarrow> thread list \<times> 'z dmgr_scheme \<Rightarrow> thread list \<times> 'z dmgr_scheme \<Rightarrow> bool" for E where
  step_thread: "i < length ts \<Longrightarrow> \<not> t_done (ts ! i) \<Longrightarrow> todo (ts ! i) = sec # secs \<Longrightarrow> may_run sec ts \<Longrightarrow>
    section_step E sec ((ts ! i)\<lparr>todo := secs\<rparr>, w) = Some (t, w') \<Longrightarrow> cstep E (ts, w) (ts[i := t], w')"

inductive_cases cstepE: "cstep E (ts, w) s'"

end
