(* ===== verification/SectionsAlone.thy ===== *)
theory SectionsAlone
  imports Interleaving RegistrySpec
begin

section \<open>Run alone, the sections are the operation\<close>

text \<open>
  Theory Interleaving cuts the operations of the registry into sections. Here: run without
  interruption, the sections of every operation give the result and the state of the
  operation. The lemmas follow the functions the operations call: each is a list of
  sections that starts and ends with an idle thread, and such lists compose.
\<close>

subsection \<open>The functions the operations call\<close>

definition outcome :: "thread \<times> 'z dmgr_scheme \<Rightarrow> hresult \<times> 'z dmgr_scheme" where
  "outcome s = (t_result (fst s), snd s)"

lemmas device_sections = stopUnlessMigrated_def findRecord_def stampRecord_def changeRecord_def eraseRecord_def
  fetchProperties_def addRecord_def

lemmas storage_sections = checkService_def queryStore_def releaseStore_def takePayload_def storePayload_def
  checkMirror_def takeFileSnapshot_def writeFile_def

lemmas migration_sections = enterMigration_def getMarker_def checkMarker_def readFile_def parseFile_def
  installImport_def seeIfEmpty_def fetchPaired_def mergePaired_def setMarker_def checkResult_def setMigrated_def
  deleteInfo_def deleteMarker_def checkDeleted_def clearCache_def

lemmas life_sections = takeService_def addRefService_def noteMigrated_def readDeviceInfo_def loadCache_def initFailed_def abortInit_def
  resetInit_def testService_def dropService_def resetService_def

lemmas abort_sections = initFailed_def abortInit_def resetInit_def releaseService_def

lemmas section_defs = device_sections storage_sections migration_sections life_sections finish_def crash_def

text \<open>Between the functions an operation calls, its thread is idle: neither done nor holding a store interface.\<close>

definition idle :: "thread \<Rightarrow> bool" where
  "idle t \<longleftrightarrow> \<not> t_done t \<and> \<not> t_open t"

text \<open>A list of sections that implements a function returning a result.\<close>

definition implements :: "env \<Rightarrow> lock_section list \<Rightarrow> (hresult \<times> 'z dmgr_scheme) option \<Rightarrow> thread \<Rightarrow> 'z dmgr_scheme \<Rightarrow> bool" where
  "implements E secs res t w \<longleftrightarrow> (case res of
     None \<Rightarrow> alone E secs (t, w) = None
   | Some (r, w') \<Rightarrow> \<exists>t'. alone E secs (t, w) = Some (t', w') \<and> idle t' \<and> t_result t' = r \<and> t_empty t' = t_empty t)"

lemma alone_storage:
  "idle t \<Longrightarrow> implements E storage_program (writeStorageFromCache E w) t w"
  by (auto simp: implements_def idle_def storage_program_def storage_sections writeStorageFromCache_def
      writeFilesystemPersistenceFromCache_def storeAcquire_def storeSetValue_def Let_def
      split: Option.bind_split prod.split option.split)

lemma implements_outcome:
  "implements E secs res t w \<Longrightarrow> map_option outcome (alone E secs (t, w)) = res"
  by (auto simp: implements_def outcome_def split: option.splits)

lemma alone_sync:
  assumes "idle t" "t_result t = ERROR_NONE"
  shows "map_option outcome (alone E (StopUnlessMigrated ERROR_NONE # storage_program) (t, w)) = syncStorage E w"
  using assms implements_outcome [OF alone_storage [OF assms(1)], of E w]
  by (simp add: stopUnlessMigrated_def finish_def syncStorage_def outcome_def idle_def)

text \<open>Composition: the rest of a program runs from where a part of it ended.\<close>

lemma alone_seq:
  "alone E secs s = Some s1 \<Longrightarrow> \<not> t_done (fst s1) \<Longrightarrow> alone E (secs @ rest) s = alone E rest s1"
  by (simp add: alone_append)

lemma alone_stops:
  "alone E secs s = Some s1 \<Longrightarrow> t_done (fst s1) \<Longrightarrow> secs \<noteq> [] \<Longrightarrow> alone E (secs @ rest) s = Some s1"
  by (simp add: alone_append)

lemma alone_diverges: "alone E secs s = None \<Longrightarrow> alone E (secs @ rest) s = None"
  by (simp add: alone_append)

lemma alone_marker:
  assumes "idle t" "readMigrationVersionFromStorage E w = (r, v, w')"
  shows "\<exists>t'. alone E marker_program (t, w) = Some (t', w') \<and> idle t' \<and> t_result t' = r \<and> t_empty t' = t_empty t \<and>
    (r = ERROR_NONE \<longrightarrow> t_version t' = v)"
  using assms
  by (auto simp: idle_def marker_program_def storage_sections getMarker_def readMigrationVersionFromStorage_def
      storeAcquire_def Let_def split: prod.splits if_splits)

lemma alone_writeMarker:
  assumes "idle t" "writeMigrationVersionToStorage E w = (r, w')"
  shows "\<exists>t'. alone E [CheckService, QueryStore, SetMarker, ReleaseStore] (t, w) = Some (t', w') \<and> idle t' \<and> t_result t' = r"
  using assms
  by (auto simp: idle_def storage_sections setMarker_def writeMigrationVersionToStorage_def
      storeAcquire_def Let_def split: prod.splits if_splits)

lemma alone_load:
  assumes "idle t" "updateCacheFromStorage E w = (r, w')"
  shows "\<exists>t'. alone E [CheckService, QueryStore, GetDeviceInfo, ReleaseStore, LoadCache] (t, w) = Some (t', w') \<and>
    idle t' \<and> t_result t' = r \<and> t_empty t' = t_empty t"
  using assms
  by (auto simp: idle_def storage_sections readDeviceInfo_def loadCache_def updateCacheFromStorage_def
      storeAcquire_def Let_def split: prod.splits if_splits)

lemma alone_reconcile:
  assumes "idle t" "\<not> t_empty t" "updateCacheFromDevice E b w = (r, w')"
  shows "\<exists>t'. alone E [FetchPaired, MergePaired b] (t, w) = Some (t', w') \<and> idle t' \<and> t_result t' = r \<and> \<not> t_empty t'"
  using assms
  by (auto simp: idle_def fetchPaired_def mergePaired_def updateCacheFromDevice_def Let_def split: prod.splits if_splits)

lemma alone_import:
  assumes "idle t" "importCache E w = (r, w')"
  shows "\<exists>t'. alone E [ReadFile, ParseFile, InstallImport, SeeIfEmpty, FetchPaired, MergePaired True, CheckResult] (t, w) =
      Some (t', w') \<and> t_result t' = r \<and> (if r \<noteq> ERROR_NONE then t_done t' else idle t')"
proof -
  obtain rr raw w1 where rd: "ReadRaw E '''' w = (rr, raw, w1)" by (metis prod_cases3)
  obtain ir w2 where im: "writeCacheFromFilesystemPersistence E raw w1 = (ir, w2)" by fastforce
  let ?t1 = "t\<lparr>t_raw := raw\<rparr>"
  have parse: "\<exists>t2. alone E [ParseFile, InstallImport] (?t1, w1) = Some (t2, w2) \<and> t_result t2 = ir \<and>
      (if ir \<noteq> ERROR_NONE then t_done t2 else idle t2)"
    using im assms(1)
    by (auto simp: idle_def parseFile_def installImport_def finish_def writeCacheFromFilesystemPersistence_def Let_def
        split: if_splits prod.splits)
  then obtain t2 where t2: "alone E [ParseFile, InstallImport] (?t1, w1) = Some (t2, w2)" "t_result t2 = ir"
    "if ir \<noteq> ERROR_NONE then t_done t2 else idle t2" by blast
  show ?thesis
  proof (cases "rr \<noteq> ERROR_NONE \<and> rr \<noteq> ERROR_NOT_EXIST")
    case True
    with rd assms show ?thesis by (auto simp: importCache_def readFile_def finish_def)
  next
    case False
    have rest: "alone E ([ReadFile, ParseFile, InstallImport] @ later) (t, w) = alone E ([ParseFile, InstallImport] @ later) (?t1, w1)" for later
    proof -
      have "readFile E (t, w) = (?t1, w1)" using rd False by (auto simp: readFile_def)
      then show ?thesis using assms(1) by (simp add: idle_def)
    qed
    show ?thesis
    proof (cases "ir = ERROR_NONE")
      case False
      with t2 \<open>\<not> (rr \<noteq> ERROR_NONE \<and> rr \<noteq> ERROR_NOT_EXIST)\<close> rd im assms(2) rest
          alone_stops [OF t2(1), of "[SeeIfEmpty, FetchPaired, MergePaired True, CheckResult]"]
      show ?thesis by (auto simp: importCache_def)
    next
      case True
      have "alone E [ReadFile, ParseFile, InstallImport, SeeIfEmpty, FetchPaired, MergePaired True, CheckResult] (t, w) =
          alone E [SeeIfEmpty, FetchPaired, MergePaired True, CheckResult] (t2, w2)"
        using rest [of "[SeeIfEmpty, FetchPaired, MergePaired True, CheckResult]"]
          alone_seq [OF t2(1), of "[SeeIfEmpty, FetchPaired, MergePaired True, CheckResult]"] t2(3) True
        by (simp add: idle_def)
      moreover have "\<exists>t'. alone E [SeeIfEmpty, FetchPaired, MergePaired True, CheckResult] (t2, w2) =
          Some (t', w') \<and> t_result t' = r \<and> (if r \<noteq> ERROR_NONE then t_done t' else idle t')"
        using True t2(2,3) assms(2) rd im \<open>\<not> (rr \<noteq> ERROR_NONE \<and> rr \<noteq> ERROR_NOT_EXIST)\<close>
        by (auto simp: idle_def importCache_def seeIfEmpty_def fetchPaired_def mergePaired_def checkResult_def finish_def
            updateCacheFromDevice_def Let_def split: prod.splits if_splits)
      ultimately show ?thesis by simp
    qed
  qed
qed


subsection \<open>The operations\<close>

lemma alone_migrate_rest:
  assumes "idle t"
  shows "map_option outcome (alone E (storage_program @ CheckResult # [CheckService, QueryStore, SetMarker, ReleaseStore] @
      [CheckResult, SetMigrated True, Return ERROR_NONE]) (t, w)) =
    do { (writeResult, w3) \<leftarrow> writeStorageFromCache E w;
      if writeResult \<noteq> ERROR_NONE then Some (writeResult, w3)
      else (let (writeVersionResult, w4) = writeMigrationVersionToStorage E w3 in
        if writeVersionResult \<noteq> ERROR_NONE then Some (writeVersionResult, w4)
        else Some (ERROR_NONE, w4\<lparr>isMigrated := True\<rparr>)) }"
proof (cases "writeStorageFromCache E w")
  case None
  with alone_storage [OF assms, of E w] have "alone E storage_program (t, w) = None" by (simp add: implements_def)
  with None show ?thesis by (simp only: alone_diverges) simp
next
  case (Some p)
  obtain r w3 where p: "p = (r, w3)" by (cases p)
  obtain t' where t': "alone E storage_program (t, w) = Some (t', w3)" "idle t'" "t_result t' = r"
    using alone_storage [OF assms, of E w] Some p by (auto simp: implements_def)
  obtain xr w4 where mk: "writeMigrationVersionToStorage E w3 = (xr, w4)" by fastforce
  obtain t2 where t2: "alone E [CheckService, QueryStore, SetMarker, ReleaseStore] (t', w3) = Some (t2, w4)" "idle t2" "t_result t2 = xr"
    using alone_writeMarker [OF t'(2) mk] by blast
  have "\<not> t_done (fst (t', w3))" "\<not> t_done (fst (t2, w4))" using t'(2) t2(2) by (simp_all add: idle_def)
  note seq = alone_seq [OF t'(1) this(1)] alone_seq [OF t2(1) this(2)]
  show ?thesis
    unfolding seq(1) using Some p mk t'(2,3) t2(2,3)
    by (auto simp del: append.simps simp: seq(2) [unfolded append.simps] seq(2) idle_def checkResult_def setMigrated_def finish_def outcome_def)
qed

lemma alone_performMigration:
  assumes "idle t" "t_version t = ''''"
  shows "map_option outcome (alone E migration_program (t, w)) = performMigration E w"
proof -
  let ?last = "storage_program @ CheckResult # [CheckService, QueryStore, SetMarker, ReleaseStore] @
      [CheckResult, SetMigrated True, Return ERROR_NONE]"
  obtain vr v w1 where rd: "readMigrationVersionFromStorage E w = (vr, v, w1)" by (metis prod_cases3)
  obtain t1 where t1: "alone E marker_program (t\<lparr>t_lock := True\<rparr>, w) = Some (t1, w1)" "idle t1" "t_result t1 = vr"
      "vr = ERROR_NONE \<longrightarrow> t_version t1 = v"
    using alone_marker [of "t\<lparr>t_lock := True\<rparr>" E w] rd assms by (auto simp: idle_def)
  obtain ir w2 where im: "importCache E w1 = (ir, w2)" by fastforce
  obtain t2 where t2: "alone E import_program (t1, w1) = Some (t2, w2)" "t_result t2 = ir"
      "if ir \<noteq> ERROR_NONE then t_done t2 else idle t2"
    using alone_import [OF t1(2) im] by (auto simp: import_program_def)
  have m: "migration_program = EnterMigration # marker_program @ CheckMarker # import_program @ ?last"
    by (simp add: migration_program_def import_program_def)
  have "alone E migration_program (t, w) = alone E (CheckMarker # import_program @ ?last) (t1, w1)"
    using t1(1,2) assms(1) alone_seq [OF t1(1)] by (simp add: m enterMigration_def idle_def)
  also have "map_option outcome \<dots> = performMigration E w"
  proof (cases "vr \<noteq> ERROR_NONE \<and> \<not> missingFromPersistentStore vr \<or> vr = ERROR_NONE \<and> v = BLUETOOTH_MIGRATION_VERSION")
    case True
    with t1(2-4) rd show ?thesis
      by (auto simp: performMigration_def Let_def checkMarker_def markerSeen_def finish_def outcome_def)
  next
    case False
    have "checkMarker (t1, w1) = (t1, w1)" using False t1(3,4) by (auto simp: checkMarker_def markerSeen_def)
    then have c: "alone E (CheckMarker # import_program @ ?last) (t1, w1) = alone E (import_program @ ?last) (t1, w1)"
      using t1(2) by (simp add: idle_def del: append.simps)
    have pm: "performMigration E w = (if ir \<noteq> ERROR_NONE then Some (ir, w2)
        else do { (writeResult, w3) \<leftarrow> writeStorageFromCache E w2;
          if writeResult \<noteq> ERROR_NONE then Some (writeResult, w3)
          else (let (writeVersionResult, w4) = writeMigrationVersionToStorage E w3 in
            if writeVersionResult \<noteq> ERROR_NONE then Some (writeVersionResult, w4)
            else Some (ERROR_NONE, w4\<lparr>isMigrated := True\<rparr>)) })"
      using False rd im by (auto simp: performMigration_def Let_def)
    show ?thesis
    proof (cases "ir = ERROR_NONE")
      case True
      with t2 have "idle t2" by simp
      with alone_seq [OF t2(1), of ?last] have "alone E (import_program @ ?last) (t1, w1) = alone E ?last (t2, w2)"
        by (simp add: idle_def)
      with c pm True alone_migrate_rest [OF \<open>idle t2\<close>, of E w2] show ?thesis by simp
    next
      case False
      with t2 alone_stops [OF t2(1), of ?last] have "alone E (import_program @ ?last) (t1, w1) = Some (t2, w2)"
        by (simp add: import_program_def)
      with c pm False t2(2) show ?thesis by (simp add: outcome_def)
    qed
  qed
  finally show ?thesis .
qed

lemma alone_clearMigration:
  "idle t \<Longrightarrow> map_option outcome (alone E clear_program (t, w)) = Some (clearMigration E w)"
  by (auto simp: idle_def clear_program_def clearMigration_def outcome_def storage_sections migration_sections
      storeAcquire_def storeDeleteKey_def storageFailed_def missingFromPersistentStore_def finish_def Let_def)


lemma alone_initMigration:
  assumes "idle t" "t_version t = ''''" "service w"
  shows "map_option outcome (alone E (marker_program @ NoteMigrated # load_program @ [Return ERROR_NONE]) (t, w)) =
    Some (initMigrationBuild E w)"
proof -
  obtain vr v w1 where rd: "readMigrationVersionFromStorage E w = (vr, v, w1)" by (metis prod_cases3)
  obtain t1 where t1: "alone E marker_program (t, w) = Some (t1, w1)" "idle t1" "t_result t1 = vr"
      "vr = ERROR_NONE \<longrightarrow> t_version t1 = v"
    using alone_marker [OF assms(1) rd] by blast
  have sv: "service w1" using io_fields [OF readVersion_io [OF rd]] assms(3) by simp
  have "alone E (marker_program @ NoteMigrated # load_program @ [Return ERROR_NONE]) (t, w) =
      alone E (NoteMigrated # load_program @ [Return ERROR_NONE]) (t1, w1)"
    using alone_seq [OF t1(1)] t1(2) by (simp add: idle_def)
  also have "map_option outcome \<dots> = Some (initMigrationBuild E w)"
  proof (cases "vr = ERROR_NONE \<and> v = BLUETOOTH_MIGRATION_VERSION")
    case False
    with t1(3,4) rd show ?thesis
      by (auto simp: initMigrationBuild_def Let_def noteMigrated_def markerSeen_def finish_def outcome_def)
  next
    case True
    let ?w2 = "w1\<lparr>isMigrated := True\<rparr>"
    obtain sr w3 where ld: "updateCacheFromStorage E ?w2 = (sr, w3)" by fastforce
    obtain t2 where t2: "alone E [CheckService, QueryStore, GetDeviceInfo, ReleaseStore, LoadCache] (t1, ?w2) = Some (t2, w3)"
        "idle t2" "t_result t2 = sr"
      using alone_load [OF t1(2) ld] by blast
    have "service w3" using updateCacheFromStorage_service [OF ld] sv by simp
    moreover have "noteMigrated (t1, w1) = (t1, ?w2)"
      using True t1(3,4) by (simp add: noteMigrated_def markerSeen_def)
    moreover have "alone E (load_program @ [Return ERROR_NONE]) (t1, ?w2) = alone E [AbortInit False, ResetInit False, Return ERROR_NONE] (t2, w3)"
      using alone_seq [OF t2(1), of "[AbortInit False, ResetInit False, Return ERROR_NONE]"] t2(2) by (simp add: load_program_def idle_def)
    ultimately show ?thesis
      using True t1(2-4) t2(2,3) rd ld
      by (auto simp: initMigrationBuild_def Let_def abort_sections finish_def outcome_def idle_def)
  qed
  finally show ?thesis .
qed

lemma alone_initPlain_write:
  assumes "idle t" "service w"
  shows "map_option outcome (alone E (storage_program @ [AbortInit True, ResetInit True, Return ERROR_NONE]) (t, w)) =
    map_option (\<lambda>(r, w'). if r \<noteq> ERROR_NONE then (r, releaseService w') else (ERROR_NONE, w')) (writeStorageFromCache E w)"
proof (cases "writeStorageFromCache E w")
  case None
  with alone_storage [OF assms(1), of E w] have "alone E storage_program (t, w) = None" by (simp add: implements_def)
  with None show ?thesis by (simp add: alone_diverges)
next
  case (Some p)
  obtain r w' where p: "p = (r, w')" by (cases p)
  obtain t' where t': "alone E storage_program (t, w) = Some (t', w')" "idle t'" "t_result t' = r"
    using alone_storage [OF assms(1), of E w] Some p by (auto simp: implements_def)
  have "service w'" using io_fields [OF writeStorage_io [of E w r w']] Some p assms(2) by simp
  with t' Some p show ?thesis
    using alone_seq [OF t'(1)] by (auto simp: idle_def abort_sections finish_def outcome_def)
qed

lemma alone_initPlain_reconciled:
  assumes "idle t" "service w"
  shows "map_option outcome (alone E (AbortInit True # ResetInit True # storage_program @ [AbortInit True, ResetInit True, Return ERROR_NONE]) (t, w)) =
    (if t_result t \<noteq> ERROR_NONE then Some (t_result t, releaseService w)
     else map_option (\<lambda>(r, w'). if r \<noteq> ERROR_NONE then (r, releaseService w') else (ERROR_NONE, w')) (writeStorageFromCache E w))"
proof (cases "t_result t = ERROR_NONE")
  case True
  then have "alone E (AbortInit True # ResetInit True # storage_program @ [AbortInit True, ResetInit True, Return ERROR_NONE]) (t, w) =
      alone E (storage_program @ [AbortInit True, ResetInit True, Return ERROR_NONE]) (t, w)"
    using assms(1) by (simp add: abort_sections idle_def)
  with True alone_initPlain_write [OF assms, of E] show ?thesis by simp
next
  case False
  with assms show ?thesis by (simp add: abort_sections finish_def outcome_def idle_def)
qed

lemma alone_initPlain:
  assumes "idle t" "\<not> t_empty t" "service w"
  shows "map_option outcome (alone E (load_program @ [FetchPaired, MergePaired False, AbortInit True, ResetInit True] @
      storage_program @ [AbortInit True, ResetInit True, Return ERROR_NONE]) (t, w)) = initPlainBuild E w"
proof -
  let ?load = "[CheckService, QueryStore, GetDeviceInfo, ReleaseStore, LoadCache]"
  let ?store = "AbortInit True # ResetInit True # storage_program @ [AbortInit True, ResetInit True, Return ERROR_NONE]"
  obtain sr w1 where ld: "updateCacheFromStorage E w = (sr, w1)" by fastforce
  obtain dr w2 where dv: "updateCacheFromDevice E False w1 = (dr, w2)" by fastforce
  obtain t1 where t1: "alone E ?load (t, w) = Some (t1, w1)" "idle t1" "t_result t1 = sr" "\<not> t_empty t1"
    using alone_load [OF assms(1) ld] assms(2) by auto
  obtain t2 where t2: "alone E [FetchPaired, MergePaired False] (t1, w1) = Some (t2, w2)" "idle t2" "t_result t2 = dr"
    using alone_reconcile [OF t1(2,4) dv] by blast
  have sv: "service w1" "service w2"
    using updateCacheFromStorage_service [OF ld] updateCacheFromDevice_service [OF dv] assms(3) by simp_all
  have "alone E (load_program @ [FetchPaired, MergePaired False, AbortInit True, ResetInit True] @
      storage_program @ [AbortInit True, ResetInit True, Return ERROR_NONE]) (t, w) =
      alone E (AbortInit False # ResetInit False # [FetchPaired, MergePaired False] @ ?store) (t1, w1)"
    using alone_seq [OF t1(1), of "AbortInit False # ResetInit False # [FetchPaired, MergePaired False] @ ?store"] t1(2)
    by (simp add: load_program_def idle_def)
  also have "map_option outcome \<dots> = initPlainBuild E w"
  proof (cases "storageFailed sr")
    case True
    with t1(2,3) ld sv show ?thesis
      by (auto simp: initPlainBuild_def Let_def abort_sections finish_def outcome_def idle_def)
  next
    case False
    then have "alone E (AbortInit False # ResetInit False # [FetchPaired, MergePaired False] @ ?store) (t1, w1) =
        alone E ([FetchPaired, MergePaired False] @ ?store) (t1, w1)"
      using t1(2,3) by (simp add: abort_sections idle_def del: append.simps)
    also have "\<dots> = alone E ?store (t2, w2)" using alone_seq [OF t2(1)] t2(2) by (simp add: idle_def)
    finally show ?thesis
      using alone_initPlain_reconciled [OF t2(2) sv(2), of E] False t2(3) ld dv
      by (cases "writeStorageFromCache E w2") (auto simp: initPlainBuild_def Let_def)
  qed
  finally show ?thesis .
qed

lemma alone_init:
  assumes "idle t" "t_version t = ''''" "\<not> t_empty t"
  shows "map_option outcome (alone E (init_program E srv) (t, w)) = init E srv w"
  using assms alone_initMigration [OF assms(1,2), of "emit EvShellAddRef (w\<lparr>service := True\<rparr>)" E]
    alone_initPlain [OF assms(1,3), of "emit EvShellAddRef (w\<lparr>service := True\<rparr>)" E]
  by (auto simp: init_program_def init_def takeService_def addRefService_def finish_def outcome_def idle_def Let_def)

lemma spawn_fields [simp]:
  "todo (spawn E op) = program E op" "\<not> t_done (spawn E op)" "t_result (spawn E op) = ERROR_NONE"
  "t_info (spawn E op) = defaultDeviceInfo" "idle (spawn E op)" "t_version (spawn E op) = ''''"
  "\<not> t_empty (spawn E op)" "\<not> t_lock (spawn E op)" "\<not> t_crashed (spawn E op)" "\<not> t_open (spawn E op)"
  "\<not> t_ready (spawn E op)" "t_import (spawn E op) = []"
  by (simp_all add: spawn_def idle_def)

lemma alone_is_atomic:
  fixes w :: "'z dmgr_scheme"
  shows "map_option (\<lambda>s. (op_result op (t_result (fst s)), snd s)) (alone E (program E op) (spawn E op, w)) = dm_step E op w"
proof -
  have out: "map_option (\<lambda>s. (t_result (fst s), snd s)) x = map_option outcome x"
    for x :: "(thread \<times> 'z dmgr_scheme) option"
    by (simp add: outcome_def [abs_def])
  have storage: "map_option outcome (alone E storage_program (t, v)) = writeStorageFromCache E v" if "\<not> t_done t" "\<not> t_open t"
    for t and v :: "'z dmgr_scheme"
    using implements_outcome [OF alone_storage, of t E v] that by (simp add: idle_def)
  note sections = out device_sections finish_def op_sync getPairedDeviceInfo_def storage outcome_def
  show ?thesis
  proof (cases op)
    case (SetAutoConnect k' b)
    then show ?thesis
      by (auto simp: sections op_result_def syncStorage_def autoSetting_def split: option.split)
  next
    case (SetLastVolumeSetting k' v)
    then show ?thesis
      by (auto simp: sections op_result_def syncStorage_def split: option.split)
  next
    case (RemoveDevice k')
    then show ?thesis
      by (auto simp: sections op_result_def syncStorage_def)
  next
    case (AddDevice k')
    then show ?thesis
      by (auto simp: sections op_result_def syncStorage_def Let_def btCall_def split: sum.split prod.split)
  next
    case (SetLastConnectTimeUtc k')
    have stored: "map_option (\<lambda>s. (ERROR_NONE, snd s)) (alone E storage_program (t, v)) =
        map_option (\<lambda>r. (ERROR_NONE, snd r)) (writeStorageFromCache E v)" if "\<not> t_done t" "\<not> t_open t"
      for t and v :: "'z dmgr_scheme"
      using arg_cong [OF storage [OF that, of v], of "map_option (\<lambda>r. (ERROR_NONE, snd r))"]
      by (simp add: outcome_def option.map_comp comp_def)
    have bind: "Option.bind (map_option snd x) (\<lambda>w'. Some (ERROR_NONE, w')) = map_option (\<lambda>r. (ERROR_NONE, snd r)) x"
      for x :: "(hresult \<times> 'z dmgr_scheme) option"
      by (cases x) simp_all
    show ?thesis
      using SetLastConnectTimeUtc
      by (auto simp: op_result_def device_sections finish_def op_sync getPairedDeviceInfo_def syncStorage_def stored bind
          split: option.split)
  next
    case (Init srv)
    then show ?thesis using alone_init [of "spawn E op" E srv w] by (simp add: op_result_def out)
  next
    case PerformMigration
    then show ?thesis using alone_performMigration [of "spawn E op" E w] by (simp add: op_result_def out)
  next
    case ClearMigration
    then show ?thesis using alone_clearMigration [of "spawn E op" E w] by (simp add: op_result_def out)
  next
    case Deinit
    then show ?thesis by (simp add: op_result_def out testService_def dropService_def resetService_def releaseService_def deinit_def finish_def outcome_def)
  qed
qed

end
