(* ===== verification/InterleavingCorrect.thy ===== *)
theory InterleavingCorrect
  imports SectionsAlone
begin

section \<open>What every interleaving keeps\<close>

text \<open>
  In any interleaving of the operations of the registry the cache stays well-formed, the store
  interfaces obtained are those the threads still hold; a device is changed only by operations
  that concern it; one migration runs at a time; and no pool is stuck before its threads have
  returned. The references to \<open>_service\<close> agree with the pointer as long as one thread at most
  starts or stops the registry (\<open>service_step\<close>): nothing but the caller keeps two apart.
\<close>

subsection \<open>What one section keeps\<close>

text \<open>The sections that need the store, between the one that opens it and the one that releases it.\<close>

fun inside :: "lock_section \<Rightarrow> bool" where
  "inside TakePayload = True" | "inside StorePayload = True" | "inside CheckMirror = True"
| "inside TakeFileSnapshot = True" | "inside WriteFile = True" | "inside GetMarker = True"
| "inside SetMarker = True" | "inside DeleteInfo = True" | "inside DeleteMarker = True"
| "inside GetDeviceInfo = True" | "inside _ = False"

text \<open>The sections that assign \<open>_service\<close> or its reference count, and the test before.\<close>

fun life_section :: "lock_section \<Rightarrow> bool" where
  "life_section (TakeService b) = True" | "life_section AddRefService = True"
| "life_section (AbortInit b) = True" | "life_section (ResetInit b) = True"
| "life_section TestService = True" | "life_section DropService = True"
| "life_section ResetService = True" | "life_section _ = False"

lemma inside_other: "inside sec \<Longrightarrow> sec \<notin> {QueryStore, ReleaseStore} \<and> \<not> life_section sec"
  by (cases sec) simp_all

definition held :: "thread \<Rightarrow> int" where
  "held t = (if t_open t then 1 else 0)"

definition keeps_refs :: "'z dmgr_scheme \<Rightarrow> 'z dmgr_scheme \<Rightarrow> bool" where
  "keeps_refs w w' \<longleftrightarrow> tally store_refs (trace w') = tally store_refs (trace w) \<and>
     tally shell_refs (trace w') = tally shell_refs (trace w) \<and> service w' = service w"

lemma keeps_refs_simps [simp]:
  "keeps_refs w w" "keeps_refs w (cachePut k i w)" "keeps_refs w (w\<lparr>pairedDeviceCache := c\<rparr>)"
  "keeps_refs w (w\<lparr>isMigrated := b\<rparr>)" "keeps_refs w (emit (EvBT bc rc) w)" "keeps_refs w (emit (EvStoreGet k r) w)"
  "keeps_refs w (emit (EvStoreSet k v r) w)" "keeps_refs w (emit (EvStoreDel k r) w)" "keeps_refs w (emit (EvStoreAcquire False) w)"
  "keeps_refs w (emit (EvBT bc rc) w\<lparr>pairedDeviceCache := c\<rparr>)"
  by (simp_all add: keeps_refs_def)

lemma Write_refs: "Write E c w = Some (r, w') \<Longrightarrow> keeps_refs w w' \<and> pairedDeviceCache w' = pairedDeviceCache w"
  using io_fields [OF Write_io, of E c w r w'] evolves_tally [OF io_evolves [OF Write_io], of E c w r w']
  by (simp add: keeps_refs_def)

lemma ReadRaw_refs:
  assumes "ReadRaw E c w = (r, c', w')"
  shows "keeps_refs w w' \<and> pairedDeviceCache w' = pairedDeviceCache w"
proof -
  have io: "io (quiet '''') w w'" using assms by (rule ReadRaw_quiet)
  have "tally d (trace w') = tally d (trace w)" if "\<And>ev. quiet '''' ev \<Longrightarrow> d ev = 0" for d
    using evolves_tally [OF io_evolves [OF io]] that by blast
  with io_fields [OF io] show ?thesis by (simp add: keeps_refs_def quiet_def)
qed

lemma found_storable: "cache_ok (pairedDeviceCache w) \<Longrightarrow> getPairedDeviceInfo k w = Inr i \<Longrightarrow>
    acs_storable (autoConnectStatus i)"
  by (auto simp: getPairedDeviceInfo_def cache_ok_def split: option.splits)

definition locals_ok :: "thread \<Rightarrow> bool" where
  "locals_ok t \<longleftrightarrow> acs_storable (autoConnectStatus (t_info t)) \<and> cache_ok (t_import t)"

lemma locals_ok_update [simp]:
  "locals_ok (finish r t) = locals_ok t" "locals_ok (crash t) = locals_ok t"
  "locals_ok (t\<lparr>todo := x\<rparr>) = locals_ok t" "locals_ok (t\<lparr>t_lock := b\<rparr>) = locals_ok t"
  "locals_ok (t\<lparr>t_ready := b\<rparr>) = locals_ok t" "locals_ok (t\<lparr>t_open := b\<rparr>) = locals_ok t"
  "locals_ok (t\<lparr>t_result := r\<rparr>) = locals_ok t"
  by (simp_all add: locals_ok_def finish_def crash_def)

lemma section_keeps:
  assumes "section_step E sec (t, w) = Some (t', w')" "cache_ok (pairedDeviceCache w)" "locals_ok t"
  shows "locals_ok t' \<and> cache_ok (pairedDeviceCache w') \<and> todo t' = todo t"
proof (cases sec)
  case WriteFile
  with assms show ?thesis by (auto simp: writeFile_def split: if_splits elim!: bind_SomeE dest: Write_refs)
next
  case (ChangeAuto k b)
  with assms found_storable [OF assms(2), of k] show ?thesis
    by (auto simp: changeRecord_def autoSetting_def finish_def cache_ok_put locals_ok_def split: sum.splits)
next
  case (ChangeVolume k v)
  with assms found_storable [OF assms(2), of k] show ?thesis
    by (auto simp: changeRecord_def finish_def cache_ok_put locals_ok_def split: sum.splits)
next
  case (FindRecord k)
  with assms found_storable [OF assms(2), of k] show ?thesis
    by (auto simp: findRecord_def finish_def locals_ok_def split: sum.splits)
next
  case ReadFile
  with assms show ?thesis
    by (auto simp: readFile_def finish_def locals_ok_def Let_def split: prod.splits if_splits dest: ReadRaw_refs)
next
  case ParseFile
  with assms show ?thesis
    by (auto simp: parseFile_def btCall_def finish_def locals_ok_def Let_def Parse_storable intro!: importDevices_ok
        split: prod.splits if_splits)
qed (use assms in \<open>auto simp: section_defs btCall_def storeAcquire_def storeSetValue_def storeDeleteKey_def storeGetValue_def
  storeRelease_def releaseService_def Let_def addedInfo_def defaultDeviceInfo_def locals_ok_def cache_ok_put cache_ok_erase cache_ok_loaded
  intro!: scrub_ok mergeDevices_ok split: if_splits sum.splits prod.splits\<close>)

lemma section_plain:
  assumes "section_step E sec (t, w) = Some (t', w')"
    and "sec \<notin> {QueryStore, ReleaseStore}" "\<not> life_section sec"
  shows "keeps_refs w w' \<and> t_open t' = t_open t \<and> (inside sec \<longrightarrow> t_done t' = t_done t)"
proof (cases sec)
  case WriteFile
  with assms(1) show ?thesis by (auto simp: writeFile_def split: if_splits elim!: bind_SomeE dest: Write_refs)
next
  case ReadFile
  with assms(1) show ?thesis by (auto simp: readFile_def finish_def Let_def split: prod.splits if_splits dest: ReadRaw_refs)
qed (use assms in \<open>auto simp: section_defs btCall_def storeAcquire_def storeSetValue_def storeDeleteKey_def storeGetValue_def
  Let_def split: if_splits sum.splits prod.splits\<close>)

lemma section_life:
  assumes "section_step E sec (t, w) = Some (t', w')" "life_section sec"
  shows "tally store_refs (trace w') = tally store_refs (trace w) \<and> t_open t' = t_open t"
  using assms by (cases sec) (auto simp: life_sections finish_def crash_def split: if_splits)

lemma section_store:
  assumes "section_step E sec (t, w) = Some (t', w')" "sec = QueryStore \<or> sec = ReleaseStore"
  shows "tally shell_refs (trace w') = tally shell_refs (trace w) \<and> service w' = service w"
  using assms by (auto simp: queryStore_def storeAcquire_def releaseStore_def storeRelease_def crash_def Let_def split: if_splits)

lemma section_refs:
  assumes st: "section_step E sec (t, w) = Some (t', w')"
  shows "(sec = QueryStore \<longrightarrow> \<not> t_open t) \<Longrightarrow>
      tally store_refs (trace w') - held t' = tally store_refs (trace w) - held t"
    and "sec \<noteq> QueryStore \<Longrightarrow> t_open t' \<longleftrightarrow> sec \<noteq> ReleaseStore \<and> t_open t"
    and "inside sec \<or> sec = ReleaseStore \<Longrightarrow> t_done t' = t_done t"
    and "sec = QueryStore \<Longrightarrow> \<not> t_open t \<Longrightarrow> \<not> t_done t \<Longrightarrow> t_done t' \<Longrightarrow> \<not> t_open t'"
proof -
  note plain = section_plain [OF st] and life = section_life [OF st]
  show "tally store_refs (trace w') - held t' = tally store_refs (trace w) - held t"
    if op: "sec = QueryStore \<longrightarrow> \<not> t_open t"
  proof (cases "sec = QueryStore \<or> sec = ReleaseStore")
    case True
    with op st show ?thesis
      by (auto simp: held_def queryStore_def releaseStore_def storeAcquire_def storeRelease_def crash_def Let_def split: if_splits)
  next
    case False
    with plain life show ?thesis by (cases "life_section sec") (auto simp: keeps_refs_def held_def)
  qed
  show "t_open t' \<longleftrightarrow> sec \<noteq> ReleaseStore \<and> t_open t" if "sec \<noteq> QueryStore"
  proof (cases "sec = ReleaseStore")
    case True
    with st show ?thesis by (auto simp: releaseStore_def split: if_splits)
  next
    case False
    with plain life that show ?thesis by (cases "life_section sec") auto
  qed
  show "inside sec \<or> sec = ReleaseStore \<Longrightarrow> t_done t' = t_done t"
    using st plain inside_other [of sec] by (cases "sec = ReleaseStore") (auto simp: releaseStore_def split: if_splits)
  show "sec = QueryStore \<Longrightarrow> \<not> t_open t \<Longrightarrow> \<not> t_done t \<Longrightarrow> t_done t' \<Longrightarrow> \<not> t_open t'"
    using st by (auto simp: queryStore_def storeAcquire_def crash_def Let_def split: if_splits)
qed

subsection \<open>The invariant of a pool\<close>

text \<open>What is left of a program, with the store closed (\<open>False\<close>) or opened (\<open>True\<close>) before it.\<close>

fun phase_ok :: "bool \<Rightarrow> lock_section list \<Rightarrow> bool" where
  "phase_ok opened [] \<longleftrightarrow> \<not> opened"
| "phase_ok opened (sec # secs) \<longleftrightarrow>
     (if sec = QueryStore then \<not> opened \<and> phase_ok True secs
      else if sec = ReleaseStore then opened \<and> phase_ok False secs
      else (opened \<longleftrightarrow> inside sec) \<and> phase_ok opened secs)"

definition thread_ok :: "thread \<Rightarrow> bool" where
  "thread_ok t \<longleftrightarrow> locals_ok t \<and> (t_open t \<longrightarrow> \<not> t_done t \<and> phase_ok True (todo t)) \<and>
     (t_done t \<or> phase_ok False (todo t) \<or> phase_ok True (todo t))"

fun pool_inv :: "thread list \<times> 'z dmgr_scheme \<Rightarrow> bool" where
  "pool_inv (ts, w) \<longleftrightarrow> cache_ok (pairedDeviceCache w) \<and> (\<forall>t \<in> set ts. thread_ok t) \<and>
     tally store_refs (trace w) = sum_list (map held ts)"

lemma phase_exclusive: "phase_ok True secs \<Longrightarrow> \<not> phase_ok False secs"
  by (cases secs) (auto split: if_splits)

lemmas program_defs = storage_program_def marker_program_def import_program_def migration_program_def
  clear_program_def load_program_def init_program_def

lemma program_phase [simp]: "phase_ok False (program E op)"
  by (cases op) (simp_all add: program_defs)

lemma spawn_ok [simp]: "thread_ok (spawn E op)" "held (spawn E op) = 0"
  by (simp_all add: thread_ok_def locals_ok_def defaultDeviceInfo_def held_def)

lemma thread_step:
  assumes step: "section_step E sec (t\<lparr>todo := secs\<rparr>, w) = Some (t', w')"
    and t: "thread_ok t" "\<not> t_done t" "todo t = sec # secs" and ok: "cache_ok (pairedDeviceCache w)"
  shows "thread_ok t' \<and> cache_ok (pairedDeviceCache w') \<and>
    tally store_refs (trace w') - held t' = tally store_refs (trace w) - held t"
proof -
  have "locals_ok (t\<lparr>todo := secs\<rparr>)" using t(1) by (simp add: thread_ok_def)
  from section_keeps [OF step ok this]
  have lo: "locals_ok t'" "cache_ok (pairedDeviceCache w')" "todo t' = secs" by simp_all
  have ph: "phase_ok False (sec # secs) \<or> phase_ok True (sec # secs)" "t_open t \<longrightarrow> phase_ok True (sec # secs)"
    using t(1,2) unfolding thread_ok_def t(3) by blast+
  note refs = section_refs [OF step]
  have q: "sec = QueryStore \<longrightarrow> \<not> t_open t" using ph by auto
  have r: "tally store_refs (trace w') - held t' = tally store_refs (trace w) - held t"
    using refs(1) q by (simp add: held_def)
  have "thread_ok t'"
  proof (cases "sec = QueryStore")
    case True
    then have "phase_ok True secs" using ph(1) by auto
    moreover have "t_done t' \<longrightarrow> \<not> t_open t'" using refs(4) True q t(2) by auto
    ultimately show ?thesis using lo by (auto simp: thread_ok_def)
  next
    case False
    have op: "t_open t' \<longleftrightarrow> sec \<noteq> ReleaseStore \<and> t_open t" using refs(2) False by simp
    show ?thesis
    proof (cases "sec = ReleaseStore")
      case True
      with ph(1) op lo show ?thesis by (auto simp: thread_ok_def)
    next
      case other: False
      have "t_open t \<Longrightarrow> \<not> t_done t'" using refs(3) ph(2) False other t(2) by auto
      then show ?thesis using ph op lo False other by (auto simp: thread_ok_def)
    qed
  qed
  with lo(2) r show ?thesis by blast
qed

lemma cstep_inv: "cstep E s s' \<Longrightarrow> pool_inv s \<Longrightarrow> pool_inv s'"
proof (induction rule: cstep.induct)
  case (step_thread i ts sec secs w t w')
  have "ts ! i \<in> set ts" using step_thread(1) by simp
  then have ok: "thread_ok (ts ! i)" "cache_ok (pairedDeviceCache w)" using step_thread(6) by auto
  note th = thread_step [OF step_thread(5) ok(1) step_thread(2,3) ok(2)]
  have "\<forall>x \<in> set (ts[i := t]). thread_ok x"
    using step_thread(6) th set_update_subset_insert [of ts i t] by auto
  with step_thread(1,6) th show ?case by (simp add: sum_list_update_diff)
qed

lemma csteps_inv: "(cstep E)\<^sup>*\<^sup>* s s' \<Longrightarrow> pool_inv s \<Longrightarrow> pool_inv s'"
  by (induction rule: rtranclp_induct) (auto intro: cstep_inv)

lemma pool_inv_spawn: "registry_inv w \<Longrightarrow> pool_inv (map (spawn E) ops, w)"
  by (simp add: registry_inv_def o_def)

text \<open>With every thread finished, the pool is quiet: no store interface is held.\<close>

definition finished :: "thread \<Rightarrow> bool" where
  "finished t \<longleftrightarrow> t_done t \<or> todo t = []"

lemma held_finished [simp]: "thread_ok t \<Longrightarrow> finished t \<Longrightarrow> held t = 0"
  by (auto simp: finished_def held_def thread_ok_def)

lemma quiet_pool: "(\<forall>t \<in> set ts. thread_ok t \<and> finished t) \<Longrightarrow> sum_list (map held ts) = 0"
  by (induction ts) simp_all

subsection \<open>A device is changed by operations that concern it only\<close>

fun section_touches :: "lock_section \<Rightarrow> string \<Rightarrow> bool" where
  "section_touches (StampRecord k) k' = (k' = k)"
| "section_touches (ChangeAuto k b) k' = (k' = k)"
| "section_touches (ChangeVolume k v) k' = (k' = k)"
| "section_touches (EraseRecord k) k' = (k' = k)"
| "section_touches (AddRecord k) k' = (k' = k)"
| "section_touches InstallImport k' = True"
| "section_touches (MergePaired b) k' = True"
| "section_touches ClearCache k' = True"
| "section_touches LoadCache k' = True"
| "section_touches sec k' = False"

definition avoids :: "string \<Rightarrow> thread \<Rightarrow> bool" where
  "avoids k t \<longleftrightarrow> (\<forall>sec \<in> set (todo t). \<not> section_touches sec k)"

text \<open>The operations that concern a device: those on it, and those on the whole cache.\<close>

definition concerns :: "dm_op \<Rightarrow> string \<Rightarrow> bool" where
  "concerns op k = (case op_device op of Some k' \<Rightarrow> k' = k | None \<Rightarrow> op \<noteq> Deinit)"

lemma avoids_spawn: "\<not> concerns op k \<Longrightarrow> avoids k (spawn E op)"
  by (cases op) (auto simp: avoids_def concerns_def op_device_def program_defs)

lemma section_frame:
  assumes "section_step E sec (t, w) = Some (t', w')" "\<not> section_touches sec k"
    and "um_wf (pairedDeviceCache w)"
  shows "um_find (pairedDeviceCache w') k = um_find (pairedDeviceCache w) k"
proof (cases sec)
  case WriteFile
  with assms show ?thesis
    by (auto simp: writeFile_def split: if_splits elim!: bind_SomeE dest!: Write_refs)
next
  case ReadFile
  with assms show ?thesis
    by (auto simp: readFile_def finish_def Let_def split: prod.splits if_splits dest: ReadRaw_refs)
qed (use assms in \<open>auto simp: section_defs btCall_def storeAcquire_def storeSetValue_def storeDeleteKey_def storeGetValue_def
  storeRelease_def releaseService_def Let_def um.find_put um.find_erase split: if_splits sum.splits prod.splits\<close>)

lemma cstep_frame:
  assumes "cstep E (ts, w) (ts', w')" "\<forall>t \<in> set ts. avoids k t" "pool_inv (ts, w)"
  shows "um_find (pairedDeviceCache w') k = um_find (pairedDeviceCache w) k \<and> (\<forall>t \<in> set ts'. avoids k t)"
proof -
  from assms(1) obtain i sec secs t where i: "i < length ts" "todo (ts ! i) = sec # secs"
    and st: "section_step E sec ((ts ! i)\<lparr>todo := secs\<rparr>, w) = Some (t, w')" and ts': "ts' = ts[i := t]"
    by (elim cstepE) auto
  have ok: "cache_ok (pairedDeviceCache w)" "thread_ok (ts ! i)" using assms(3) i(1) by simp_all
  have a: "avoids k (ts ! i)" using i(1) assms(2) by simp
  have "todo t = secs" using section_keeps [OF st ok(1)] ok(2) by (simp add: thread_ok_def)
  then have "avoids k t" using a i(2) by (simp add: avoids_def)
  then have "\<forall>t \<in> set ts'. avoids k t" using ts' assms(2) set_update_subset_insert [of ts i t] by auto
  with section_frame [OF st, of k] a i(2) ok(1) show ?thesis by (simp add: avoids_def cache_ok_def)
qed

lemma csteps_frame:
  assumes "(cstep E)\<^sup>*\<^sup>* (ts, w) (ts', w')" "pool_inv (ts, w)" "\<forall>t \<in> set ts. avoids k t"
  shows "um_find (pairedDeviceCache w') k = um_find (pairedDeviceCache w) k \<and> (\<forall>t \<in> set ts'. avoids k t)"
  using assms
proof (induction "(ts', w')" arbitrary: ts' w' rule: rtranclp_induct)
  case base
  then show ?case by simp
next
  case (step s)
  obtain us v where s: "s = (us, v)" by (cases s)
  have "um_find (pairedDeviceCache v) k = um_find (pairedDeviceCache w) k \<and> (\<forall>t \<in> set us. avoids k t)"
    using step s by blast
  moreover have "pool_inv (us, v)" using csteps_inv [OF step(1) step(4)] s by simp
  ultimately show ?case using cstep_frame [of E us v ts' w' k] step(2) s by auto
qed

subsection \<open>One migration at a time\<close>

definition ends_returning :: "lock_section list \<Rightarrow> bool" where
  "ends_returning secs \<longleftrightarrow> secs \<noteq> [] \<and> (\<exists>r. last secs = Return r)"

definition lock_ok :: "thread \<Rightarrow> bool" where
  "lock_ok t \<longleftrightarrow> EnterMigration \<notin> set (tl (todo t)) \<and> (t_crashed t \<longrightarrow> t_done t) \<and>
     (EnterMigration \<in> set (todo t) \<longrightarrow> ends_returning (todo t)) \<and>
     (t_lock t \<and> \<not> t_crashed t \<longrightarrow> \<not> t_done t \<and> EnterMigration \<notin> set (todo t) \<and> ends_returning (todo t))"

definition lock_inv :: "thread list \<Rightarrow> bool" where
  "lock_inv ts \<longleftrightarrow> (\<forall>t \<in> set ts. lock_ok t) \<and> length (filter t_lock ts) \<le> 1"

lemma section_lock:
  assumes "section_step E sec (t, w) = Some (t', w')"
  shows "(sec \<noteq> EnterMigration \<longrightarrow> t_lock t' \<longrightarrow> t_lock t) \<and>
    (t_done t' \<longrightarrow> t_done t \<or> t_crashed t' \<or> \<not> t_lock t') \<and> (t_done t \<longrightarrow> t_done t') \<and>
    (t_crashed t' \<longrightarrow> t_crashed t \<or> t_done t' \<and> \<not> service w \<and> (sec = QueryStore \<and> t_ready t \<or> life_section sec)) \<and>
    todo t' = todo t"
  using assms
  by (cases sec) (auto simp: section_defs Let_def split: if_splits sum.splits prod.splits elim!: bind_SomeE)

lemma spawn_lock_ok [simp]: "lock_ok (spawn E op)"
  by (cases op) (simp_all add: lock_ok_def ends_returning_def program_defs)

lemma lock_inv_spawn [simp]: "lock_inv (map (spawn E) ops)"
  by (simp add: lock_inv_def filter_map o_def)

lemma thread_lock_step:
  assumes st: "section_step E sec (t\<lparr>todo := secs\<rparr>, w) = Some (t', w')"
    and t: "lock_ok t" "\<not> t_done t" "todo t = sec # secs"
  shows "lock_ok t'"
proof -
  note l = section_lock [OF st, simplified]
  have cr: "\<not> t_crashed t" using t by (simp add: lock_ok_def)
  have tl: "EnterMigration \<notin> set secs" using t(1,3) by (simp add: lock_ok_def)
  then have tl': "EnterMigration \<notin> set (tl secs)" by (cases secs) simp_all
  show ?thesis
  proof (cases "t_lock t' \<and> \<not> t_crashed t'")
    case False
    with l tl tl' cr show ?thesis by (auto simp: lock_ok_def)
  next
    case True
    have er: "ends_returning (sec # secs)"
      using t True l cr by (cases "sec = EnterMigration") (auto simp: lock_ok_def)
    have "secs \<noteq> []"
    proof
      assume "secs = []"
      with er obtain r where "sec = Return r" by (auto simp: ends_returning_def)
      with st True show False by (auto simp: finish_def)
    qed
    with er have "ends_returning secs" by (simp add: ends_returning_def)
    moreover have "\<not> t_done t'" using l True t(2) by auto
    ultimately show ?thesis using l tl tl' True by (simp add: lock_ok_def)
  qed
qed

lemma cstep_lock: "cstep E s s' \<Longrightarrow> lock_inv (fst s) \<Longrightarrow> lock_inv (fst s')"
proof (induction rule: cstep.induct)
  case (step_thread i ts sec secs w t w')
  have inv: "\<forall>t \<in> set ts. lock_ok t" "length (filter t_lock ts) \<le> 1" using step_thread(6) by (simp_all add: lock_inv_def)
  then have "lock_ok (ts ! i)" using step_thread(1) by simp
  then have "lock_ok t" using thread_lock_step [OF step_thread(5) _ step_thread(2,3)] by blast
  then have all: "\<forall>x \<in> set (ts[i := t]). lock_ok x"
    using inv(1) set_update_subset_insert [of ts i t] by auto
  have "length (filter t_lock (ts[i := t])) \<le> 1"
  proof (cases "sec = EnterMigration")
    case True
    then have "\<forall>x \<in> set ts. \<not> t_lock x" using step_thread(4) by (simp add: may_run_def)
    then show ?thesis by (rule filter_update_one [OF step_thread(1)])
  next
    case False
    then have "t_lock t \<longrightarrow> t_lock (ts ! i)" using section_lock [OF step_thread(5)] by simp
    from filter_update_le [OF step_thread(1) this] inv(2) show ?thesis by simp
  qed
  with all show ?case by (simp add: lock_inv_def)
qed

lemma csteps_lock: "(cstep E)\<^sup>*\<^sup>* s s' \<Longrightarrow> lock_inv (fst s) \<Longrightarrow> lock_inv (fst s')"
  by (induction rule: rtranclp_induct) (auto intro: cstep_lock)


subsection \<open>Every call returns\<close>

lemma section_total: "bounded_retries E B \<Longrightarrow> \<exists>s'. section_step E sec s = Some s'"
proof (cases sec)
  case WriteFile
  assume b: "bounded_retries E B"
  obtain t w where s: "s = (t, w)" by (cases s)
  obtain r w1 where "Write E (t_snapshot t) w = Some (r, w1)" using Write_total [OF b] by fastforce
  with WriteFile s show ?thesis by (simp add: writeFile_def)
qed (simp_all split: prod.split)

definition work :: "thread list \<Rightarrow> nat" where
  "work ts = sum_list (map (\<lambda>t. length (todo t)) ts)"

lemma cstep_work: "cstep E s s' \<Longrightarrow> work (fst s') < work (fst s)"
proof (induction rule: cstep.induct)
  case (step_thread i ts sec secs w t w')
  have "todo t = secs" using section_lock [OF step_thread(5)] by simp
  then have "length (todo t) < length (todo (ts ! i))" using step_thread(3) by simp
  with sum_list_nat_update [OF step_thread(1), of "\<lambda>t. length (todo t)" t] show ?case by (simp add: work_def)
qed

lemma csteps_bounded: "(cstep E ^^ n) s s' \<Longrightarrow> n + work (fst s') \<le> work (fst s)"
proof (induction n arbitrary: s')
  case (Suc n)
  then obtain s1 where "(cstep E ^^ n) s s1" "cstep E s1 s'" by (auto simp: relcompp_apply)
  with Suc(1) [of s1] cstep_work [of E s1 s'] show ?case by simp
qed simp

text \<open>Whoever holds \<open>_migrationLock\<close> can go on, and without a holder everybody can.\<close>

lemma stuck_pool:
  assumes "lock_inv ts" "bounded_retries E B" "\<forall>t \<in> set ts. \<not> t_crashed t" "\<nexists>s'. cstep E (ts, w) s'"
  shows "\<forall>t \<in> set ts. finished t"
proof (rule ccontr)
  assume "\<not> (\<forall>t \<in> set ts. finished t)"
  then obtain j where j: "j < length ts" "\<not> finished (ts ! j)" by (metis in_set_conv_nth)
  have blocked: "\<not> may_run (hd (todo (ts ! i))) ts" if h: "i < length ts" "\<not> t_done (ts ! i)" "todo (ts ! i) \<noteq> []" for i
  proof
    assume may: "may_run (hd (todo (ts ! i))) ts"
    obtain sec secs where td: "todo (ts ! i) = sec # secs" using h(3) by (cases "todo (ts ! i)") auto
    obtain s' where "section_step E sec ((ts ! i)\<lparr>todo := secs\<rparr>, w) = Some s'" using section_total [OF assms(2)] by blast
    with h(1,2) td may assms(4) show False by (cases s') (auto intro: step_thread)
  qed
  from blocked [of j] j have "\<not> may_run (hd (todo (ts ! j))) ts" by (simp add: finished_def)
  with assms(3) obtain t where t: "t \<in> set ts" "t_lock t" by (auto simp: may_run_def)
  then obtain i where i: "i < length ts" "t_lock (ts ! i)" by (metis in_set_conv_nth)
  then have ok: "lock_ok (ts ! i)" "\<not> t_crashed (ts ! i)" using assms(1,3) by (simp_all add: lock_inv_def)
  then have run: "\<not> t_done (ts ! i)" "EnterMigration \<notin> set (todo (ts ! i))" "todo (ts ! i) \<noteq> []"
    using i(2) by (simp_all add: lock_ok_def ends_returning_def)
  then have "hd (todo (ts ! i)) \<noteq> EnterMigration" by (metis hd_in_set)
  with assms(3) have "may_run (hd (todo (ts ! i))) ts" by (simp add: may_run_def)
  with blocked [of i] i(1) run show False by blast
qed

text \<open>Nothing can go wrong while nobody starts or stops the registry.\<close>

definition calm :: "bool \<Rightarrow> thread \<Rightarrow> bool" where
  "calm up t \<longleftrightarrow> \<not> t_crashed t \<and> (t_ready t \<longrightarrow> up) \<and> (\<forall>sec \<in> set (todo t). \<not> life_section sec)"

definition starts_or_stops :: "dm_op \<Rightarrow> bool" where
  "starts_or_stops op = (case op of Init b \<Rightarrow> True | Deinit \<Rightarrow> True | _ \<Rightarrow> False)"

lemma calm_spawn: "\<not> starts_or_stops op \<Longrightarrow> calm up (spawn E op)"
  by (cases op) (simp_all add: calm_def starts_or_stops_def program_defs)

lemma section_calm:
  assumes "section_step E sec (t, w) = Some (t', w')" "\<not> life_section sec"
  shows "service w' = service w \<and> (t_ready t' \<longrightarrow> t_ready t \<or> service w)"
proof (cases sec)
  case WriteFile
  with assms show ?thesis by (auto simp: writeFile_def keeps_refs_def split: if_splits elim!: bind_SomeE dest!: Write_refs)
next
  case ReadFile
  with assms show ?thesis
    by (auto simp: readFile_def finish_def keeps_refs_def Let_def split: prod.splits if_splits dest!: ReadRaw_refs)
qed (use assms in \<open>auto simp: section_defs btCall_def storeAcquire_def storeSetValue_def storeDeleteKey_def storeGetValue_def
  storeRelease_def Let_def split: if_splits sum.splits prod.splits\<close>)

lemma cstep_calm: "cstep E s s' \<Longrightarrow> (\<forall>t \<in> set (fst s). calm (service (snd s)) t) \<Longrightarrow>
    service (snd s') = service (snd s) \<and> (\<forall>t \<in> set (fst s'). calm (service (snd s)) t)"
proof (induction rule: cstep.induct)
  case (step_thread i ts sec secs w t w')
  have c: "calm (service w) (ts ! i)" using step_thread(1,6) by simp
  then have "\<not> life_section sec" "\<forall>sec \<in> set secs. \<not> life_section sec" using step_thread(3) by (simp_all add: calm_def)
  moreover from this section_calm [OF step_thread(5)]
  have s: "service w' = service w" "t_ready t \<longrightarrow> t_ready (ts ! i) \<or> service w" by simp_all
  moreover have "todo t = secs" "\<not> t_crashed t"
    using section_lock [OF step_thread(5)] c \<open>\<not> life_section sec\<close> by (auto simp: calm_def)
  ultimately have "calm (service w) t" using c by (auto simp: calm_def)
  then have "\<forall>x \<in> set (ts[i := t]). calm (service w) x"
    using step_thread(6) set_update_subset_insert [of ts i t] by auto
  with s show ?case by simp
qed

lemma csteps_calm: "(cstep E)\<^sup>*\<^sup>* s s' \<Longrightarrow> (\<forall>t \<in> set (fst s). calm (service (snd s)) t) \<Longrightarrow>
    service (snd s') = service (snd s) \<and> (\<forall>t \<in> set (fst s'). calm (service (snd s)) t)"
proof (induction rule: rtranclp_induct)
  case (step s1 s2)
  then show ?case using cstep_calm [of E s1 s2] by simp
qed simp

lemma concurrent_return:
  assumes "(cstep E)\<^sup>*\<^sup>* (map (spawn E) ops, w) (ts', w')" "bounded_retries E B" "\<forall>op \<in> set ops. \<not> starts_or_stops op"
  shows "(cstep E ^^ n) (ts', w') s \<Longrightarrow> n \<le> work ts'"
    and "(\<nexists>s. cstep E (ts', w') s) \<Longrightarrow> \<forall>t \<in> set ts'. finished t"
    and "\<forall>t \<in> set ts'. \<not> t_crashed t" and "length (filter t_lock ts') \<le> 1"
proof -
  have l: "lock_inv ts'" using csteps_lock [OF assms(1)] by simp
  have c: "\<forall>t \<in> set ts'. \<not> t_crashed t"
  proof -
    have "\<forall>t \<in> set (map (spawn E) ops). calm (service w) t" using assms(3) by (auto intro: calm_spawn)
    with csteps_calm [OF assms(1)] show ?thesis by (simp add: calm_def)
  qed
  show "(cstep E ^^ n) (ts', w') s \<Longrightarrow> n \<le> work ts'" by (auto dest: csteps_bounded)
  show "(\<nexists>s. cstep E (ts', w') s) \<Longrightarrow> \<forall>t \<in> set ts'. finished t" using stuck_pool [OF l assms(2) c] by simp
  show "\<forall>t \<in> set ts'. \<not> t_crashed t" "length (filter t_lock ts') \<le> 1" using c l by (simp_all add: lock_inv_def)
qed

end
