(* ===== verification/Races.thy ===== *)
theory Races
  imports InterleavingCorrect StoreFaults
begin

section \<open>Schedules that lose an update\<close>

text \<open>
  Interleavings that the locks of the registry allow and that lose data: a stale record
  written back, a stale payload stored last, a device added during a migration that is never
  stored, a migration cleared under a change, a service dropped under an operation. Each is
  given by a schedule, built from runs of a thread that nobody interrupts (\<open>run_sections\<close>).
\<close>

subsection \<open>Uninterrupted runs\<close>

lemma section_ignores_todo:
  "section_step E sec (t\<lparr>todo := x\<rparr>, w) = map_option (\<lambda>(t', w'). (t'\<lparr>todo := x\<rparr>, w')) (section_step E sec (t, w))"
  by (cases sec) (auto simp: section_defs markerSeen_def Let_def split: sum.splits prod.splits Option.bind_splits)

lemma alone_ignores_todo:
  "alone E secs (t\<lparr>todo := x\<rparr>, w) = map_option (\<lambda>(t', w'). (t'\<lparr>todo := x\<rparr>, w')) (alone E secs (t, w))"
proof (induction secs arbitrary: t w)
  case (Cons sec secs)
  then show ?case by (cases "section_step E sec (t, w)") (auto simp: section_ignores_todo)
qed simp

text \<open>A thread may run its next sections without being interrupted.\<close>

definition can_start :: "lock_section list \<Rightarrow> thread list \<Rightarrow> bool" where
  "can_start secs ts \<longleftrightarrow> (\<forall>t \<in> set ts. \<not> t_crashed t) \<and> EnterMigration \<notin> set (tl secs) \<and>
     (EnterMigration \<in> set secs \<longrightarrow> (\<forall>t \<in> set ts. \<not> t_lock t))"

lemma can_start_program [simp]: "EnterMigration \<notin> set (tl (program E op))"
  "EnterMigration \<in> set (program E op) \<longleftrightarrow> op = PerformMigration \<or> op = ClearMigration"
  by (cases op; simp add: program_defs)+

lemma run_sections:
  assumes "j < length ts" "todo (ts ! j) = secs @ later" "\<not> t_done (ts ! j)" "can_start secs ts"
    and "alone E secs (ts ! j, w) = Some (t', w')"
  shows "\<exists>rest. (cstep E)\<^sup>*\<^sup>* (ts, w) (ts[j := t'\<lparr>todo := rest\<rparr>], w') \<and> (\<not> t_done t' \<longrightarrow> rest = later)"
  using assms
proof (induction secs arbitrary: ts w t')
  case Nil
  then have "t' = ts ! j" "w' = w" "t'\<lparr>todo := later\<rparr> = ts ! j" by simp_all
  with Nil(1) show ?case by (intro exI [of _ later]) simp
next
  case (Cons sec secs)
  from Cons.prems(5) obtain t1 w1 where st: "section_step E sec (ts ! j, w) = Some (t1, w1)"
    and rest: "if t_done t1 then (t1, w1) = (t', w') else alone E secs (t1, w1) = Some (t', w')"
    by (auto elim!: bind_SomeE split: if_splits)
  let ?t1 = "t1\<lparr>todo := secs @ later\<rparr>"
  have may: "may_run sec ts" using Cons.prems(4) by (simp add: can_start_def may_run_def)
  have s1: "cstep E (ts, w) (ts[j := ?t1], w1)"
    using Cons.prems(1-3) st may by (intro step_thread [of j ts sec "secs @ later"]) (simp_all add: section_ignores_todo)
  show ?case
  proof (cases "t_done t1")
    case True
    with rest s1 show ?thesis by (intro exI [of _ "secs @ later"]) auto
  next
    case False
    have "\<not> t_crashed t1" using section_lock [OF st] False Cons.prems(1,4) by (auto simp: can_start_def)
    then have nc: "\<forall>t \<in> set (ts[j := ?t1]). \<not> t_crashed t"
      using Cons.prems(4) set_update_subset_insert [of ts j ?t1] by (auto simp: can_start_def)
    have "EnterMigration \<notin> set secs" using Cons.prems(4) by (simp add: can_start_def)
    moreover from this have "EnterMigration \<notin> set (tl secs)" by (cases secs) simp_all
    ultimately have cs: "can_start secs (ts[j := ?t1])" using nc by (simp add: can_start_def)
    have al: "alone E secs (?t1, w1) = map_option (\<lambda>(t', w'). (t'\<lparr>todo := secs @ later\<rparr>, w')) (alone E secs (t1, w1))"
      by (rule alone_ignores_todo)
    then have "alone E secs (ts[j := ?t1] ! j, w1) = Some (t'\<lparr>todo := secs @ later\<rparr>, w')"
      using rest False Cons.prems(1) by simp
    from Cons.IH [OF _ _ _ cs this] Cons.prems(1) False obtain r where
      "(cstep E)\<^sup>*\<^sup>* (ts[j := ?t1], w1) (ts[j := t'\<lparr>todo := r\<rparr>], w')" "\<not> t_done t' \<longrightarrow> r = later" by auto
    with s1 show ?thesis by (intro exI [of _ r]) (simp add: converse_rtranclp_into_rtranclp)
  qed
qed

lemma finished_todo [simp]: "finished (t\<lparr>todo := []\<rparr>)" "t_done t \<Longrightarrow> finished (t\<lparr>todo := x\<rparr>)"
  by (simp_all add: finished_def)

lemma alone_calm:
  "alone E secs (t, w) = Some (t', w') \<Longrightarrow> calm (service w) t \<Longrightarrow> \<forall>sec \<in> set secs. \<not> life_section sec \<Longrightarrow>
   \<not> t_crashed t' \<and> service w' = service w"
proof (induction secs arbitrary: t w)
  case Nil
  then show ?case by (simp add: calm_def)
next
  case (Cons sec secs)
  from Cons.prems(1) obtain t1 w1 where st: "section_step E sec (t, w) = Some (t1, w1)"
    and rest: "if t_done t1 then (t1, w1) = (t', w') else alone E secs (t1, w1) = Some (t', w')"
    by (auto elim!: bind_SomeE split: if_splits)
  have c: "service w1 = service w" "t_ready t1 \<longrightarrow> t_ready t \<or> service w"
    using section_calm [OF st] Cons.prems(3) by simp_all
  then have "calm (service w1) t1"
    using section_lock [OF st] Cons.prems(2,3) by (auto simp: calm_def)
  with rest c Cons show ?case by (auto simp: calm_def split: if_splits)
qed

text \<open>A fresh thread runs its whole operation.\<close>

lemma run_operation:
  assumes "j < length ts" "ts ! j = spawn E op" "\<forall>t \<in> set ts. \<not> t_crashed t" "\<not> starts_or_stops op"
    and "op = PerformMigration \<or> op = ClearMigration \<Longrightarrow> \<forall>t \<in> set ts. \<not> t_lock t"
    and "dm_step E op w = Some (r, w')"
  shows "\<exists>t'. (cstep E)\<^sup>*\<^sup>* (ts, w) (ts[j := t'], w') \<and> finished t' \<and> \<not> t_crashed t' \<and> op_result op (t_result t') = r"
proof -
  obtain t' where t': "alone E (program E op) (spawn E op, w) = Some (t', w')" "op_result op (t_result t') = r"
    using alone_is_atomic [of op E w] assms(6) by auto
  have "can_start (program E op) ts" using assms(3,5) by (auto simp: can_start_def)
  then obtain rest where c: "(cstep E)\<^sup>*\<^sup>* (ts, w) (ts[j := t'\<lparr>todo := rest\<rparr>], w')" "\<not> t_done t' \<longrightarrow> rest = []"
    using run_sections [of j ts "program E op" "[]" E w t' w'] assms(1,2) t'(1) by auto
  have cp: "calm (service w) (spawn E op)" using assms(4) by (rule calm_spawn)
  then have "\<not> t_crashed t'" using alone_calm [OF t'(1)] by (auto simp: calm_def)
  with c t'(2) show ?thesis by (intro exI [of _ "t'\<lparr>todo := rest\<rparr>"]) (auto simp: finished_def)
qed

lemma device_op: "op_device op = Some k \<Longrightarrow> \<not> starts_or_stops op \<and> op \<noteq> PerformMigration \<and> op \<noteq> ClearMigration"
  by (cases op) (simp_all add: op_device_def starts_or_stops_def)

subsection \<open>A record written back\<close>

text \<open>Whatever an operation makes of a record between the two sections of \<open>setLastConnectTimeUtc\<close>
  is replaced by the record as it was, with a new time.\<close>

lemma syncStorage_some: "bounded_retries E B \<Longrightarrow> \<exists>r w'. syncStorage E w = Some (r, w')"
  using writeStorage_total [of E B w] by (auto simp: syncStorage_def)

lemma stale_stamp:
  assumes i: "um_find (pairedDeviceCache w) k = Some i" and op: "op_device op = Some k'"
    and run: "dm_step E op w = Some (r, w1)" and total: "bounded_retries E B"
  shows "\<exists>ts' w'. (cstep E)\<^sup>*\<^sup>* (map (spawn E) [SetLastConnectTimeUtc k, op], w) (ts', w') \<and>
    (\<forall>t \<in> set ts'. finished t) \<and> op_result op (t_result (ts' ! 1)) = r \<and>
    (\<exists>utc. um_find (pairedDeviceCache w') k = Some (i\<lparr>lastConnectTimeUtc := utc\<rparr>))"
proof -
  let ?ts = "map (spawn E) [SetLastConnectTimeUtc k, op]"
  let ?later = "StampRecord k # StopUnlessMigrated ERROR_NONE # storage_program"
  let ?t0 = "(spawn E (SetLastConnectTimeUtc k))\<lparr>t_info := i, todo := ?later\<rparr>"
  note dev = device_op [OF op]
  have "alone E [FindRecord k] (?ts ! 0, w) = Some ((?ts ! 0)\<lparr>t_info := i\<rparr>, w)"
    using i by (simp add: findRecord_def getPairedDeviceInfo_def)
  from run_sections [of 0 ?ts _ ?later, OF _ _ _ _ this]
  have a: "(cstep E)\<^sup>*\<^sup>* (?ts, w) ([?t0, spawn E op], w)" by (auto simp: can_start_def)
  obtain t1 where b: "(cstep E)\<^sup>*\<^sup>* ([?t0, spawn E op], w) ([?t0, t1], w1)"
    and t1: "finished t1" "\<not> t_crashed t1" "op_result op (t_result t1) = r"
    using run_operation [of 1 "[?t0, spawn E op]" E op w r w1] dev run by auto
  let ?v = "cachePut k (i\<lparr>lastConnectTimeUtc := to_string_ll (e_now E (trace w1))\<rparr>) w1"
  obtain sr w2 where sy: "syncStorage E ?v = Some (sr, w2)"
    using syncStorage_some [OF total] by blast
  have "idle ?t0" by (simp add: idle_def)
  with sy have "map_option outcome (alone E ?later (?t0, w1)) = Some (sr, w2)"
    using alone_sync [of ?t0 E ?v] by (simp add: stampRecord_def)
  then obtain t2 where "alone E ?later (?t0, w1) = Some (t2, w2)"
    by (auto simp: outcome_def)
  moreover have "can_start ?later [?t0, t1]" using t1(2) by (simp add: can_start_def storage_program_def)
  ultimately obtain rest2 where c: "(cstep E)\<^sup>*\<^sup>* ([?t0, t1], w1) ([t2\<lparr>todo := rest2\<rparr>, t1], w2)"
    and rest2: "\<not> t_done t2 \<longrightarrow> rest2 = []"
    using run_sections [of 0 "[?t0, t1]" ?later "[]" E w1 t2 w2] by auto
  have "pairedDeviceCache w2 = pairedDeviceCache ?v" using syncStorage_cache [OF sy] .
  with a b c rest2 t1 show ?thesis
    by (intro exI [of _ "[t2\<lparr>todo := rest2\<rparr>, t1]"] exI [of _ w2])
      (auto simp: finished_def um.find_put intro: rtranclp_trans)
qed

subsection \<open>A stale payload\<close>

text \<open>
  Two changes of different devices: the first takes its payload, the second completes, the
  first stores its payload. Both report success; the cache has both, the store lacks the second.
\<close>

definition autoChanged :: "string \<Rightarrow> bool \<Rightarrow> device_cache \<Rightarrow> device_cache" where
  "autoChanged k b c = (case um_find c k of None \<Rightarrow> c
     | Some i \<Rightarrow> um_put k (i\<lparr>autoConnectStatus := autoSetting b\<rparr>) c)"

definition store_works :: "env \<Rightarrow> bool" where
  "store_works E \<longleftrightarrow> (\<forall>tr. e_storeUp E tr) \<and> (\<forall>tr k v. e_storeSet E tr k v = ERROR_NONE)"

text \<open>\<open>writeStorageFromCache\<close> in two parts, around the moment the payload is ready.\<close>

definition payload_part :: "lock_section list" where
  "payload_part = [CheckService, QueryStore, TakePayload]"

definition mirror_part :: "lock_section list" where
  "mirror_part = [TakeFileSnapshot, WriteFile, ReleaseStore]"

lemma storage_parts: "storage_program = payload_part @ [StorePayload, CheckMirror] @ mirror_part"
  by (simp add: storage_program_def payload_part_def mirror_part_def)

lemma first_half:
  assumes "um_find (pairedDeviceCache w) k = Some i" "\<not> e_migration E \<or> isMigrated w"
    and "service w" "store_works E"
  shows "\<exists>t. alone E (StopUnlessMigrated ERROR_GENERAL # ChangeAuto k b # payload_part) (spawn E (SetAutoConnect k b), w) =
      Some (t, emit (EvStoreAcquire True) (w\<lparr>pairedDeviceCache := autoChanged k b (pairedDeviceCache w)\<rparr>)) \<and>
    \<not> t_done t \<and> \<not> t_crashed t \<and> t_open t \<and> t_payload t = storedPayload E (autoChanged k b (pairedDeviceCache w))"
  using assms
  by (auto simp: payload_part_def device_sections storage_sections getPairedDeviceInfo_def storeAcquire_def
      store_works_def autoChanged_def cachePut_def)

lemma store_half:
  assumes "store_works E" "\<not> t_done t" "t_open t"
  shows "\<exists>t'. alone E [StorePayload, CheckMirror] (t, w) =
      Some (t', emit (EvStoreSet PERSISTENT_STORE_KEY_DEVICE_INFO (t_payload t) ERROR_NONE) w) \<and>
    \<not> t_done t' \<and> t_crashed t' = t_crashed t \<and> t_open t' \<and> t_result t' = ERROR_NONE \<and>
    t_mirror t' = (e_migration E \<and> isMigrated w)"
  using assms by (simp add: storage_sections storeSetValue_def store_works_def Let_def)

lemma mirror_half:
  assumes "bounded_retries E B" "\<not> t_done t" "t_open t"
  shows "\<exists>t' w'. alone E mirror_part (t, w) = Some (t', w') \<and> \<not> t_done t' \<and> t_crashed t' = t_crashed t \<and>
    t_result t' = t_result t \<and> pairedDeviceCache w' = pairedDeviceCache w \<and> isMigrated w' = isMigrated w \<and>
    store_contents (trace w') = store_contents (trace w) \<and>
    (no_faults E \<and> t_mirror t \<longrightarrow> files w' (e_path E) =
      Some (writePayload E (fst (readExistingEntries E w)) (filesystemSnapshot (pairedDeviceCache w))))"
proof (cases "t_mirror t")
  case True
  let ?c = "filesystemSnapshot (pairedDeviceCache w)"
  obtain r w2 where wr: "Write E ?c w = Some (r, w2)" using Write_total [OF assms(1), of ?c w] by fastforce
  have "store_contents (trace w2) = store_contents (trace w)"
    by (rule evolves_store [OF io_evolves [OF Write_io [OF wr]]]) simp
  moreover have "no_faults E \<Longrightarrow> files w2 (e_path E) = Some (writePayload E (fst (readExistingEntries E w)) ?c)"
    using Write_files [OF wr] Write_succeeds [OF _ wr] by simp
  ultimately show ?thesis
    using True assms(2,3) wr io_fields [OF Write_io [OF wr]]
    by (simp add: mirror_part_def takeFileSnapshot_def writeFile_def releaseStore_def storeRelease_def
        store_contents_append store_step_def)
next
  case False
  with assms(2,3) show ?thesis
    by (simp add: mirror_part_def takeFileSnapshot_def writeFile_def releaseStore_def storeRelease_def
        store_contents_append store_step_def)
qed

lemma stored_and_mirrored:
  assumes "store_works E" "bounded_retries E B" "\<not> t_done t" "t_open t"
  shows "\<exists>t' w'. alone E ([StorePayload, CheckMirror] @ mirror_part) (t, w) = Some (t', w') \<and>
    \<not> t_done t' \<and> t_result t' = ERROR_NONE \<and> pairedDeviceCache w' = pairedDeviceCache w \<and>
    store_contents (trace w') PERSISTENT_STORE_KEY_DEVICE_INFO = Some (t_payload t)"
proof -
  let ?w1 = "emit (EvStoreSet PERSISTENT_STORE_KEY_DEVICE_INFO (t_payload t) ERROR_NONE) w"
  obtain t1 where t1: "alone E [StorePayload, CheckMirror] (t, w) = Some (t1, ?w1)" "\<not> t_done t1" "t_open t1"
      "t_result t1 = ERROR_NONE"
    using store_half [OF assms(1,3,4), of w] by blast
  obtain t2 w2 where "alone E mirror_part (t1, ?w1) = Some (t2, w2)" "\<not> t_done t2" "t_result t2 = ERROR_NONE"
      "pairedDeviceCache w2 = pairedDeviceCache w" "store_contents (trace w2) = store_contents (trace ?w1)"
    using mirror_half [OF assms(2) t1(2,3), of ?w1] t1(4) by auto
  with alone_seq [OF t1(1), of mirror_part] t1(2) show ?thesis by (simp add: store_contents_append store_step_def)
qed

lemma stale_store:
  fixes w :: "'z dmgr_scheme"
  assumes found: "um_find (pairedDeviceCache w) k = Some i" "um_find (pairedDeviceCache w) k' = Some i'" "k' \<noteq> k"
    and ready: "\<not> e_migration E \<or> isMigrated w" "service w" "store_works E" "bounded_retries E B"
  shows "\<exists>ts' w'. (cstep E)\<^sup>*\<^sup>* (map (spawn E) [SetAutoConnect k b, SetAutoConnect k' b'], w) (ts', w') \<and>
    (\<forall>t \<in> set ts'. finished t \<and> t_result t = ERROR_NONE) \<and>
    pairedDeviceCache w' = autoChanged k' b' (autoChanged k b (pairedDeviceCache w)) \<and>
    store_contents (trace w') PERSISTENT_STORE_KEY_DEVICE_INFO =
      Some (storedPayload E (autoChanged k b (pairedDeviceCache w)))"
proof -
  let ?c1 = "autoChanged k b (pairedDeviceCache w)"
  let ?op = "SetAutoConnect k' b'" and ?rest = "[StorePayload, CheckMirror] @ mirror_part"
  let ?ts = "map (spawn E) [SetAutoConnect k b, ?op]"
  let ?w1 = "emit (EvStoreAcquire True) (w\<lparr>pairedDeviceCache := ?c1\<rparr>)"
  obtain t0 where t0: "alone E (StopUnlessMigrated ERROR_GENERAL # ChangeAuto k b # payload_part) (?ts ! 0, w) = Some (t0, ?w1)"
      "\<not> t_done t0" "\<not> t_crashed t0" "t_open t0" "t_payload t0 = storedPayload E ?c1"
    using first_half [OF found(1) ready(1-3), of b] by auto
  have a: "(cstep E)\<^sup>*\<^sup>* (?ts, w) ([t0\<lparr>todo := ?rest\<rparr>, spawn E ?op], ?w1)"
    using run_sections [OF _ _ _ _ t0(1), of ?rest] t0(2) by (auto simp: storage_parts can_start_def payload_part_def)
  have f1: "um_find ?c1 k' = Some i'" using found by (simp add: autoChanged_def um.find_put)
  obtain r w2 where op: "setAutoConnect E k' b' ?w1 = Some (r, w2)"
    using dm_step_total [OF ready(4), of ?op ?w1] by auto
  then have wr: "writeStorageFromCache E (cachePut k' (i'\<lparr>autoConnectStatus := autoSetting b'\<rparr>) ?w1) = Some (r, w2)"
    using ready(1) f1 by (auto simp: setAutoConnect_sync syncStorage_def autoSetting_def)
  then have r: "r = ERROR_NONE" using ready(2,3) by (auto simp: store_works_def dest: writeStorage_succeeds)
  have c2: "pairedDeviceCache w2 = autoChanged k' b' ?c1"
    using io_fields(2) [OF writeStorage_io [OF wr]] f1 by (simp add: autoChanged_def)
  obtain t1 where b: "(cstep E)\<^sup>*\<^sup>* ([t0\<lparr>todo := ?rest\<rparr>, spawn E ?op], ?w1) ([t0\<lparr>todo := ?rest\<rparr>, t1], w2)"
      and t1: "finished t1" "\<not> t_crashed t1" "t_result t1 = r"
    using run_operation [of 1 "[t0\<lparr>todo := ?rest\<rparr>, spawn E ?op]" E ?op ?w1 r w2] op t0(3)
    by (auto simp: starts_or_stops_def op_result_def)
  obtain t2 w3 where t2: "alone E ?rest (t0\<lparr>todo := ?rest\<rparr>, w2) = Some (t2, w3)" "\<not> t_done t2" "t_result t2 = ERROR_NONE"
    and w3: "pairedDeviceCache w3 = pairedDeviceCache w2"
      "store_contents (trace w3) PERSISTENT_STORE_KEY_DEVICE_INFO = Some (storedPayload E ?c1)"
    using stored_and_mirrored [OF ready(3,4), of "t0\<lparr>todo := ?rest\<rparr>" w2] t0(2,4,5) by auto
  have "can_start ?rest [t0\<lparr>todo := ?rest\<rparr>, t1]" using t0(3) t1(2) by (simp add: can_start_def mirror_part_def)
  then have c: "(cstep E)\<^sup>*\<^sup>* ([t0\<lparr>todo := ?rest\<rparr>, t1], w2) ([t2\<lparr>todo := []\<rparr>, t1], w3)"
    using run_sections [of 0 "[t0\<lparr>todo := ?rest\<rparr>, t1]" ?rest "[]" E w2 t2 w3] t0(2) t2 by auto
  from a b c have "(cstep E)\<^sup>*\<^sup>* (?ts, w) ([t2\<lparr>todo := []\<rparr>, t1], w3)"
    by (blast intro: rtranclp_trans)
  with t1 t2(3) r w3 c2 show ?thesis
    by (intro exI [of _ "[t2\<lparr>todo := []\<rparr>, t1]"] exI [of _ w3]) auto
qed

subsection \<open>A migration cleared under a change\<close>

text \<open>
  The change has stored its payload and seen the registry migrated; \<open>clearMigration\<close> then
  empties the store and the cache; the change writes the AS file from the empty cache.
\<close>

lemma clear_under_change:
  fixes w :: "'z dmgr_scheme"
  assumes found: "um_find (pairedDeviceCache w) k = Some i"
    and ready: "e_migration E" "isMigrated w" "service w" "store_works E" "bounded_retries E B"
    and sys: "no_faults E" "iterates_all E" "deletes_truthfully E" "\<And>tr key. \<not> storageFailed (e_storeDel E tr key)"
  shows "\<exists>ts' w'. (cstep E)\<^sup>*\<^sup>* (map (spawn E) [SetAutoConnect k b, ClearMigration], w) (ts', w') \<and>
    (\<forall>t \<in> set ts'. finished t \<and> t_result t = ERROR_NONE) \<and> pairedDeviceCache w' = [] \<and>
    store_contents (trace w') PERSISTENT_STORE_KEY_DEVICE_INFO = None \<and> \<not> migrated_marker (trace w') \<and>
    files w' (e_path E) = Some (e_printObj E [(''pairedDevices'', JArr [])])"
proof -
  let ?op = "SetAutoConnect k b" and ?c1 = "autoChanged k b (pairedDeviceCache w)"
  let ?ts = "map (spawn E) [?op, ClearMigration]"
  let ?head = "StopUnlessMigrated ERROR_GENERAL # ChangeAuto k b # payload_part"
  let ?w1 = "emit (EvStoreAcquire True) (w\<lparr>pairedDeviceCache := ?c1\<rparr>)"
  obtain t0 where t0: "alone E ?head (?ts ! 0, w) = Some (t0, ?w1)" "\<not> t_done t0" "\<not> t_crashed t0" "t_open t0"
    using first_half [OF found _ ready(3,4), of b] ready(2) by auto
  let ?w2 = "emit (EvStoreSet PERSISTENT_STORE_KEY_DEVICE_INFO (t_payload t0) ERROR_NONE) ?w1"
  obtain t1 where t1: "alone E [StorePayload, CheckMirror] (t0, ?w1) = Some (t1, ?w2)" "\<not> t_done t1" "\<not> t_crashed t1"
      "t_open t1" "t_result t1 = ERROR_NONE" "t_mirror t1"
    using store_half [OF ready(4) t0(2,4), of ?w1] ready(1,2) t0(3) by auto
  have "alone E (?head @ [StorePayload, CheckMirror]) (?ts ! 0, w) = Some (t1, ?w2)"
    using alone_seq [OF t0(1)] t0(2) t1(1) by simp
  from run_sections [OF _ _ _ _ this, of mirror_part] t1(2)
  have a: "(cstep E)\<^sup>*\<^sup>* (?ts, w) ([t1\<lparr>todo := mirror_part\<rparr>, spawn E ClearMigration], ?w2)"
    by (auto simp: storage_parts can_start_def payload_part_def)
  obtain r w3 where cl: "clearMigration E ?w2 = (r, w3)" by fastforce
  have "r = ERROR_NONE"
    using cl sys(4) ready(3,4)
    by (auto simp: clearMigration_def storeAcquire_def storeDeleteKey_def store_works_def storageFailed_def Let_def
        split: if_splits)
  with cl have cl: "clearMigration E ?w2 = (ERROR_NONE, w3)" by simp
  have lk: "\<not> t_lock t1"
    using csteps_lock [OF a] section_lock lock_inv_spawn [of E "[?op, ClearMigration]"] t1(2,3)
    by (auto simp: lock_inv_def lock_ok_def mirror_part_def ends_returning_def)
  obtain t2 where b: "(cstep E)\<^sup>*\<^sup>* ([t1\<lparr>todo := mirror_part\<rparr>, spawn E ClearMigration], ?w2) ([t1\<lparr>todo := mirror_part\<rparr>, t2], w3)"
      and t2: "finished t2" "\<not> t_crashed t2" "t_result t2 = ERROR_NONE"
    using run_operation [of 1 "[t1\<lparr>todo := mirror_part\<rparr>, spawn E ClearMigration]" E ClearMigration ?w2 ERROR_NONE w3] cl lk t1(3)
    by (auto simp: starts_or_stops_def op_result_def)
  note w3 = clearMigration_outcome [OF cl, simplified] clearMigration_store [OF cl sys(3)]
  obtain t3 w4 where t3: "alone E mirror_part (t1\<lparr>todo := mirror_part\<rparr>, w3) = Some (t3, w4)" "\<not> t_done t3" "t_result t3 = ERROR_NONE"
    and w4: "pairedDeviceCache w4 = []" "store_contents (trace w4) = store_contents (trace w3)"
      "files w4 (e_path E) = Some (writePayload E (fst (readExistingEntries E w3)) [])"
    using mirror_half [OF ready(5), of "t1\<lparr>todo := mirror_part\<rparr>" w3] t1(2,4,5,6) w3(1) sys(1)
    by (auto simp: filesystemSnapshot_def)
  have "can_start mirror_part [t1\<lparr>todo := mirror_part\<rparr>, t2]" using t1(3) t2(2) by (simp add: can_start_def mirror_part_def)
  then have c: "(cstep E)\<^sup>*\<^sup>* ([t1\<lparr>todo := mirror_part\<rparr>, t2], w3) ([t3\<lparr>todo := []\<rparr>, t2], w4)"
    using run_sections [of 0 "[t1\<lparr>todo := mirror_part\<rparr>, t2]" mirror_part "[]" E w3 t3 w4] t1(2) t3 by auto
  from a b c have run: "(cstep E)\<^sup>*\<^sup>* (?ts, w) ([t3\<lparr>todo := []\<rparr>, t2], w4)" by (blast intro: rtranclp_trans)
  have "e_order E [] = []" using iterates_perm(1) [OF sys(2), of "[]"] by simp
  then have "writePayload E ex [] = e_printObj E [(''pairedDevices'', JArr [])]" for ex by (simp add: writePayload_def)
  with run t2 t3 w4 w3(2) show ?thesis
    by (intro exI [of _ "[t3\<lparr>todo := []\<rparr>, t2]"] exI [of _ w4]) (auto simp: migrated_marker_def)
qed

subsection \<open>A service dropped under an operation\<close>

text \<open>
  \<open>deinit\<close> between the test of \<open>_service\<close> and the call through it. The operations on a
  registered device all reach that test once the registry may store their change.
\<close>

definition changes_record :: "dm_op \<Rightarrow> string \<Rightarrow> bool" where
  "changes_record op k \<longleftrightarrow> (\<exists>b. op = SetAutoConnect k b) \<or> op = SetLastConnectTimeUtc k \<or>
     (\<exists>v. op = SetLastVolumeSetting k v) \<or> op = RemoveDevice k"

lemma reaches_the_store:
  assumes "changes_record op k" "um_find (pairedDeviceCache w) k = Some i" "\<not> e_migration E \<or> isMigrated w" "service w"
  shows "\<exists>pre later t0 w1. program E op = pre @ QueryStore # later \<and> EnterMigration \<notin> set pre \<and>
    alone E pre (spawn E op, w) = Some (t0, w1) \<and> \<not> t_done t0 \<and> \<not> t_crashed t0 \<and> t_ready t0 \<and> service w1"
proof -
  let ?later = "TakePayload # [StorePayload, CheckMirror] @ mirror_part"
  have p: "program E op = takeWhile (\<lambda>sec. sec \<noteq> QueryStore) (program E op) @ QueryStore # ?later"
    using assms(1) by (auto simp: changes_record_def storage_parts payload_part_def)
  moreover have "EnterMigration \<notin> set (takeWhile (\<lambda>sec. sec \<noteq> QueryStore) (program E op))"
    using assms(1) by (auto simp: changes_record_def storage_parts payload_part_def)
  moreover have "\<exists>t0 w1. alone E (takeWhile (\<lambda>sec. sec \<noteq> QueryStore) (program E op)) (spawn E op, w) = Some (t0, w1) \<and>
      \<not> t_done t0 \<and> \<not> t_crashed t0 \<and> t_ready t0 \<and> service w1"
    using assms by (auto simp: changes_record_def storage_parts payload_part_def device_sections checkService_def
        getPairedDeviceInfo_def)
  ultimately show ?thesis by blast
qed

lemma dropped_service:
  fixes w :: "'z dmgr_scheme"
  assumes "changes_record op k" "um_find (pairedDeviceCache w) k = Some i" "\<not> e_migration E \<or> isMigrated w" "service w"
  shows "\<exists>ts' w'. (cstep E)\<^sup>*\<^sup>* (map (spawn E) [op, Deinit], w) (ts', w') \<and>
    t_crashed (ts' ! 0) \<and> finished (ts' ! 1) \<and> t_result (ts' ! 1) = ERROR_NONE"
proof -
  let ?ts = "map (spawn E) [op, Deinit]" and ?t1 = "(spawn E Deinit)\<lparr>todo := []\<rparr>"
  obtain pre later t0 w1 where pr: "program E op = pre @ QueryStore # later" "EnterMigration \<notin> set pre"
    and al: "alone E pre (?ts ! 0, w) = Some (t0, w1)"
    and t0: "\<not> t_done t0" "\<not> t_crashed t0" "t_ready t0" "service w1"
    using reaches_the_store [OF assms] by auto
  have "EnterMigration \<notin> set (tl pre)" using pr(2) by (cases pre) simp_all
  with run_sections [OF _ _ _ _ al, of "QueryStore # later"] pr t0(1)
  have a: "(cstep E)\<^sup>*\<^sup>* (?ts, w) ([t0\<lparr>todo := QueryStore # later\<rparr>, spawn E Deinit], w1)"
    by (auto simp: can_start_def)
  let ?us = "[t0\<lparr>todo := QueryStore # later\<rparr>, spawn E Deinit]"
  have "alone E (program E Deinit) (?us ! 1, w1) = Some (spawn E Deinit, releaseService w1)"
    using t0(4) by (simp add: testService_def dropService_def resetService_def releaseService_def emit_def)
  moreover have "can_start (program E Deinit) ?us" using t0(2) by (simp add: can_start_def)
  ultimately have b: "(cstep E)\<^sup>*\<^sup>* (?us, w1) (?us[1 := ?t1], releaseService w1)"
    using run_sections [of 1 ?us "program E Deinit" "[]" E w1 "spawn E Deinit" "releaseService w1"] by auto
  let ?t2 = "crash (t0\<lparr>todo := later\<rparr>)"
  have c: "cstep E ([t0\<lparr>todo := QueryStore # later\<rparr>, ?t1], releaseService w1)
      ([t0\<lparr>todo := QueryStore # later\<rparr>, ?t1][0 := ?t2], releaseService w1)"
    by (rule step_thread [of 0 _ QueryStore later]) (use t0 in \<open>simp_all add: may_run_def queryStore_def releaseService_def\<close>)
  have "(cstep E)\<^sup>*\<^sup>* (?ts, w) ([?t2, ?t1], releaseService w1)"
    using rtranclp_trans [OF a b] c by (simp add: rtranclp.rtrancl_into_rtrancl)
  then show ?thesis
    by (intro exI [of _ "[?t2, ?t1]"] exI [of _ "releaseService w1"]) (simp add: crash_def)
qed

text \<open>
  Nothing in \<open>deinit\<close> keeps two of its calls apart: both can find the pointer and release it. The
  plugin relies on Thunder, which calls \<open>Initialize\<close> and \<open>Deinitialize\<close> one after another.
\<close>

lemma released_twice:
  fixes w :: "'z dmgr_scheme"
  assumes "service w"
  shows "\<exists>ts' w'. (cstep E)\<^sup>*\<^sup>* (map (spawn E) [Deinit, Deinit], w) (ts', w') \<and>
    (\<forall>t \<in> set ts'. finished t \<and> \<not> t_crashed t) \<and> tally shell_refs (trace w') = tally shell_refs (trace w) - 2"
proof -
  let ?t = "\<lambda>secs. (spawn E Deinit)\<lparr>todo := secs\<rparr>"
  let ?w1 = "emit EvShellRelease w" and ?w2 = "emit EvShellRelease (emit EvShellRelease w)"
  let ?w3 = "?w2\<lparr>service := False\<rparr>"
  have l: "cstep E ([?t (sec # x), ?t y], s) ([?t x, ?t y], s')"
    if "section_step E sec (?t x, s) = Some (?t x, s')" "sec \<noteq> EnterMigration" for sec x y and s s' :: "'z dmgr_scheme"
    using step_thread [of 0 "[?t (sec # x), ?t y]" sec x E s "?t x" s'] that by (simp add: may_run_def)
  have r: "cstep E ([?t y, ?t (sec # x)], s) ([?t y, ?t x], s')"
    if "section_step E sec (?t x, s) = Some (?t x, s')" "sec \<noteq> EnterMigration" for sec x y and s s' :: "'z dmgr_scheme"
    using step_thread [of 1 "[?t y, ?t (sec # x)]" sec x E s "?t x" s'] that by (simp add: may_run_def)
  note go = converse_rtranclp_into_rtranclp [where r = "cstep E"]
  have a: "(cstep E)\<^sup>*\<^sup>* ([?t [ResetService], ?t [ResetService]], ?w2) ([?t [], ?t []], ?w3)"
    by (rule go [OF l [where s' = ?w3] go [OF r rtranclp.rtrancl_refl]]) (simp_all add: resetService_def)
  have b: "(cstep E)\<^sup>*\<^sup>* ([?t [DropService, ResetService], ?t [DropService, ResetService]], w) ([?t [], ?t []], ?w3)"
    by (rule go [OF l [where s' = ?w1] go [OF r [where s' = ?w2]]]) (use a assms in \<open>simp_all add: dropService_def emit_def\<close>)
  have "(cstep E)\<^sup>*\<^sup>* ([?t [TestService, DropService, ResetService], ?t [TestService, DropService, ResetService]], w)
      ([?t [], ?t []], ?w3)"
    by (rule go [OF l [where s' = w] go [OF r [where s' = w]]]) (use b assms in \<open>simp_all add: testService_def\<close>)
  then have "(cstep E)\<^sup>*\<^sup>* (map (spawn E) [Deinit, Deinit], w) ([?t [], ?t []], ?w3)"
    by (simp add: spawn_def)
  then show ?thesis by (intro exI conjI) (auto simp: emit_def shell_refs_def)
qed

subsection \<open>A device added during a migration\<close>

text \<open>The sections of a migration up to the moment the imported cache is in the store.\<close>

definition until_stored :: "lock_section list" where
  "until_stored = EnterMigration # marker_program @ CheckMarker # import_program @ storage_program @ [CheckResult]"

definition after_stored :: "lock_section list" where
  "after_stored = [CheckService, QueryStore, SetMarker, ReleaseStore, CheckResult, SetMigrated True, Return ERROR_NONE]"

lemma migration_parts: "migration_program = until_stored @ after_stored"
  by (simp add: migration_program_def until_stored_def after_stored_def)

lemma migration_until_stored:
  assumes "idle t" "readMigrationVersionFromStorage E w = (vr, v, w1)" "missingFromPersistentStore vr \<or> vr = ERROR_NONE"
    and "vr = ERROR_NONE \<longrightarrow> v \<noteq> BLUETOOTH_MIGRATION_VERSION"
    and "importCache E w1 = (ERROR_NONE, w2)" "writeStorageFromCache E w2 = Some (ERROR_NONE, w3)"
  shows "\<exists>t'. alone E until_stored (t, w) = Some (t', w3) \<and> idle t' \<and> t_result t' = ERROR_NONE"
proof -
  obtain t1 where t1: "alone E marker_program (t\<lparr>t_lock := True\<rparr>, w) = Some (t1, w1)" "idle t1" "t_result t1 = vr"
      "vr = ERROR_NONE \<longrightarrow> t_version t1 = v"
    using alone_marker [of "t\<lparr>t_lock := True\<rparr>" E w] assms(1,2) by (auto simp: idle_def)
  obtain t2 where t2: "alone E import_program (t1, w1) = Some (t2, w2)" "idle t2"
    using alone_import [OF t1(2) assms(5)] by (auto simp: import_program_def)
  obtain t3 where t3: "alone E storage_program (t2, w2) = Some (t3, w3)" "idle t3" "t_result t3 = ERROR_NONE"
    using alone_storage [OF t2(2), of E w2] assms(6) by (auto simp: implements_def)
  have "checkMarker (t1, w1) = (t1, w1)" using assms(3,4) t1(3,4) by (auto simp: checkMarker_def markerSeen_def)
  with t1 t2 t3 assms(1) alone_seq [OF t1(1)] alone_seq [OF t2(1)] alone_seq [OF t3(1)] show ?thesis
    by (simp add: until_stored_def enterMigration_def idle_def checkResult_def)
qed

lemma migration_after_stored:
  assumes "idle t" "service w" "store_works E"
  shows "\<exists>t' w'. alone E after_stored (t, w) = Some (t', w') \<and> t_done t' \<and> t_result t' = ERROR_NONE \<and>
    isMigrated w' \<and> pairedDeviceCache w' = pairedDeviceCache w \<and>
    store_contents (trace w') = (store_contents (trace w))(PERSISTENT_STORE_KEY_MIGRATION_VERSION \<mapsto> BLUETOOTH_MIGRATION_VERSION)"
  using assms
  by (simp add: idle_def after_stored_def storage_sections setMarker_def checkResult_def setMigrated_def finish_def
      storeAcquire_def storeSetValue_def storeRelease_def store_works_def store_contents_append store_step_def Let_def)

lemma readVersion_unmarked:
  assumes "store_faithful E" "\<not> migrated_marker (trace w)" "readMigrationVersionFromStorage E w = (r, v, w')"
  shows "\<not> (r = ERROR_NONE \<and> v = BLUETOOTH_MIGRATION_VERSION)"
  using assms(3)
proof (cases rule: readVersion_cases)
  case read
  let ?tr = "trace w @ [EvStoreAcquire True]"
  have st: "store_contents ?tr = store_contents (trace w)" by (simp add: store_step_def)
  show ?thesis
  proof (cases "store_contents (trace w) PERSISTENT_STORE_KEY_MIGRATION_VERSION")
    case None
    then have "missingFromPersistentStore r" using faithful_None [OF assms(1), of ?tr PERSISTENT_STORE_KEY_MIGRATION_VERSION] st read(2) by simp
    then show ?thesis by (auto simp: missingFromPersistentStore_def)
  next
    case (Some x)
    then have "v = x" using faithful_Some [OF assms(1), of ?tr] st read(2) by simp
    then show ?thesis using Some assms(2) by (simp add: migrated_marker_def)
  qed
qed simp

lemma added_during_migration:
  fixes w w1 :: "'z dmgr_scheme"
  assumes mg: "performMigration E w = Some (ERROR_NONE, w1)" "\<not> migrated_marker (trace w)" "\<not> isMigrated w"
    and env: "e_migration E" "store_faithful E" "store_works E" "bounded_retries E B"
    and dev: "stoll k = Inr n" "\<And>tr. e_bt E tr (GetDeviceProperties (word_of_int n)) = BTRMGR_RESULT_SUCCESS"
  shows "\<exists>ts' w' i. (cstep E)\<^sup>*\<^sup>* (map (spawn E) [PerformMigration, AddDevice k], w) (ts', w') \<and>
    (\<forall>t \<in> set ts'. finished t \<and> t_result t = ERROR_NONE) \<and> isMigrated w' \<and> migrated_marker (trace w') \<and>
    pairedDeviceCache w' = um_put k i (pairedDeviceCache w1) \<and>
    store_contents (trace w') PERSISTENT_STORE_KEY_DEVICE_INFO = Some (storedPayload E (pairedDeviceCache w1))"
proof -
  let ?ts = "map (spawn E) [PerformMigration, AddDevice k]"
  obtain vr v v1 where rd: "readMigrationVersionFromStorage E w = (vr, v, v1)" by (metis prod_cases3)
  obtain ir v2 where im: "importCache E v1 = (ir, v2)" by fastforce
  have nm: "\<not> (vr = ERROR_NONE \<and> v = BLUETOOTH_MIGRATION_VERSION)"
    using readVersion_unmarked [OF env(2) mg(2) rd] by blast
  from mg(1) rd im nm obtain v3 xr v4 where vr: "missingFromPersistentStore vr \<or> vr = ERROR_NONE" and ir: "ir = ERROR_NONE"
    and wr: "writeStorageFromCache E v2 = Some (ERROR_NONE, v3)"
    and wm: "writeMigrationVersionToStorage E v3 = (xr, v4)" "w1 = v4\<lparr>isMigrated := True\<rparr>"
    by (auto simp: performMigration_def Let_def split: if_splits prod.splits elim!: bind_SomeE)
  obtain t0 where t0: "alone E until_stored (?ts ! 0, w) = Some (t0, v3)" "idle t0" "t_result t0 = ERROR_NONE"
    using migration_until_stored [of "?ts ! 0" E w vr v v1 v2 v3] rd im ir wr vr nm by auto
  have life: "\<forall>sec \<in> set until_stored. \<not> life_section sec" by (simp add: until_stored_def program_defs)
  have "\<not> starts_or_stops PerformMigration" by (simp add: starts_or_stops_def)
  then have nc: "\<not> t_crashed t0" using alone_calm [OF t0(1) _ life] calm_spawn by simp
  from run_sections [OF _ _ _ _ t0(1), of after_stored] t0(2)
  have a: "(cstep E)\<^sup>*\<^sup>* (?ts, w) ([t0\<lparr>todo := after_stored\<rparr>, spawn E (AddDevice k)], v3)"
    by (auto simp: migration_parts can_start_def until_stored_def program_defs idle_def)
  have sv: "service v3" using writeStorage_service [OF wr] io_fields [OF writeStorage_io [OF wr]] by simp
  have um: "\<not> isMigrated v3"
    using mg(3) io_fields [OF readVersion_io [OF rd]] importCache_fields [OF im] io_fields [OF writeStorage_io [OF wr]] by simp
  let ?h = "word_of_int n :: handle"
  let ?i = "addedInfo E k (e_devProps E (trace v3) ?h)"
  let ?v = "cachePut k ?i (emit (EvBT (GetDeviceProperties ?h) BTRMGR_RESULT_SUCCESS) v3)"
  have "dm_step E (AddDevice k) v3 = Some (ERROR_NONE, ?v)"
    using dev env(1) um by (simp add: addDevice_def btCall_def Let_def)
  then obtain t1 where b: "(cstep E)\<^sup>*\<^sup>* ([t0\<lparr>todo := after_stored\<rparr>, spawn E (AddDevice k)], v3) ([t0\<lparr>todo := after_stored\<rparr>, t1], ?v)"
      and t1: "finished t1" "\<not> t_crashed t1" "t_result t1 = ERROR_NONE"
    using run_operation [of 1 "[t0\<lparr>todo := after_stored\<rparr>, spawn E (AddDevice k)]" E "AddDevice k" v3 ERROR_NONE ?v] nc
    by (auto simp: starts_or_stops_def op_result_def)
  obtain t2 w' where t2: "alone E after_stored (t0\<lparr>todo := after_stored\<rparr>, ?v) = Some (t2, w')" "t_done t2" "t_result t2 = ERROR_NONE"
    and w': "isMigrated w'" "pairedDeviceCache w' = pairedDeviceCache ?v"
      "store_contents (trace w') = (store_contents (trace ?v))(PERSISTENT_STORE_KEY_MIGRATION_VERSION \<mapsto> BLUETOOTH_MIGRATION_VERSION)"
    using migration_after_stored [of "t0\<lparr>todo := after_stored\<rparr>" ?v E] t0(2) sv env(3) by (auto simp: idle_def)
  have "can_start after_stored [t0\<lparr>todo := after_stored\<rparr>, t1]" using nc t1(2) by (simp add: can_start_def after_stored_def)
  then obtain rest where c: "(cstep E)\<^sup>*\<^sup>* ([t0\<lparr>todo := after_stored\<rparr>, t1], ?v) ([t2\<lparr>todo := rest\<rparr>, t1], w')"
    using run_sections [of 0 "[t0\<lparr>todo := after_stored\<rparr>, t1]" after_stored "[]" E ?v t2 w'] t0(2) t2 by (auto simp: idle_def)
  from a b c have run: "(cstep E)\<^sup>*\<^sup>* (?ts, w) ([t2\<lparr>todo := rest\<rparr>, t1], w')" by (blast intro: rtranclp_trans)
  have c2: "pairedDeviceCache v3 = pairedDeviceCache w1" "pairedDeviceCache v2 = pairedDeviceCache w1"
    using io_fields [OF writeStorage_io [OF wr]] io_fields [OF writeVersion_io [OF wm(1)]] wm(2) by simp_all
  have "store_contents (trace v3) PERSISTENT_STORE_KEY_DEVICE_INFO = Some (storedPayload E (pairedDeviceCache w1))"
    using writeStorage_contents [OF wr] c2 by simp
  with run t1 t2 w' c2 show ?thesis
    by (intro exI [of _ "[t2\<lparr>todo := rest\<rparr>, t1]"] exI [of _ w'] exI [of _ ?i])
      (auto simp: migrated_marker_def store_contents_append store_step_def PERSISTENT_STORE_KEY_DEVICE_INFO_def
        PERSISTENT_STORE_KEY_MIGRATION_VERSION_def)
qed

end
