(* ===== verification/ServiceCorrect.thy ===== *)
theory ServiceCorrect
  imports InterleavingCorrect
begin

section \<open>The reference to \<open>_service\<close>\<close>

text \<open>
  \<open>init\<close> assigns \<open>_service\<close> and then calls \<open>AddRef\<close>; \<open>deinit\<close> and a failed \<open>init\<close> call \<open>Release\<close>
  and then reset the pointer; no lock covers the two. Between the two sections the count and the
  pointer disagree (\<open>unsettled\<close>). \<open>service_step\<close> shows that a section of a thread keeps
  them in step otherwise, as long as the thread may rely on the pointer (\<open>relies\<close>), which it may
  when no other thread starts or stops the registry. \<open>released_twice\<close> shows what happens
  when two do.
\<close>

subsection \<open>The shape of what is left of a program\<close>

text \<open>A failed step: \<open>AbortInit\<close>, always followed by its \<open>ResetInit\<close>; the argument is the one expected next.\<close>

fun aborts_ok :: "bool option \<Rightarrow> lock_section list \<Rightarrow> bool" where
  "aborts_ok e [] \<longleftrightarrow> e = None"
| "aborts_ok e (sec # secs) \<longleftrightarrow> (case e of
     Some b \<Rightarrow> sec = ResetInit b \<and> aborts_ok None secs
   | None \<Rightarrow> (\<exists>b. sec = AbortInit b \<and> aborts_ok (Some b) secs) \<or> \<not> life_section sec \<and> aborts_ok None secs)"

lemma aborts_ok_append: "aborts_ok e xs \<Longrightarrow> aborts_ok None ys \<Longrightarrow> aborts_ok e (xs @ ys)"
  by (induction e xs rule: aborts_ok.induct) (auto split: option.splits)

definition life_shape :: "lock_section list \<Rightarrow> bool" where
  "life_shape secs \<longleftrightarrow> (\<exists>e. aborts_ok e secs) \<or>
     (\<exists>rest. aborts_ok None rest \<and> (secs = AddRefService # rest \<or> (\<exists>srv. secs = TakeService srv # AddRefService # rest))) \<or>
     secs \<in> {[TestService, DropService, ResetService], [DropService, ResetService], [ResetService]}"

lemma aborts_ok_plain: "\<forall>sec \<in> set secs. \<not> life_section sec \<Longrightarrow> aborts_ok None secs"
  by (induction secs) auto

lemma aborts_shape [intro]: "aborts_ok e secs \<Longrightarrow> life_shape secs"
  by (auto simp: life_shape_def)

lemma program_shape [simp]: "life_shape (program E op)"
proof (cases "starts_or_stops op")
  case False
  then have "\<forall>sec \<in> set (program E op). \<not> life_section sec" using calm_spawn [of op True E] by (simp add: calm_def)
  then show ?thesis by (blast intro: aborts_ok_plain)
next
  case True
  then consider srv where "op = Init srv" | "op = Deinit" by (cases op) (auto simp: starts_or_stops_def)
  then show ?thesis
  proof cases
    case 1
    have "aborts_ok None (tl (tl (init_program E srv)))" by (auto simp: program_defs)
    moreover have "program E op = TakeService srv # AddRefService # tl (tl (init_program E srv))"
      using 1 by (simp add: init_program_def)
    ultimately show ?thesis unfolding life_shape_def by blast
  next
    case 2
    then show ?thesis by (simp add: life_shape_def)
  qed
qed

definition lives :: "thread \<Rightarrow> bool" where
  "lives t \<longleftrightarrow> \<not> t_done t \<and> (\<exists>sec \<in> set (todo t). life_section sec)"

definition will_take :: "thread \<Rightarrow> bool" where
  "will_take t \<longleftrightarrow> \<not> t_done t \<and> (\<exists>srv. TakeService srv \<in> set (todo t))"

text \<open>A thread between a call of \<open>AddRef\<close> or \<open>Release\<close> and the assignment that goes with it.\<close>

definition unsettled :: "thread \<Rightarrow> bool" where
  "unsettled t \<longleftrightarrow> \<not> t_done t \<and> (case todo t of [] \<Rightarrow> False
     | sec # secs \<Rightarrow> sec = AddRefService \<or> sec = ResetService \<or> (\<exists>b. sec = ResetInit b \<and> initFailed b t))"

text \<open>A thread that will use the pointer without a test: it took it or tested it before.\<close>

definition relies :: "thread \<Rightarrow> bool" where
  "relies t \<longleftrightarrow> lives t \<and> hd (todo t) \<noteq> TestService \<and> (\<forall>srv. hd (todo t) \<noteq> TakeService srv)"

lemma lives_spawn: "lives (spawn E op) \<Longrightarrow> starts_or_stops op"
  by (cases op) (simp_all add: lives_def starts_or_stops_def program_defs)

lemma spawn_service [simp]: "\<not> relies (spawn E op)" "\<not> unsettled (spawn E op)"
  by (cases op; simp add: relies_def lives_def unsettled_def program_defs)+

lemma unsettled_lives: "unsettled t \<Longrightarrow> lives t"
  by (auto simp: unsettled_def lives_def split: list.splits)

lemma relies_lives: "relies t \<Longrightarrow> lives t"
  by (simp add: relies_def)

lemma takes_lives: "will_take t \<Longrightarrow> lives t"
  unfolding will_take_def lives_def by (meson life_section.simps(1))

lemma aborts_take: "aborts_ok e secs \<Longrightarrow> TakeService srv \<notin> set secs"
  by (induction e secs rule: aborts_ok.induct) (auto split: option.splits)

lemma aborts_test: "aborts_ok e secs \<Longrightarrow> secs \<noteq> [] \<Longrightarrow> hd secs \<noteq> TestService \<and> (\<forall>srv. hd secs \<noteq> TakeService srv)"
  by (cases secs) (auto split: option.splits)

lemma shape_take: "life_shape (sec # secs) \<Longrightarrow> TakeService srv \<notin> set secs"
  by (auto simp: life_shape_def dest: aborts_take split: option.splits)

subsection \<open>What a section does to the reference\<close>

lemma section_service:
  assumes "section_step E sec (t, w) = Some (t', w')" "\<not> life_section sec"
  shows "tally shell_refs (trace w') = tally shell_refs (trace w) \<and> service w' = service w"
proof (cases "sec = QueryStore \<or> sec = ReleaseStore")
  case True
  with section_store [OF assms(1)] show ?thesis by blast
next
  case False
  with section_plain [OF assms(1)] assms(2) show ?thesis by (simp add: keeps_refs_def)
qed

text \<open>What may be left of a program that is at a section.\<close>

lemma shape_cases:
  assumes "life_shape (sec # secs)"
  obtains (take) srv rest where "sec = TakeService srv" "secs = AddRefService # rest" "aborts_ok None rest"
    | (add) "sec = AddRefService" "aborts_ok None secs"
    | (abort) b where "sec = AbortInit b" "aborts_ok (Some b) secs"
    | (reset) b where "sec = ResetInit b" "aborts_ok None secs"
    | (test) "sec = TestService" "secs = [DropService, ResetService]"
    | (drop) "sec = DropService" "secs = [ResetService]"
    | (forget) "sec = ResetService" "secs = []"
    | (other) "\<not> life_section sec" "aborts_ok None secs"
  using assms by (auto simp: life_shape_def split: option.splits)

lemma aborts_unsettled: "aborts_ok None (todo t) \<Longrightarrow> \<not> unsettled t"
  by (cases "todo t") (auto simp: unsettled_def)

lemma aborts_relies: "aborts_ok None (todo t) \<Longrightarrow> relies t \<Longrightarrow> \<not> t_done t \<and> (\<exists>sec \<in> set (todo t). life_section sec)"
  by (simp add: relies_def lives_def)

lemma shape_rest: "life_shape (sec # secs) \<Longrightarrow> life_shape secs"
proof (erule shape_cases)
  fix srv rest
  assume "secs = AddRefService # rest" "aborts_ok None rest"
  then show ?thesis by (auto simp: life_shape_def)
qed (auto simp: life_shape_def intro: exI [of _ None])

lemma service_step:
  assumes st: "section_step E sec (t\<lparr>todo := secs\<rparr>, w) = Some (t', w')"
    and t: "\<not> t_done t" "todo t = sec # secs" and shape: "life_shape (todo t)"
    and up: "relies t \<longrightarrow> service w" "\<forall>srv. sec = TakeService srv \<longrightarrow> \<not> service w"
  shows "life_shape (todo t')" "relies t' \<longrightarrow> service w'"
    "tally shell_refs (trace w') + of_bool (unsettled t') - of_bool (service w') =
      tally shell_refs (trace w) + of_bool (unsettled t) - of_bool (service w)"
proof -
  have td: "todo t' = secs" using section_lock [OF st] by simp
  have all: "life_shape secs \<and> (relies t' \<longrightarrow> service w') \<and>
    tally shell_refs (trace w') + of_bool (unsettled t') - of_bool (service w') =
      tally shell_refs (trace w) + of_bool (unsettled t) - of_bool (service w)"
    using shape [unfolded t(2)]
  proof (cases rule: shape_cases)
    case (take srv rest)
    then have "\<not> service w" "\<not> unsettled t" using up(2) t by (simp_all add: unsettled_def)
    moreover have "life_shape secs" using take by (auto simp: life_shape_def)
    ultimately show ?thesis using take st t(1)
      by (auto simp: takeService_def finish_def relies_def lives_def unsettled_def split: if_splits)
  next
    case add
    then have "service w" "unsettled t" using up(1) t by (simp_all add: relies_def lives_def unsettled_def)
    with add st aborts_unsettled [of t'] td show ?thesis by (auto simp: addRefService_def)
  next
    case (abort b)
    then obtain rest where secs: "secs = ResetInit b # rest" by (cases secs) auto
    have s: "service w" "\<not> unsettled t" using abort up(1) t by (simp_all add: relies_def lives_def unsettled_def)
    have f: "initFailed b (t\<lparr>todo := secs\<rparr>) = initFailed b t" "initFailed b (t\<lparr>todo := ResetInit b # rest\<rparr>) = initFailed b t"
      by (simp_all add: initFailed_def)
    have "life_shape (ResetInit b # rest)" using abort(2) secs by blast
    then show ?thesis using abort s f st t secs by (auto simp: abortInit_def unsettled_def split: if_splits)
  next
    case (reset b)
    have f: "initFailed b (t\<lparr>todo := secs\<rparr>) = initFailed b t" by (simp add: initFailed_def)
    have s: "service w" "unsettled t = initFailed b t" using reset up(1) t by (simp_all add: relies_def lives_def unsettled_def)
    show ?thesis
    proof (cases "initFailed b t")
      case True
      with reset(1) s f st have "t_done t'" "\<not> service w'" "tally shell_refs (trace w') = tally shell_refs (trace w)"
        by (auto simp: resetInit_def finish_def)
      with reset(2) s True show ?thesis by (auto simp: relies_def lives_def unsettled_def)
    next
      case False
      with reset s f st td aborts_unsettled [of t'] show ?thesis by (auto simp: resetInit_def)
    qed
  next
    case test
    then have "\<not> unsettled t" using t by (simp add: unsettled_def)
    moreover have "life_shape secs" using test by (simp add: life_shape_def)
    ultimately show ?thesis using test st
      by (auto simp: testService_def finish_def relies_def lives_def unsettled_def split: if_splits)
  next
    case drop
    then have "service w" "\<not> unsettled t" using up(1) t by (simp_all add: relies_def lives_def unsettled_def)
    moreover have "life_shape secs" using drop by (simp add: life_shape_def)
    ultimately show ?thesis using drop st t by (auto simp: dropService_def unsettled_def)
  next
    case forget
    then have "service w" "unsettled t" using up(1) t by (simp_all add: relies_def lives_def unsettled_def)
    with forget st show ?thesis
      by (auto simp: resetService_def relies_def lives_def unsettled_def life_shape_def intro: exI [of _ None])
  next
    case other
    then have u: "\<not> unsettled t" "\<not> unsettled t'" using t td aborts_unsettled [of t'] by (auto simp: unsettled_def)
    have "relies t" if "relies t'"
      using other that t td by (auto simp: relies_def lives_def)
    with other u section_service [OF st other(1)] up(1) show ?thesis by auto
  qed
  with td show "life_shape (todo t')" "relies t' \<longrightarrow> service w'"
    "tally shell_refs (trace w') + of_bool (unsettled t') - of_bool (service w') =
      tally shell_refs (trace w) + of_bool (unsettled t) - of_bool (service w)" by simp_all
qed

text \<open>A thread that neither starts nor stops the registry leaves all of this alone.\<close>

lemma idle_step:
  assumes st: "section_step E sec (t\<lparr>todo := secs\<rparr>, w) = Some (t', w')"
    and t: "\<not> t_done t" "todo t = sec # secs" "\<not> lives t"
  shows "\<not> lives t'" "service w' = service w" "tally shell_refs (trace w') = tally shell_refs (trace w)"
proof -
  have l: "\<not> life_section sec" "\<forall>x \<in> set secs. \<not> life_section x" using t by (auto simp: lives_def)
  show "\<not> lives t'" using l(2) section_lock [OF st] by (simp add: lives_def)
  show "service w' = service w" "tally shell_refs (trace w') = tally shell_refs (trace w)"
    using section_service [OF st l(1)] by simp_all
qed

lemma taken_step:
  assumes st: "section_step E sec (t\<lparr>todo := secs\<rparr>, w) = Some (t', w')" and t: "todo t = sec # secs" "life_shape (todo t)"
  shows "\<not> will_take t'"
  using section_lock [OF st] shape_take t by (auto simp: will_take_def)

end
