(* ===== verification/Handlers.thy ===== *)
theory Handlers
  imports PluginMachine ServiceCorrect
begin

section \<open>The plugin under concurrent requests, events and timers\<close>

text \<open>
  Requests, BTRMGR events, power changes, the discovery timer, \<open>Initialize\<close> and \<open>Deinitialize\<close>
  run in threads of their own over the fields of class \<open>Bluetooth\<close>, which no lock protects, and
  over the registry. Here each entry point of \<open>Bluetooth/Bluetooth.cpp\<close> is a program: a tree of
  sections, a section being one call of BTRMGR, the PowerManager, the timer or the dispatcher,
  one access of a shared field, one locked read of the registry's cache, or one section of an
  operation of the registry (theory Interleaving). What follows a section depends on what it
  returned. A pool of programs runs its sections in any order, except that \<open>_migrationLock\<close>
  blocks. Theory HandlersAlone shows that a program run alone is the entry point as the
  sequential theories define it.
\<close>

subsection \<open>Programs\<close>

text \<open>
  \<open>Act\<close>: a section of the plugin; \<open>Reg\<close>: an operation of the registry under way, and what
  follows its result; \<open>Crash\<close>: a call through a null pointer.
\<close>

datatype ('s, 'a) prog =
    Ret 'a
  | Act "'s \<Rightarrow> 's \<times> ('s, 'a) prog"
  | Reg thread "hresult \<Rightarrow> ('s, 'a) prog"
  | Crash

lemma prog_induct [case_names Ret Act Reg Crash, induct type: prog]:
  assumes "\<And>x. P (Ret x)" "\<And>f. (\<And>w. P (snd (f w))) \<Longrightarrow> P (Act f)" "\<And>t k. (\<And>r. P (k r)) \<Longrightarrow> P (Reg t k)" "P Crash"
  shows "P p"
  by (rule prog.induct) (use assms in \<open>auto simp: snds.simps\<close>)

primrec andThen :: "('s, 'a) prog \<Rightarrow> ('a \<Rightarrow> ('s, 'b) prog) \<Rightarrow> ('s, 'b) prog" where
  "andThen (Ret x) g = g x"
| "andThen (Act f) g = Act (map_prod id (\<lambda>p. andThen p g) \<circ> f)"
| "andThen (Reg t k) g = Reg t (\<lambda>r. andThen (k r) g)"
| "andThen Crash g = Crash"

definition act :: "('s \<Rightarrow> 'a \<times> 's) \<Rightarrow> ('s, 'a) prog" where
  "act f = Act (\<lambda>w. case f w of (x, w') \<Rightarrow> (w', Ret x))"

definition reads :: "('s \<Rightarrow> 'a) \<Rightarrow> ('s, 'a) prog" where
  "reads f = act (\<lambda>w. (f w, w))"

definition does :: "('s \<Rightarrow> 's) \<Rightarrow> ('s, unit) prog" where
  "does f = act (\<lambda>w. ((), f w))"

definition bt :: "env \<Rightarrow> bt_call \<Rightarrow> ('z world_scheme, BTRMGR_Result) prog" where
  "bt E c = act (btCall E c)"

definition call :: "env \<Rightarrow> dm_op \<Rightarrow> ('s, hresult) prog" where
  "call E op = Reg (spawn E op) (\<lambda>r. Ret (op_result op r))"

fun each :: "('x \<Rightarrow> ('s, 'a) prog) \<Rightarrow> 'x list \<Rightarrow> ('s, 'a list) prog" where
  "each f [] = Ret []"
| "each f (x # xs) = andThen (f x) (\<lambda>y. andThen (each f xs) (\<lambda>ys. Ret (y # ys)))"

subsection \<open>The discovery timer\<close>

text \<open>
  Two requests that start a scan at once can schedule the timer twice: \<open>moreTimers\<close> are the
  delays scheduled beside \<open>discoveryTimer\<close>. \<open>Revoke\<close> removes every entry equal to its argument,
  and \<open>DiscoveryTimer::operator==\<close> makes all entries of the plugin equal.
\<close>

record process = plugin +
  moreTimers :: "int list"

definition timerEntries :: "process \<Rightarrow> int list" where
  "timerEntries w = (case discoveryTimer w of None \<Rightarrow> [] | Some msec \<Rightarrow> [msec]) @ moreTimers w"

definition setTimers :: "int list \<Rightarrow> process \<Rightarrow> process" where
  "setTimers ms w = (case ms of [] \<Rightarrow> w\<lparr>discoveryTimer := None, moreTimers := []\<rparr>
     | m # ms' \<Rightarrow> w\<lparr>discoveryTimer := Some m, moreTimers := ms'\<rparr>)"

definition revokeTimer :: "process \<Rightarrow> process" where
  "revokeTimer w = setTimers [] (emit EvTimerRevoke w)"

definition scheduleTimer :: "int \<Rightarrow> process \<Rightarrow> process" where
  "scheduleTimer msec w = setTimers (timerEntries w @ [msec]) (emit (EvTimerSchedule msec) w)"

subsection \<open>Discovery\<close>

definition stop_sections :: "env \<Rightarrow> (process, bool) prog" where
  "stop_sections E = andThen (reads discoveryRunning) (\<lambda>running.
     if running then
       andThen (does revokeTimer) (\<lambda>_.
       andThen (bt E (StopDeviceDiscovery BTRMGR_DEVICE_OP_TYPE_AUDIO_OUTPUT)) (\<lambda>rc.
       andThen (does (discoveryRunning_update (\<lambda>_. False))) (\<lambda>_.
       Ret (rc = BTRMGR_RESULT_SUCCESS))))
     else Ret False)"

definition start_sections :: "env \<Rightarrow> int \<Rightarrow> string \<Rightarrow> (process, string) prog" where
  "start_sections E timeout discProfile = andThen (reads discoveryRunning) (\<lambda>running.
     if running then Ret STATUS_AVAILABLE
     else andThen (act (\<lambda>w. (e_numAdapters E (trace w), snd (btCall E GetNumberOfAdapters w)))) (\<lambda>numOfAdapters.
       if numOfAdapters \<noteq> 0 then
         andThen (bt E (StartDeviceDiscovery (discoveryType E discProfile))) (\<lambda>_.
         andThen (does (discoveryRunning_update (\<lambda>_. True))) (\<lambda>_.
         if timeout \<le> 0 then andThen (stop_sections E) (\<lambda>_. Ret STATUS_AVAILABLE)
         else andThen (does revokeTimer) (\<lambda>_.
           andThen (does (scheduleTimer (milliseconds E timeout))) (\<lambda>_. Ret STATUS_AVAILABLE))))
       else Ret STATUS_NO_BLUETOOTH_HARDWARE))"

definition discoverable_sections :: "env \<Rightarrow> (process, bool) prog" where
  "discoverable_sections E =
     andThen (act (\<lambda>w. (e_numAdapters E (trace w), snd (btCall E GetNumberOfAdapters w)))) (\<lambda>numOfAdapters.
       if numOfAdapters \<noteq> 0 then
         act (\<lambda>w. let d = e_discoverable E (trace w); (rc, w1) = btCall E IsAdapterDiscoverable w
           in (rc = BTRMGR_RESULT_SUCCESS \<and> d \<noteq> 0, w1))
       else Ret False)"

subsection \<open>Reading the registry\<close>

text \<open>\<open>getAutoConnect\<close> reads the atomic flag, then the cache under \<open>_adminLock\<close>.\<close>

definition lookup_sections :: "string \<Rightarrow> AutoConnectStatus \<Rightarrow> (process, hresult \<times> AutoConnectStatus) prog" where
  "lookup_sections deviceID status = reads (\<lambda>w. case getPairedDeviceInfo deviceID w of
     Inl r \<Rightarrow> (r, status)
   | Inr info \<Rightarrow> (ERROR_NONE, if autoConnectStatus info = AUTO_CONNECT_STATUS_UNSET
       then AUTO_CONNECT_STATUS_DISABLED else autoConnectStatus info))"

definition autoConnect_sections :: "env \<Rightarrow> string \<Rightarrow> AutoConnectStatus \<Rightarrow> (process, hresult \<times> AutoConnectStatus) prog" where
  "autoConnect_sections E deviceID status =
     (if e_migration E then andThen (reads isMigrated) (\<lambda>migrated.
        if \<not> migrated then Ret (ERROR_NONE, AUTO_CONNECT_STATUS_DISABLED) else lookup_sections deviceID status)
      else lookup_sections deviceID status)"

definition details_sections :: "env \<Rightarrow> string \<Rightarrow> (process, json_object) prog" where
  "details_sections E devId =
     andThen (reads (getLastConnectTimeUtc devId '''')) (\<lambda>(result, lastUtc).
     andThen (autoConnect_sections E devId AUTO_CONNECT_STATUS_UNSET) (\<lambda>(result', status).
       Ret ((if result = ERROR_NONE \<and> lastUtc \<noteq> '''' then [(''lastConnectTimeUtc'', JStr lastUtc)] else []) @
         (if result' = ERROR_NONE \<and> status \<noteq> AUTO_CONNECT_STATUS_UNSET
          then [(''autoconnect'', JBool (status = AUTO_CONNECT_STATUS_ENABLED))] else []))))"

definition paired_sections :: "env \<Rightarrow> (process, json list) prog" where
  "paired_sections E =
     andThen (act (\<lambda>w. let ds = e_paired E (trace w); (rc, w1) = btCall E GetPairedDevices w in ((rc, ds), w1)))
       (\<lambda>(rc, ds). if rc \<noteq> BTRMGR_RESULT_SUCCESS then Ret []
         else each (\<lambda>d. andThen (details_sections E (deviceId d)) (\<lambda>r. Ret (JObj (pairedFields E d @ r)))) ds)"

definition connected_sections :: "env \<Rightarrow> (process, json list) prog" where
  "connected_sections E =
     andThen (act (\<lambda>w. let ds = e_connected E (trace w); (rc, w1) = btCall E GetConnectedDevices w in ((rc, ds), w1)))
       (\<lambda>(rc, ds). if rc \<noteq> BTRMGR_RESULT_SUCCESS then Ret []
         else each (\<lambda>d. andThen (details_sections E (deviceId d)) (\<lambda>r. Ret (JObj (connectedFields E d @ r)))) ds)"

subsection \<open>Connecting and pairing\<close>

definition connection_sections :: "env \<Rightarrow> int \<Rightarrow> bool \<Rightarrow> string \<Rightarrow> (process, bool) prog" where
  "connection_sections E deviceID connect dtype =
     andThen (bt E (connectionCall E (handle_of deviceID) connect dtype)) (\<lambda>rc.
       if rc = BTRMGR_RESULT_SUCCESS \<and> connect then
         andThen (call E (SetLastConnectTimeUtc (to_string_ull (handle_of deviceID)))) (\<lambda>_. Ret True)
       else Ret (rc = BTRMGR_RESULT_SUCCESS))"

definition pairing_sections :: "env \<Rightarrow> int \<Rightarrow> bool \<Rightarrow> (process, bool) prog" where
  "pairing_sections E deviceID pair =
     andThen (bt E (if pair then PairDevice (handle_of deviceID) else UnpairDevice (handle_of deviceID))) (\<lambda>rc.
       if rc \<noteq> BTRMGR_RESULT_SUCCESS then Ret False
       else andThen (call E (if pair then AddDevice (to_string_ull (handle_of deviceID))
              else RemoveDevice (to_string_ull (handle_of deviceID)))) (\<lambda>_. Ret True))"

definition disconnectOne_sections :: "env \<Rightarrow> json \<Rightarrow> (process, unit) prog" where
  "disconnectOne_sections E v =
     (let device = e_asObject E v;
          deviceID = e_asString E (json_at device ''deviceID'');
          dtype = e_asString E (json_at device ''deviceType'')
      in if HasLabel device ''autoconnect'' \<and> \<not> e_asBool E (json_at device ''autoconnect'') \<and> dtype \<noteq> HID then
           (case stoll deviceID of
              Inl e \<Rightarrow> Ret ()
            | Inr n \<Rightarrow> andThen (connection_sections E n False dtype) (\<lambda>_. Ret ()))
         else Ret ())"

definition disconnectAll_sections :: "env \<Rightarrow> (process, unit) prog" where
  "disconnectAll_sections E =
     andThen (connected_sections E) (\<lambda>ds. andThen (each (disconnectOne_sections E) ds) (\<lambda>_. Ret ()))"

subsection \<open>Power modes\<close>

definition powerOff_sections :: "env \<Rightarrow> string \<times> BluetoothDeviceInfo \<Rightarrow> (process, unit) prog" where
  "powerOff_sections E entry = (case entry of (deviceIdStr, info) \<Rightarrow>
     if deviceType info = HID then Ret ()
     else if autoConnectStatus info = AUTO_CONNECT_STATUS_DISABLED then
       (case stoll deviceIdStr of
          Inl e \<Rightarrow> Ret ()
        | Inr devId \<Rightarrow> andThen (connection_sections E devId False (deviceType info)) (\<lambda>_. Ret ()))
     else Ret ())"

definition deepSleep_sections :: "env \<Rightarrow> string \<times> BluetoothDeviceInfo \<Rightarrow> (process, unit) prog" where
  "deepSleep_sections E entry = (case entry of (deviceIdStr, info) \<Rightarrow>
     if deviceType info = HID then Ret ()
     else (case stoll deviceIdStr of
          Inl e \<Rightarrow> Ret ()
        | Inr devId \<Rightarrow> andThen (connection_sections E devId False (deviceType info)) (\<lambda>_. Ret ())))"

definition power_sections :: "env \<Rightarrow> PowerState \<Rightarrow> PowerState \<Rightarrow> (process, unit) prog" where
  "power_sections E currentState newState =
     (if \<not> e_migration E then Ret ()
      else andThen (reads isMigrated) (\<lambda>migrated.
        if \<not> migrated then Ret ()
        else if newState = currentState then Ret ()
        else if (currentState = POWER_STATE_ON \<or> currentState = POWER_STATE_UNKNOWN) \<and> newState \<in> set powerOffStates then
          andThen (reads (\<lambda>w. e_order E (getPairedDeviceInfos w))) (\<lambda>infos.
            andThen (each (powerOff_sections E) infos) (\<lambda>_. Ret ()))
        else if newState = POWER_STATE_ON then
          andThen (reads (\<lambda>w. e_order E (getPairedDeviceInfos w))) (\<lambda>infos.
            if 0 < pairedDevicesCount infos 0
            then andThen (act (setBluetoothEnabled E ''BLUETOOTH_ENABLED'')) (\<lambda>_. Ret ()) else Ret ())
        else if newState = POWER_STATE_STANDBY_DEEP_SLEEP then
          andThen (reads (\<lambda>w. e_order E (getPairedDeviceInfos w))) (\<lambda>infos.
            andThen (each (deepSleep_sections E) infos) (\<lambda>_. Ret ()))
        else Ret ()))"

subsection \<open>Events\<close>

definition notify_sections :: "string \<Rightarrow> json_object \<Rightarrow> (process, cpp_exception option) prog" where
  "notify_sections eventId params = andThen (does (sendNotify eventId params)) (\<lambda>_. Ret None)"

definition answer_sections :: "env \<Rightarrow> external_device \<Rightarrow> bool \<Rightarrow> (process, cpp_exception option) prog" where
  "answer_sections E d bAccepted =
     andThen (act (setEventResponse E (sint (m_deviceHandle d)) EVT_CONNECTION_REQUEST
         (if bAccepted then ''ACCEPTED'' else ''REJECTED''))) (\<lambda>_.
       if \<not> bAccepted then Ret None
       else case e_typeString E (m_deviceType d) of
         None \<Rightarrow> Ret (Some null_c_string)
       | Some t \<Rightarrow> andThen (connection_sections E (sint (m_deviceHandle d)) True t) (\<lambda>_. Ret None))"

text \<open>A connection change asks the registry before it notifies; the other events only notify.\<close>

definition change_sections :: "env \<Rightarrow> BTRMGR_EventMessage \<Rightarrow> (process, cpp_exception option) prog" where
  "change_sections E msg =
     (let d = m_pairedDevice msg in
      if nullTypeThrows E msg then Ret (Some null_c_string)
      else andThen (autoConnect_sections E (deviceId d) AUTO_CONNECT_STATUS_UNSET) (\<lambda>(result, status).
        notify_sections EVT_STATUS_CHANGED (pairedStatusParams E ''CONNECTION_CHANGE'' True d @
          (if result = ERROR_NONE \<and> status \<noteq> AUTO_CONNECT_STATUS_UNSET
           then [(''autoconnect'', JBool (status = AUTO_CONNECT_STATUS_ENABLED))] else []))))"

definition plain_sections :: "env \<Rightarrow> BTRMGR_EventMessage \<Rightarrow> (process, cpp_exception option) prog" where
  "plain_sections E msg = (if nullTypeThrows E msg then Ret (Some null_c_string)
     else act (\<lambda>w. (None, case notification E msg w of
       None \<Rightarrow> w | Some (eventId, params) \<Rightarrow> sendNotify eventId params w)))"

definition request_sections :: "env \<Rightarrow> BTRMGR_EventMessage \<Rightarrow> (process, cpp_exception option) prog" where
  "request_sections E msg =
     (if e_migration E then andThen (reads isMigrated) (\<lambda>migrated.
        if migrated then
          andThen (autoConnect_sections E (deviceId (m_externalDevice msg)) AUTO_CONNECT_STATUS_UNSET) (\<lambda>(result, status).
            if result = ERROR_NONE
            then answer_sections E (m_externalDevice msg) (status = AUTO_CONNECT_STATUS_ENABLED)
            else plain_sections E msg)
        else plain_sections E msg)
      else plain_sections E msg)"

definition event_sections :: "env \<Rightarrow> BTRMGR_EventMessage \<Rightarrow> (process, cpp_exception option) prog" where
  "event_sections E msg = (case m_eventType msg of
     BTRMGR_EVENT_RECEIVED_EXTERNAL_CONNECT_REQUEST \<Rightarrow> request_sections E msg
   | BTRMGR_EVENT_DEVICE_CONNECTION_COMPLETE \<Rightarrow> change_sections E msg
   | BTRMGR_EVENT_DEVICE_DISCONNECT_COMPLETE \<Rightarrow> change_sections E msg
   | _ \<Rightarrow> plain_sections E msg)"

text \<open>\<open>_instance\<close> is tested, then read again for the call.\<close>

definition callback_sections :: "env \<Rightarrow> BTRMGR_EventMessage \<Rightarrow> (process, cpp_exception + BTRMGR_Result) prog" where
  "callback_sections E msg = andThen (reads instanceSet) (\<lambda>instance.
     if \<not> instance then Ret (Inr BTRMGR_RESULT_INIT_FAILED)
     else andThen (Act (\<lambda>w. (w, if instanceSet w then event_sections E msg else Crash))) (\<lambda>thrown.
       Ret (case thrown of Some e \<Rightarrow> Inl e | None \<Rightarrow> Inr BTRMGR_RESULT_SUCCESS)))"

subsection \<open>Requests\<close>

text \<open>A method that makes one call of BTRMGR, or none, is one section.\<close>

definition single :: "process rpc \<Rightarrow> json_object \<Rightarrow> (process, rpc_result) prog" where
  "single m parameters = Act (\<lambda>w. case m parameters w of
     None \<Rightarrow> (w, Crash) | Some (r, w') \<Rightarrow> (w', Ret r))"

definition withDevice :: "env \<Rightarrow> json_object \<Rightarrow> (string \<Rightarrow> int \<Rightarrow> (process, rpc_result) prog) \<Rightarrow> (process, rpc_result) prog" where
  "withDevice E parameters body = (case deviceIDParam E parameters of
     BadId e \<Rightarrow> Ret (Throws e) | NoId \<Rightarrow> Ret (Returns [] False) | Id s devId \<Rightarrow> body s devId)"

definition startScan_sections :: "env \<Rightarrow> json_object \<Rightarrow> (process, rpc_result) prog" where
  "startScan_sections E parameters =
     (if HasLabel parameters ''timeout'' then
        andThen (start_sections E (e_getNumber E parameters ''timeout'' (- 1))
            (case stringParam E parameters ''profile'' of Some p \<Rightarrow> p | None \<Rightarrow> defaultProfile))
          (\<lambda>status. Ret (Returns [(''status'', JStr status)] True))
      else Ret (Returns [] False))"

definition connect_sections :: "env \<Rightarrow> bool \<Rightarrow> json_object \<Rightarrow> (process, rpc_result) prog" where
  "connect_sections E connect parameters = withDevice E parameters (\<lambda>s devId.
     andThen (connection_sections E devId connect
         (case stringParam E parameters ''deviceType'' of Some t \<Rightarrow> t | None \<Rightarrow> defaultDeviceType))
       (\<lambda>ok. Ret (Returns [] ok)))"

definition pair_sections :: "env \<Rightarrow> bool \<Rightarrow> json_object \<Rightarrow> (process, rpc_result) prog" where
  "pair_sections E pair parameters = withDevice E parameters (\<lambda>s devId.
     andThen (pairing_sections E devId pair) (\<lambda>ok. Ret (Returns [] ok)))"

definition setVolume_sections :: "env \<Rightarrow> json_object \<Rightarrow> (process, rpc_result) prog" where
  "setVolume_sections E parameters = withDevice E parameters (\<lambda>deviceIDStr devId.
     case stringParam E parameters ''deviceType'' of
       None \<Rightarrow> Ret (Returns [] False)
     | Some t \<Rightarrow>
         if HasLabel parameters ''volume'' \<and> HasLabel parameters ''mute'' then
           let ui8volume = (word_of_int (e_getNumber E parameters ''volume'' 0) :: 8 word);
               mute = (word_of_int (e_getNumber E parameters ''mute'' 0) :: 8 word)
           in andThen (act (setDeviceVolumeMuteProperties E devId t ui8volume mute)) (\<lambda>successFlag.
             if successFlag then andThen (call E (SetLastVolumeSetting deviceIDStr (uint ui8volume)))
               (\<lambda>_. Ret (Returns [] True))
             else Ret (Returns [] False))
         else Ret (Returns [] False))"

definition setAutoConnect_sections :: "env \<Rightarrow> json_object \<Rightarrow> (process, rpc_result) prog" where
  "setAutoConnect_sections E parameters =
     (if HasLabel parameters ''deviceID'' \<and> HasLabel parameters ''enable'' then
        let deviceID = e_getString E parameters ''deviceID'' '''';
            enable = e_getBool E parameters ''enable'' (e_uninitBool E)
        in andThen (call E (SetAutoConnect deviceID enable)) (\<lambda>result.
          if result \<noteq> ERROR_NONE then Ret (Returns [] False)
          else andThen (does (notifyAutoConnectStatusChanged deviceID enable)) (\<lambda>_. Ret (Returns [] True)))
      else Ret (Returns [] False))"

definition getAutoConnect_sections :: "env \<Rightarrow> json_object \<Rightarrow> (process, rpc_result) prog" where
  "getAutoConnect_sections E parameters = (case stringParam E parameters ''deviceID'' of
     None \<Rightarrow> Ret (Returns [] False)
   | Some deviceID \<Rightarrow> andThen (autoConnect_sections E deviceID AUTO_CONNECT_STATUS_UNSET) (\<lambda>(result, status).
       Ret (if result = ERROR_NONE then Returns [(''autoconnect'', JBool (status = AUTO_CONNECT_STATUS_ENABLED))] True
         else Returns [] False)))"

definition migrate_sections :: "env \<Rightarrow> dm_op \<Rightarrow> json_object \<Rightarrow> (process, rpc_result) prog" where
  "migrate_sections E op parameters = andThen (call E op) (\<lambda>result. Ret (Returns [] (result = ERROR_NONE)))"

definition methodSections :: "env \<Rightarrow> (string \<times> (json_object \<Rightarrow> (process, rpc_result) prog)) list" where
  "methodSections E =
     [(''getApiVersionNumber'', single (getApiVersionNumber E)), (''startScan'', startScan_sections E),
      (''stopScan'', \<lambda>ps. andThen (stop_sections E) (\<lambda>_. Ret (Returns [] True))),
      (''isDiscoverable'', \<lambda>ps. andThen (discoverable_sections E) (\<lambda>d. Ret (Returns [(''discoverable'', JBool d)] True))),
      (''getDiscoveredDevices'', single (getDiscoveredDevicesWrapper E)),
      (''getPairedDevices'', \<lambda>ps. andThen (paired_sections E) (\<lambda>ds. Ret (Returns [(''pairedDevices'', JArr ds)] True))),
      (''getConnectedDevices'', \<lambda>ps. andThen (connected_sections E) (\<lambda>ds. Ret (Returns [(''connectedDevices'', JArr ds)] True))),
      (''connect'', connect_sections E True), (''disconnect'', connect_sections E False),
      (''setAudioStream'', single (setAudioStreamWrapper E)),
      (''pair'', pair_sections E True), (''unpair'', pair_sections E False), (''enable'', single (enableWrapper E)),
      (''disable'', single (disableWrapper E)), (''setDiscoverable'', single (setDiscoverableWrapper E)),
      (''getName'', single (getNameWrapper E)), (''setName'', single (setNameWrapper E)),
      (''sendAudioPlaybackCommand'', single (sendAudioPlaybackCommandWrapper E)),
      (''respondToEvent'', single (setEventResponseWrapper E)), (''getDeviceInfo'', single (getDeviceInfoWrapper E)),
      (''getAudioInfo'', single (getMediaTrackInfoWrapper E)),
      (''getDeviceVolumeMuteInfo'', single (getDeviceVolumeMuteInfoWrapper E)),
      (''setDeviceVolumeMuteInfo'', setVolume_sections E),
      (''setAutoConnect'', setAutoConnect_sections E), (''getAutoConnect'', getAutoConnect_sections E)] @
     (if e_migration E then [(''performMigration'', migrate_sections E PerformMigration),
        (''clearMigration'', migrate_sections E ClearMigration)] else [])"

subsection \<open>Start and stop\<close>

definition acquire_sections :: "env \<Rightarrow> (process, unit) prog" where
  "acquire_sections E =
     andThen (act (\<lambda>w. let ok = e_powerManager E (trace w) in (ok, (emit (EvPowerAcquire ok) w)\<lparr>powerManager := ok\<rparr>))) (\<lambda>ok.
       if \<not> ok then Ret ()
       else andThen (does (emit EvPowerRegister)) (\<lambda>_.
         andThen (act (\<lambda>w. case e_powerState E (trace w) of (r, s) \<Rightarrow> ((r, s), emit (EvPowerRead r) w)))
           (\<lambda>(r, currentState, prevState).
             if r = ERROR_NONE then power_sections E prevState currentState else Ret ())))"

definition initialize_sections :: "env \<Rightarrow> bool \<Rightarrow> (process, string) prog" where
  "initialize_sections E srv =
     andThen (does (registerMethods E)) (\<lambda>_.
     andThen (does (emit EvIarmInit)) (\<lambda>_.
     andThen (bt E RegisterForCallbacks) (\<lambda>rc.
       if rc \<noteq> BTRMGR_RESULT_SUCCESS then Ret ''Failed to Register BTRMgr...!''
       else andThen (bt E RegisterEventCallback) (\<lambda>_.
         andThen (acquire_sections E) (\<lambda>_.
         andThen (call E (Init srv)) (\<lambda>result.
           if result \<noteq> ERROR_NONE then Ret ''Failed to initialize BluetoothDeviceManager''
           else andThen (disconnectAll_sections E) (\<lambda>_. Ret ''''))))))) "

definition deinitialize_sections :: "env \<Rightarrow> (process, unit) prog" where
  "deinitialize_sections E =
     andThen (call E Deinit) (\<lambda>_.
     andThen (reads powerManager) (\<lambda>acquired.
     andThen (if acquired then andThen (does (emit EvPowerUnregister)) (\<lambda>_. does (powerManager_update (\<lambda>_. False)))
       else Ret ()) (\<lambda>_.
     andThen (does (instanceSet_update (\<lambda>_. False))) (\<lambda>_.
     andThen (bt E UnRegisterFromCallbacks) (\<lambda>_. Ret ())))))"

subsection \<open>Entry points\<close>

datatype outcome = Rpc rpc_result | NoMethod | Event "cpp_exception + BTRMGR_Result" | Message string | Finished

text \<open>\<open>TimerFires\<close>: what \<open>Timed\<close> does once the timer has taken the entry off its list.\<close>

fun entry :: "env \<Rightarrow> plugin_op \<Rightarrow> (process, outcome) prog" where
  "entry E (Request name ps) = (case map_of (methodSections E) name of
     None \<Rightarrow> Ret NoMethod | Some m \<Rightarrow> andThen (m ps) (\<lambda>r. Ret (Rpc r)))"
| "entry E (BtEvent msg) = andThen (callback_sections E msg) (\<lambda>r. Ret (Event r))"
| "entry E (PowerChange cur new) = andThen (power_sections E cur new) (\<lambda>_. Ret Finished)"
| "entry E TimerFires = andThen (stop_sections E) (\<lambda>_. Ret Finished)"
| "entry E (Start srv) = andThen (initialize_sections E srv) (\<lambda>msg. Ret (Message msg))"
| "entry E Stop = andThen (deinitialize_sections E) (\<lambda>_. Ret Finished)"

subsection \<open>Pools of programs\<close>

fun thread_of :: "('s, 'a) prog \<Rightarrow> thread list" where
  "thread_of (Reg t k) = [t]"
| "thread_of p = []"

definition threads :: "('s, 'a) prog list \<Rightarrow> thread list" where
  "threads ps = concat (map thread_of ps)"

text \<open>After a call through a null pointer the process is gone.\<close>

definition alive :: "('s, 'a) prog list \<Rightarrow> bool" where
  "alive ps \<longleftrightarrow> (\<forall>p \<in> set ps. p \<noteq> Crash) \<and> (\<forall>t \<in> set (threads ps). \<not> t_crashed t)"

inductive hstep :: "env \<Rightarrow> (process, outcome) prog list \<times> process \<Rightarrow> (process, outcome) prog list \<times> process \<Rightarrow> bool"
  for E where
  step_act: "i < length ps \<Longrightarrow> alive ps \<Longrightarrow> ps ! i = Act f \<Longrightarrow> f w = (w', p) \<Longrightarrow> hstep E (ps, w) (ps[i := p], w')"
| step_section: "i < length ps \<Longrightarrow> alive ps \<Longrightarrow> ps ! i = Reg t k \<Longrightarrow> \<not> t_done t \<Longrightarrow> todo t = sec # secs \<Longrightarrow>
    may_run sec (threads ps) \<Longrightarrow> section_step E sec (t\<lparr>todo := secs\<rparr>, w) = Some (t', w') \<Longrightarrow>
    hstep E (ps, w) (ps[i := Reg t' k], w')"
| step_return: "i < length ps \<Longrightarrow> alive ps \<Longrightarrow> ps ! i = Reg t k \<Longrightarrow> finished t \<Longrightarrow>
    hstep E (ps, w) (ps[i := k (t_result t)], w)"

text \<open>The timer thread takes an entry whose delay has passed and calls \<open>Timed\<close>.\<close>

inductive pstep :: "env \<Rightarrow> (process, outcome) prog list \<times> process \<Rightarrow> (process, outcome) prog list \<times> process \<Rightarrow> bool"
  for E where
  step_handler: "hstep E s s' \<Longrightarrow> pstep E s s'"
| step_timer: "alive ps \<Longrightarrow> timerEntries w = xs @ msec # ys \<Longrightarrow>
    pstep E (ps, w) (ps @ [entry E TimerFires], setTimers (xs @ ys) w)"

inductive_cases hstepE: "hstep E (ps, w) s'"

end
