(* ===== verification/HandlersAlone.thy ===== *)
theory HandlersAlone
  imports Handlers Races
begin

section \<open>Run alone, the sections are the entry point\<close>

text \<open>
  A program nobody interrupts, and the proof that the programs of theory Handlers are the
  entry points of the sequential theories: the same result, the same state, and the same calls
  in the same order, or no return if the operation does not return.
\<close>

subsection \<open>Uninterrupted runs\<close>

primrec solo :: "env \<Rightarrow> ('z dmgr_scheme, 'a) prog \<Rightarrow> 'z dmgr_scheme \<Rightarrow> ('a \<times> 'z dmgr_scheme) option" where
  "solo E (Ret x) = (\<lambda>w. Some (x, w))"
| "solo E (Act f) = (\<lambda>w. case (map_prod id (solo E) \<circ> f) w of (w', m) \<Rightarrow> m w')"
| "solo E (Reg t k) = (\<lambda>w. case alone E (todo t) (t, w) of
     None \<Rightarrow> None
   | Some (t', w') \<Rightarrow> if t_crashed t' then None else (solo E \<circ> k) (t_result t') w')"
| "solo E Crash = (\<lambda>w. None)"

lemma solo_Act [simp]: "solo E (Act f) w = (case f w of (w', p) \<Rightarrow> solo E p w')"
  by (simp add: case_prod_beta)

declare solo.simps(2) [simp del]

lemma solo_andThen [simp]: "solo E (andThen p g) w = do { (x, w') \<leftarrow> solo E p w; solo E (g x) w' }"
proof (induction p arbitrary: w)
  case (Act f)
  from Act [of w "fst (f w)"] show ?case by (simp add: case_prod_beta)
next
  case (Reg t k)
  then show ?case by (simp split: option.split)
qed simp_all

lemma solo_simps [simp]:
  "solo E (act f) w = (case f w of (x, w') \<Rightarrow> Some (x, w'))"
  "solo E (reads g) w = Some (g w, w)" "solo E (does h) w = Some ((), h w)"
  by (simp_all add: act_def reads_def does_def split: prod.split)

lemma solo_bt [simp]: "solo E (bt E' c) w = Some (btCall E' c w)"
  by (simp add: bt_def)

text \<open>An operation of the registry that nobody interrupts does not lose its service under way.\<close>

lemma alone_serviced:
  "alone E secs (t, w) = Some (t', w') \<Longrightarrow> service w \<Longrightarrow> \<not> t_crashed t \<Longrightarrow>
   \<forall>sec \<in> set secs. sec \<notin> {DropService, ResetService} \<and> (\<forall>b. sec \<noteq> TakeService b) \<Longrightarrow> \<not> t_crashed t'"
proof (induction secs arbitrary: t w)
  case (Cons sec secs)
  from Cons.prems(1) obtain t1 w1 where st: "section_step E sec (t, w) = Some (t1, w1)"
    and rest: "if t_done t1 then (t1, w1) = (t', w') else alone E secs (t1, w1) = Some (t', w')"
    by (auto elim!: bind_SomeE split: if_splits)
  have nc: "\<not> t_crashed t1" using section_lock [OF st] Cons.prems(2,3) by blast
  have "t_done t1 \<or> service w1"
  proof (cases "life_section sec")
    case True
    with Cons.prems(4) show ?thesis
      using st Cons.prems(2)
      by (cases sec) (auto simp: addRefService_def abortInit_def resetInit_def testService_def finish_def split: if_splits)
  qed (use section_calm [OF st] Cons.prems(2) in simp)
  with rest nc Cons show ?case by (auto split: if_splits)
qed simp

lemma alone_not_crashed:
  assumes "alone E (program E op) (spawn E op, w) = Some (t', w')"
  shows "\<not> t_crashed t'"
proof (cases "starts_or_stops op")
  case False
  then have "\<forall>sec \<in> set (program E op). \<not> life_section sec" using calm_spawn [of op True E] by (simp add: calm_def)
  with alone_calm [OF assms calm_spawn [OF False]] show ?thesis by blast
next
  case True
  then consider srv where "op = Init srv" | "op = Deinit" by (cases op) (auto simp: starts_or_stops_def)
  then show ?thesis
  proof cases
    case 1
    obtain rest where r: "program E op = TakeService srv # rest" "\<forall>sec \<in> set rest. sec \<notin> {DropService, ResetService} \<and> (\<forall>b. sec \<noteq> TakeService b)"
      using 1 by (simp add: program_defs)
    then show ?thesis
      using assms alone_serviced [of E rest "spawn E op" "w\<lparr>service := True\<rparr>" t' w']
      by (cases srv) (auto simp: takeService_def finish_def)
  next
    case 2
    with assms show ?thesis
      by (auto simp: testService_def dropService_def resetService_def finish_def split: if_splits)
  qed
qed

lemma solo_call [simp]: "solo E (call E op) w = dm_step E op w"
proof (cases "alone E (program E op) (spawn E op, w)")
  case None
  with alone_is_atomic [of op E w] show ?thesis by (simp add: call_def)
next
  case (Some s)
  obtain t' w' where s: "s = (t', w')" by (cases s)
  with Some alone_is_atomic [of op E w] alone_not_crashed [of E op w t' w'] show ?thesis by (simp add: call_def)
qed

subsection \<open>The functions of the plugin\<close>

lemma timers_off [simp]: "moreTimers w = [] \<Longrightarrow> w\<lparr>moreTimers := []\<rparr> = w"
  by (cases w) simp

lemma timer_sections:
  assumes "moreTimers w = []"
  shows "revokeTimer w = stopDiscoveryTimer w" "scheduleTimer msec (revokeTimer w) = startDiscoveryTimer msec w"
proof -
  have e: "moreTimers (emit ev w) = []" for ev using assms by (simp add: emit_def)
  show r: "revokeTimer w = stopDiscoveryTimer w"
    using timers_off [OF e, of EvTimerRevoke] by (cases w) (simp add: revokeTimer_def setTimers_def stopDiscoveryTimer_def emit_def assms)
  show "scheduleTimer msec (revokeTimer w) = startDiscoveryTimer msec w"
    unfolding r using assms
    by (cases w) (simp add: scheduleTimer_def startDiscoveryTimer_def stopDiscoveryTimer_def timerEntries_def setTimers_def emit_def)
qed

lemma btCall_timers [simp]: "moreTimers (snd (btCall E c w)) = moreTimers w"
  by (simp add: btCall_def emit_def Let_def)

lemma solo_stop: "moreTimers w = [] \<Longrightarrow> solo E (stop_sections E) w = Some (stopDeviceDiscovery E w)"
  by (auto simp: stop_sections_def stopDeviceDiscovery_def timer_sections Let_def split: prod.splits)

lemma solo_start: "moreTimers w = [] \<Longrightarrow> solo E (start_sections E timeout profile) w = Some (startDeviceDiscovery E timeout profile w)"
proof -
  assume m: "moreTimers w = []"
  have tr: "moreTimers (w'\<lparr>discoveryRunning := b\<rparr>) = moreTimers w'" for w' :: process and b by simp
  obtain rc w1 where b1: "btCall E GetNumberOfAdapters w = (rc, w1)" by fastforce
  obtain rc' w2 where b2: "btCall E (StartDeviceDiscovery (discoveryType E profile)) w1 = (rc', w2)" by fastforce
  have "moreTimers w2 = []" using m btCall_timers [of E _ w] btCall_timers [of E _ w1] b1 b2 by (metis snd_conv)
  then have m3: "moreTimers (w2\<lparr>discoveryRunning := True\<rparr>) = []" by simp
  show ?thesis
    using m b1 b2 solo_stop [OF m3, of E] timer_sections [OF m3]
    by (auto simp: start_sections_def startDeviceDiscovery_def Let_def split: prod.splits)
qed

lemma solo_discoverable: "solo E (discoverable_sections E) w = Some (isAdapterDiscoverable E w)"
  by (auto simp: discoverable_sections_def isAdapterDiscoverable_def Let_def split: prod.splits)

lemma solo_autoConnect: "solo E (autoConnect_sections E k status) w = Some (getAutoConnect E k status w, w)"
  by (auto simp: autoConnect_sections_def lookup_sections_def getAutoConnect_def)

lemma solo_details: "solo E (details_sections E k) w = Some (registryDetails E k w, w)"
  by (auto simp: details_sections_def registryDetails_def solo_autoConnect split: prod.splits)

text \<open>A loop whose iterations only read.\<close>

lemma solo_each_reading:
  "(\<And>x. x \<in> set xs \<Longrightarrow> solo E (f x) w = Some (g x, w)) \<Longrightarrow> solo E (each f xs) w = Some (map g xs, w)"
  by (induction xs) simp_all

lemma solo_paired: "solo E (paired_sections E) w = Some (getPairedDevices E w)"
  by (auto simp: paired_sections_def getPairedDevices_def pairedDetails_def solo_details Let_def
      intro!: solo_each_reading split: prod.splits)

lemma solo_connected: "solo E (connected_sections E) w = Some (getConnectedDevices E w)"
  by (auto simp: connected_sections_def getConnectedDevices_def connectedDetails_def solo_details Let_def
      intro!: solo_each_reading split: prod.splits)

lemma solo_connection: "solo E (connection_sections E i c t) w = setDeviceConnection E i c t w"
  by (auto simp: connection_sections_def setDeviceConnection_def Let_def split: prod.splits option.split
      intro!: arg_cong [of _ _ "Option.bind _"])

lemma solo_pairing: "solo E (pairing_sections E i b) w = setDevicePairing E i b w"
  by (auto simp: pairing_sections_def setDevicePairing_def Let_def split: prod.splits)

text \<open>A loop that runs its iterations for their effect.\<close>

lemma solo_each_doing:
  assumes "\<And>x w. solo E (f x) w = map_option (Pair ()) (g x w)"
  shows "map_option snd (solo E (each f xs) w) = forEachDevice g xs w"
proof (induction xs arbitrary: w)
  case (Cons x xs)
  show ?case
  proof (cases "g x w")
    case (Some w1)
    with Cons [of w1] show ?thesis
      by (cases "solo E (each f xs) w1") (auto simp: assms)
  qed (simp add: assms)
qed simp

lemma solo_loop:
  assumes "\<And>x w. solo E (f x) w = map_option (Pair ()) (g x w)"
  shows "do { (ys, w') \<leftarrow> solo E (each f xs) w; Some ((), w') } = map_option (Pair ()) (forEachDevice g xs w)"
  unfolding solo_each_doing [where f = f and g = g and xs = xs and w = w, OF assms, symmetric]
  by (cases "solo E (each f xs) w") auto

lemma disconnectAll_loop: "disconnectAll E vs = forEachDevice (disconnectOne E) vs"
proof (induction vs)
  case (Cons v vs)
  show ?case by (rule ext) (simp add: Cons)
qed (simp add: fun_eq_iff)

lemma solo_disconnectOne: "solo E (disconnectOne_sections E v) w = map_option (Pair ()) (disconnectOne E v w)"
  by (auto simp: disconnectOne_sections_def disconnectOne_def Let_def solo_connection option.map_comp split: sum.split option.split)
    (auto split: prod.splits Option.bind_splits)

lemma solo_disconnectAll:
  "solo E (disconnectAll_sections E) w = map_option (Pair ()) (disconnectExternallyConnectedDevices E w)"
  by (simp add: disconnectAll_sections_def disconnectExternallyConnectedDevices_def solo_connected disconnectAll_loop
      solo_loop [OF solo_disconnectOne] split: prod.split)

lemma solo_powerOff: "solo E (powerOff_sections E e) w = map_option (Pair ()) (powerOffDevice E e w)"
  by (auto simp: powerOff_sections_def powerOffDevice_def solo_connection split: prod.split sum.split option.split Option.bind_split)

lemma solo_deepSleep: "solo E (deepSleep_sections E e) w = map_option (Pair ()) (deepSleepDevice E e w)"
  by (auto simp: deepSleep_sections_def deepSleepDevice_def solo_connection split: prod.split sum.split option.split Option.bind_split)

lemma solo_power: "solo E (power_sections E cur new) w = map_option (Pair ()) (onPowerModeChanged E cur new w)"
  by (simp add: power_sections_def onPowerModeChanged_def solo_loop [OF solo_powerOff]
      solo_loop [OF solo_deepSleep] split: prod.split)

subsection \<open>Events, requests, start and stop\<close>

lemma solo_answer: "solo E (answer_sections E d b) w = answerConnectRequest E d b w"
  by (auto simp: answer_sections_def answerConnectRequest_def Let_def solo_connection split: option.split prod.splits
      intro!: bind_cong_Some)

lemma solo_plain: "solo E (plain_sections E msg) w = Some (if nullTypeThrows E msg then (Some null_c_string, w)
    else (None, case notification E msg w of None \<Rightarrow> w | Some (ev, ps) \<Rightarrow> sendNotify ev ps w))"
  by (simp add: plain_sections_def)

lemma solo_change:
  "solo E (change_sections E msg) w = Some (if nullTypeThrows E msg then (Some null_c_string, w)
    else (None, sendNotify EVT_STATUS_CHANGED (connectionChangeParams E (m_pairedDevice msg) w) w))"
  by (auto simp: Let_def change_sections_def connectionChangeParams_def notify_sections_def solo_autoConnect split: prod.splits)

lemma solo_event: "solo E (event_sections E msg) w = notifyEventWrapper E msg w"
proof (cases "m_eventType msg = BTRMGR_EVENT_RECEIVED_EXTERNAL_CONNECT_REQUEST")
  case True
  then show ?thesis
    by (auto simp: event_sections_def request_sections_def notifyEventWrapper_def solo_autoConnect solo_answer solo_plain Let_def
        split: prod.splits option.splits)
next
  case False
  then show ?thesis
    by (auto simp: event_sections_def notifyEventWrapper_def solo_plain solo_change notification_def Let_def
        split: prod.splits option.splits BTRMGR_Events.splits)
qed

lemma solo_callback: "solo E (callback_sections E msg) w = bluetoothSrv_EventCallback E msg w"
  by (auto simp: callback_sections_def bluetoothSrv_EventCallback_def solo_event split: option.split prod.splits intro!: bind_cong_Some)

text \<open>A method and its sections.\<close>

definition same :: "env \<Rightarrow> (json_object \<Rightarrow> (process, rpc_result) prog) \<Rightarrow> process rpc \<Rightarrow> bool" where
  "same E m f \<longleftrightarrow> (\<forall>ps w. moreTimers w = [] \<longrightarrow> solo E (m ps) w = f ps w)"

lemma same_single: "(\<And>ps w. f ps w \<noteq> None) \<Longrightarrow> same E (single f) f"
  by (auto simp: same_def single_def split: option.splits prod.splits)

lemma returns_eq: "returns ob p = Some (Returns ob (fst p), snd p)"
  by (simp add: returns_def split: prod.split)

lemma same_adapter:
  "same E (single (getApiVersionNumber E)) (getApiVersionNumber E)"
  "same E (single (getDiscoveredDevicesWrapper E)) (getDiscoveredDevicesWrapper E)"
  "same E (single (enableWrapper E)) (enableWrapper E)" "same E (single (disableWrapper E)) (disableWrapper E)"
  "same E (single (setDiscoverableWrapper E)) (setDiscoverableWrapper E)"
  "same E (single (getNameWrapper E)) (getNameWrapper E)" "same E (single (setNameWrapper E)) (setNameWrapper E)"
  by (rule same_single, simp add: adapter_wrappers returns_eq Let_def split: prod.split)+

lemma same_device:
  "same E (single (setAudioStreamWrapper E)) (setAudioStreamWrapper E)"
  "same E (single (sendAudioPlaybackCommandWrapper E)) (sendAudioPlaybackCommandWrapper E)"
  "same E (single (setEventResponseWrapper E)) (setEventResponseWrapper E)"
  "same E (single (getDeviceInfoWrapper E)) (getDeviceInfoWrapper E)"
  "same E (single (getMediaTrackInfoWrapper E)) (getMediaTrackInfoWrapper E)"
  "same E (single (getDeviceVolumeMuteInfoWrapper E)) (getDeviceVolumeMuteInfoWrapper E)"
  by (rule same_single, simp add: device_wrappers returns_eq split: id_param.split option.split prod.split)+

lemma same_connect:
  "same E (connect_sections E True) (connectWrapper E)" "same E (connect_sections E False) (disconnectWrapper E)"
  "same E (pair_sections E True) (pairWrapper E)" "same E (pair_sections E False) (unpairWrapper E)"
  by (auto simp: same_def connect_sections_def pair_sections_def withDevice_def device_wrappers returnsLater_def
      solo_connection solo_pairing Let_def split: id_param.split intro!: bind_cong_Some)

lemma same_lists:
  "same E (\<lambda>ps. andThen (paired_sections E) (\<lambda>ds. Ret (Returns [(''pairedDevices'', JArr ds)] True))) (getPairedDevicesWrapper E)"
  "same E (\<lambda>ps. andThen (connected_sections E) (\<lambda>ds. Ret (Returns [(''connectedDevices'', JArr ds)] True))) (getConnectedDevicesWrapper E)"
  "same E (\<lambda>ps. andThen (discoverable_sections E) (\<lambda>d. Ret (Returns [(''discoverable'', JBool d)] True))) (isDiscoverableWrapper E)"
  by (auto simp: same_def adapter_wrappers solo_paired solo_connected solo_discoverable Let_def split: prod.split)

lemma same_scan:
  "same E (startScan_sections E) (startScanWrapper E)"
  "same E (\<lambda>ps. andThen (stop_sections E) (\<lambda>_. Ret (Returns [] True))) (stopScanWrapper E)"
  by (auto simp: same_def startScan_sections_def adapter_wrappers solo_start solo_stop Let_def split: prod.split)

lemma same_registry:
  "same E (setVolume_sections E) (setDeviceVolumeMuteInfoWrapper E)"
  "same E (setAutoConnect_sections E) (setAutoConnectWrapper E)"
  "same E (getAutoConnect_sections E) (getAutoConnectWrapper E)"
  "same E (migrate_sections E PerformMigration) (performMigrationWrapper E)"
  "same E (migrate_sections E ClearMigration) (clearMigrationWrapper E)"
  by (auto simp: same_def setVolume_sections_def setAutoConnect_sections_def getAutoConnect_sections_def migrate_sections_def
      withDevice_def setDeviceVolumeMuteInfoWrapper_def registry_wrappers solo_autoConnect Let_def
      split: id_param.split option.split prod.splits intro!: bind_cong_Some)

lemma methods_same: "list_all2 (\<lambda>a b. fst a = fst b \<and> same E (snd a) (snd b)) (methodSections E) (methodTable E)"
  by (simp add: methodSections_def methodTable_def same_adapter same_device same_connect same_lists same_scan same_registry)

lemma map_of_all2:
  "list_all2 (\<lambda>a b. fst a = fst b \<and> R (snd a) (snd b)) xs ys \<Longrightarrow> rel_option R (map_of xs k) (map_of ys k)"
  by (induction rule: list_all2_induct) auto

lemma invoke_same: "rel_option (same E) (map_of (methodSections E) name) (invoke E name)"
  unfolding invoke_def using methods_same by (rule map_of_all2)

lemma solo_acquire: "solo E (acquire_sections E) w = map_option (Pair ()) (acquirePowerManager E w)"
  by (auto simp: acquire_sections_def acquirePowerManager_def solo_power Let_def split: prod.split)

lemma solo_initialize: "solo E (initialize_sections E srv) w = Initialize E srv w"
proof -
  obtain rc w2 where b: "btCall E RegisterForCallbacks (emit EvIarmInit (registerMethods E w)) = (rc, w2)" by fastforce
  obtain rc' w3 where c: "btCall E RegisterEventCallback w2 = (rc', w3)" by fastforce
  have unit: "do { (x, w') \<leftarrow> map_option (Pair ()) m; f x w' } = do { w' \<leftarrow> m; f () w' }"
    for m :: "process option" and f :: "unit \<Rightarrow> process \<Rightarrow> (string \<times> process) option"
    by (cases m) simp_all
  show ?thesis
    using b c by (auto simp: initialize_sections_def Initialize_def solo_acquire solo_disconnectAll unit Let_def
        intro!: bind_cong_Some split: prod.split)
qed

lemma solo_deinitialize: "solo E (deinitialize_sections E) w = Some ((), Deinitialize E w)"
  by (auto simp: deinitialize_sections_def Deinitialize_def Let_def split: prod.split)

subsection \<open>The entry points\<close>

text \<open>The entry points of the sequential theories with their results, and what the timer does first.\<close>

fun handle :: "env \<Rightarrow> plugin_op \<Rightarrow> process \<Rightarrow> (outcome \<times> process) option" where
  "handle E (Request name ps) w = (case invoke E name of
     None \<Rightarrow> Some (NoMethod, w) | Some m \<Rightarrow> map_option (map_prod Rpc id) (m ps w))"
| "handle E (BtEvent msg) w = map_option (map_prod Event id) (bluetoothSrv_EventCallback E msg w)"
| "handle E (PowerChange cur new) w = map_option (Pair Finished) (onPowerModeChanged E cur new w)"
| "handle E TimerFires w = Some (Finished, Timed E w)"
| "handle E (Start srv) w = map_option (map_prod Message id) (Initialize E srv w)"
| "handle E Stop w = Some (Finished, Deinitialize E w)"

fun delivered :: "plugin_op \<Rightarrow> process \<Rightarrow> process" where
  "delivered TimerFires w = w\<lparr>discoveryTimer := None\<rparr>"
| "delivered op w = w"

lemma handle_step: "map_option snd (handle E op w) = plugin_step E op w"
  by (cases op) (simp_all add: option.map_comp comp_def option.map_ident split: option.split)

lemma bind_Ret: "do { (x, w') \<leftarrow> m; Some (g x, w') } = map_option (map_prod g id) m"
  by (cases m) auto

lemma entry_alone:
  assumes "moreTimers w = []"
  shows "solo E (entry E op) (delivered op w) = handle E op w"
proof (cases op)
  case (Request name ps)
  from invoke_same [of E name] show ?thesis
  proof (cases rule: option.rel_cases)
    case None
    with Request show ?thesis by simp
  next
    case (Some m f)
    with assms Request show ?thesis by (simp add: same_def bind_Ret)
  qed
next
  case TimerFires
  with assms show ?thesis by (simp add: solo_stop Timed_def onDiscoveryTimer_def split: prod.split)
qed (auto simp: solo_callback solo_power solo_initialize solo_deinitialize bind_Ret option.map_comp comp_def)

end
