(* ===== verification/HandlersCorrect.thy ===== *)
theory HandlersCorrect
  imports HandlersAlone ServiceCorrect "HOL-Library.Multiset"
begin

section \<open>What every interleaving of entry points keeps\<close>

text \<open>
  Pools of entry points of the plugin: in any interleaving the cache stays well-formed, the
  store interfaces obtained are those under way, and one migration runs at a time; if one of
  them at most starts or stops the plugin, the service is referenced while it is held. No pool runs for ever, none is stuck before its entry
  points have returned, and none crashes while nobody starts or stops the plugin.
\<close>

subsection \<open>What the sections of the plugin keep\<close>

text \<open>A section of the plugin leaves the registry alone.\<close>

definition keeps_registry :: "'z dmgr_scheme \<Rightarrow> 'z dmgr_scheme \<Rightarrow> bool" where
  "keeps_registry w w' \<longleftrightarrow> keeps_refs w w' \<and> pairedDeviceCache w' = pairedDeviceCache w \<and> isMigrated w' = isMigrated w"

definition unstarted :: "thread \<Rightarrow> bool" where
  "unstarted t \<longleftrightarrow> thread_ok t \<and> lock_ok t \<and> held t = 0 \<and> \<not> t_lock t \<and> \<not> t_crashed t \<and> \<not> t_done t \<and>
     life_shape (todo t) \<and> \<not> relies t \<and> \<not> unsettled t"

text \<open>
  Programs whose sections leave the registry alone and whose operations on it are well-formed.
  The flag tells whether the program may still start or stop the registry; it does so once.
\<close>

primrec prog_ok :: "('z dmgr_scheme, 'a) prog \<Rightarrow> bool \<Rightarrow> bool" where
  "prog_ok (Ret x) = (\<lambda>b. True)"
| "prog_ok (Act f) = (\<lambda>b. \<forall>w. keeps_registry w (fst (f w)) \<and> snd ((map_prod id prog_ok \<circ> f) w) b)"
| "prog_ok (Reg t k) = (\<lambda>b. unstarted t \<and> (lives t \<longrightarrow> b) \<and> (\<forall>r. (prog_ok \<circ> k) r (b \<and> \<not> lives t)))"
| "prog_ok Crash = (\<lambda>b. True)"

lemma prog_ok_Act [simp]: "prog_ok (Act f) b \<longleftrightarrow> (\<forall>w. keeps_registry w (fst (f w)) \<and> prog_ok (snd (f w)) b)"
  by simp

declare prog_ok.simps(2) [simp del]

lemma prog_ok_mono: "prog_ok p b \<Longrightarrow> (b \<Longrightarrow> b') \<Longrightarrow> prog_ok p b'"
proof (induction p arbitrary: b b')
  case (Reg t k)
  have "prog_ok (k r) (b' \<and> \<not> lives t)" for r
    using Reg.IH [of r "b \<and> \<not> lives t" "b' \<and> \<not> lives t"] Reg.prems by auto
  with Reg.prems show ?case by auto
qed auto

lemma prog_ok_andThen:
  "prog_ok p b \<Longrightarrow> (\<And>x. prog_ok (g x) False) \<Longrightarrow> prog_ok (andThen p g) b"
  "prog_ok p False \<Longrightarrow> (\<And>x. prog_ok (g x) b) \<Longrightarrow> prog_ok (andThen p g) b"
proof -
  show "prog_ok p b \<Longrightarrow> (\<And>x. prog_ok (g x) False) \<Longrightarrow> prog_ok (andThen p g) b"
    by (induction p arbitrary: b) (auto intro: prog_ok_mono)
  show "prog_ok p False \<Longrightarrow> (\<And>x. prog_ok (g x) b) \<Longrightarrow> prog_ok (andThen p g) b"
  proof (induction p)
    case (Reg t k)
    then have "\<not> lives t" by simp
    with Reg show ?case by simp
  qed auto
qed

lemma andThen_act [simp]: "andThen (act f) g = Act (\<lambda>w. case f w of (x, w') \<Rightarrow> (w', g x))"
  by (auto simp: act_def fun_eq_iff split: prod.split)

lemma andThen_reads [simp]: "andThen (reads r) g = Act (\<lambda>w. (w, g (r w)))"
  by (simp add: reads_def)

lemma prog_ok_act: "(\<And>w. keeps_registry w (snd (f w))) \<Longrightarrow> prog_ok (act f) b"
  by (simp add: act_def case_prod_beta)

lemma keeps_registry_refl [simp]: "keeps_registry w w"
  by (simp add: keeps_registry_def)

lemma prog_ok_reads [simp]: "prog_ok (reads r) b"
  by (simp add: reads_def prog_ok_act)

lemma keeps_emit [simp]: "store_refs ev = 0 \<Longrightarrow> shell_refs ev = 0 \<Longrightarrow> keeps_registry w (emit ev w)"
  by (simp add: keeps_registry_def keeps_refs_def)

lemma keeps_trans: "keeps_registry w w1 \<Longrightarrow> keeps_registry w1 w2 \<Longrightarrow> keeps_registry w w2"
  by (simp add: keeps_registry_def keeps_refs_def)

lemma keeps_btCall [simp]: "keeps_registry w (snd (btCall E c w))"
  by (simp add: btCall_def Let_def)

lemma prog_ok_bt [simp]: "prog_ok (bt E c) b"
  by (simp add: bt_def prog_ok_act)

lemma unstarted_spawn [simp]: "unstarted (spawn E op)"
  by (simp add: unstarted_def)

lemma prog_ok_call: "(starts_or_stops op \<longrightarrow> b) \<Longrightarrow> prog_ok (call E op) b"
  using lives_spawn [of E op] by (auto simp: call_def)

lemma prog_ok_call_plain [simp]: "\<not> starts_or_stops op \<Longrightarrow> prog_ok (call E op) b" "prog_ok (call E op) True"
  by (simp_all add: prog_ok_call)

lemma prog_ok_each: "(\<And>x. prog_ok (f x) False) \<Longrightarrow> prog_ok (each f xs) False"
  by (induction xs) (auto intro!: prog_ok_andThen)

subsection \<open>The programs of the entry points\<close>

lemma emit_keeps_ext: "keeps_registry w (emit ev w\<lparr>powerManager := b\<rparr>) = keeps_registry w (emit ev w)"
  by (simp add: keeps_registry_def keeps_refs_def)

lemma field_keeps [simp]:
  "keeps_registry w (discoveryRunning_update g w)" "keeps_registry w (powerManager_update g w)"
  "keeps_registry w (instanceSet_update g w)" "keeps_registry w (setTimers ms w)"
  "keeps_registry w (revokeTimer w)" "keeps_registry w (scheduleTimer msec w)"
  "keeps_registry w (sendNotify ev ps w)"
  by (auto simp: setTimers_def revokeTimer_def scheduleTimer_def sendNotify_def keeps_registry_def keeps_refs_def
      emit_def store_refs_def shell_refs_def split: list.split)

lemma prog_ok_does [simp]: "(\<And>w. keeps_registry w (f w)) \<Longrightarrow> prog_ok (does f) b"
  by (simp add: does_def prog_ok_act)

lemma prog_ok_scan [simp]: "prog_ok (stop_sections E) False" "prog_ok (start_sections E timeout profile) False"
    "prog_ok (discoverable_sections E) False"
  by (auto simp: stop_sections_def start_sections_def discoverable_sections_def Let_def case_prod_beta
      intro!: prog_ok_andThen prog_ok_act)

lemma prog_ok_lookup [simp]: "prog_ok (autoConnect_sections E k status) False" "prog_ok (details_sections E k) False"
  by (auto simp: autoConnect_sections_def lookup_sections_def details_sections_def intro!: prog_ok_andThen split: prod.split)

lemma prog_ok_lists [simp]: "prog_ok (paired_sections E) False" "prog_ok (connected_sections E) False"
  by (auto simp: paired_sections_def connected_sections_def Let_def case_prod_beta intro!: prog_ok_andThen prog_ok_each)

lemma prog_ok_connection [simp]: "prog_ok (connection_sections E i c t) False" "prog_ok (pairing_sections E i c) False"
  by (auto simp: connection_sections_def pairing_sections_def starts_or_stops_def intro!: prog_ok_andThen)

lemma prog_ok_disconnectAll [simp]: "prog_ok (disconnectAll_sections E) False"
  by (auto simp: disconnectAll_sections_def disconnectOne_sections_def Let_def intro!: prog_ok_andThen prog_ok_each split: sum.split)

lemma setBluetoothEnabled_keeps [simp]: "keeps_registry w (snd (setBluetoothEnabled E b w))"
  by (simp add: setBluetoothEnabled_def case_prod_beta)

lemma prog_ok_power [simp]: "prog_ok (power_sections E cur new) False"
  by (auto simp: power_sections_def powerOff_sections_def deepSleep_sections_def case_prod_beta
      intro!: prog_ok_andThen prog_ok_each prog_ok_act split: sum.split)

lemma setEventResponse_keeps [simp]: "keeps_registry w (snd (setEventResponse E i e r w))"
  by (simp add: setEventResponse_def case_prod_beta Let_def)

lemma prog_ok_event [simp]: "prog_ok (event_sections E msg) False"
  by (auto simp: event_sections_def request_sections_def answer_sections_def change_sections_def notify_sections_def
      plain_sections_def Let_def case_prod_beta intro!: prog_ok_andThen prog_ok_act split: BTRMGR_Events.split option.split prod.split)

lemma prog_ok_callback [simp]: "prog_ok (callback_sections E msg) False"
  by (auto simp: callback_sections_def intro!: prog_ok_andThen)

text \<open>The methods that are one section.\<close>

definition keeps_method :: "process rpc \<Rightarrow> bool" where
  "keeps_method m \<longleftrightarrow> (\<forall>ps w. case m ps w of None \<Rightarrow> True | Some (r, w') \<Rightarrow> keeps_registry w w')"

lemma prog_ok_single: "keeps_method m \<Longrightarrow> prog_ok (single m ps) b"
  by (auto simp: single_def keeps_method_def split: option.split prod.split)
    (metis (no_types, lifting) case_prod_conv option.simps(5))+

lemma bt_functions_keep [simp]:
  "keeps_registry w (snd (getDiscoveredDevices E w))" "keeps_registry w (snd (setBluetoothDiscoverable E b timeout w))"
  "keeps_registry w (snd (snd (getBluetoothProperties E w)))" "keeps_registry w (snd (setBluetoothProperties E ob w))"
  "keeps_registry w (snd (setAudioStream E i n w))" "keeps_registry w (snd (setAudioControlCommand E i c w))"
  "keeps_registry w (snd (getDeviceInfo E i w))" "keeps_registry w (snd (getMediaTrackInfo E i w))"
  "keeps_registry w (snd (getDeviceVolumeMuteProperties E i t w))"
  "keeps_registry w (snd (setDeviceVolumeMuteProperties E i t v m w))"
  by (auto simp: getDiscoveredDevices_def setBluetoothDiscoverable_def getBluetoothProperties_def setBluetoothProperties_def
      setAudioStream_def setAudioControlCommand_def getDeviceInfo_def getMediaTrackInfo_def getDeviceVolumeMuteProperties_def
      setDeviceVolumeMuteProperties_def case_prod_beta Let_def split: option.split)

lemma keeps_adapter [simp]:
  "keeps_method (getApiVersionNumber E)" "keeps_method (getDiscoveredDevicesWrapper E)" "keeps_method (enableWrapper E)"
  "keeps_method (disableWrapper E)" "keeps_method (setDiscoverableWrapper E)" "keeps_method (getNameWrapper E)"
  "keeps_method (setNameWrapper E)"
  by (simp_all add: keeps_method_def adapter_wrappers returns_eq case_prod_beta Let_def)

lemma keeps_device [simp]:
  "keeps_method (setAudioStreamWrapper E)" "keeps_method (sendAudioPlaybackCommandWrapper E)"
  "keeps_method (setEventResponseWrapper E)" "keeps_method (getDeviceInfoWrapper E)"
  "keeps_method (getMediaTrackInfoWrapper E)" "keeps_method (getDeviceVolumeMuteInfoWrapper E)"
  by (simp_all add: keeps_method_def device_wrappers returns_eq case_prod_beta Let_def split: id_param.split option.split)

lemma prog_ok_withDevice: "(\<And>s i. prog_ok (body s i) b) \<Longrightarrow> prog_ok (withDevice E ps body) b"
  by (simp add: withDevice_def split: id_param.split)

lemma prog_ok_requests [simp]:
  "prog_ok (startScan_sections E ps) False" "prog_ok (connect_sections E c ps) False" "prog_ok (pair_sections E c ps) False"
  "prog_ok (setVolume_sections E ps) False" "prog_ok (setAutoConnect_sections E ps) False"
  "prog_ok (getAutoConnect_sections E ps) False" "\<not> starts_or_stops op \<Longrightarrow> prog_ok (migrate_sections E op ps) False"
  by (auto simp: startScan_sections_def connect_sections_def pair_sections_def setVolume_sections_def setAutoConnect_sections_def
      getAutoConnect_sections_def migrate_sections_def notifyAutoConnectStatusChanged_def starts_or_stops_def Let_def case_prod_beta
      intro!: prog_ok_withDevice prog_ok_andThen prog_ok_act split: option.split prod.split)

lemma prog_ok_method: "map_of (methodSections E) name = Some m \<Longrightarrow> prog_ok (m ps) False"
proof -
  assume "map_of (methodSections E) name = Some m"
  then have "(name, m) \<in> set (methodSections E)" by (rule map_of_SomeD)
  moreover have "\<forall>x \<in> set (methodSections E). \<forall>ps. prog_ok (snd x ps) False"
    by (auto simp: methodSections_def prog_ok_single starts_or_stops_def prog_ok_andThen)
  ultimately show ?thesis by fastforce
qed

lemma registerMethods_keeps [simp]: "keeps_registry w (registerMethods E w)"
proof -
  have "keeps_registry w (fold (\<lambda>n. emit (EvRegisterMethod n)) ns w)" for ns
  proof (induction ns arbitrary: w)
    case (Cons n ns)
    have "keeps_registry w (emit (EvRegisterMethod n) w)" by (simp add: store_refs_def shell_refs_def)
    from keeps_trans [OF this Cons] show ?case by simp
  qed simp
  then show ?thesis by (simp add: registerMethods_def keeps_registry_def keeps_refs_def Let_def)
qed

lemma prog_ok_acquire [simp]: "prog_ok (acquire_sections E) False"
  by (auto simp: acquire_sections_def Let_def case_prod_beta emit_keeps_ext store_refs_def shell_refs_def intro!: prog_ok_andThen)

lemma prog_ok_initialize: "prog_ok (initialize_sections E srv) True"
  by (simp add: initialize_sections_def prog_ok_andThen store_refs_def shell_refs_def)

lemma prog_ok_deinitialize: "prog_ok (deinitialize_sections E) True"
  unfolding deinitialize_sections_def
  by (rule prog_ok_andThen(1)) (auto simp: store_refs_def shell_refs_def intro!: prog_ok_andThen)

text \<open>Only \<open>Start\<close> and \<open>Stop\<close> start or stop the registry, and only \<open>Start\<close> takes the service.\<close>

definition starts_or_stops_plugin :: "plugin_op \<Rightarrow> bool" where
  "starts_or_stops_plugin op = (case op of Start srv \<Rightarrow> True | Stop \<Rightarrow> True | _ \<Rightarrow> False)"

definition initialises :: "plugin_op \<Rightarrow> bool" where
  "initialises op = (case op of Start srv \<Rightarrow> True | _ \<Rightarrow> False)"

lemma prog_ok_entry: "prog_ok (entry E op) (starts_or_stops_plugin op)"
proof (cases op)
  case (Start srv)
  then show ?thesis by (auto simp: starts_or_stops_plugin_def intro!: prog_ok_andThen(1) prog_ok_initialize)
next
  case Stop
  then show ?thesis by (auto simp: starts_or_stops_plugin_def intro!: prog_ok_andThen(1) prog_ok_deinitialize)
qed (auto simp: starts_or_stops_plugin_def prog_ok_method intro!: prog_ok_andThen split: option.split)

primrec no_start :: "('s, 'a) prog \<Rightarrow> bool" where
  "no_start (Ret x) \<longleftrightarrow> True"
| "no_start (Act f) \<longleftrightarrow> (\<forall>w. snd ((map_prod id no_start \<circ> f) w))"
| "no_start (Reg t k) \<longleftrightarrow> \<not> will_take t \<and> (\<forall>r. (no_start \<circ> k) r)"
| "no_start Crash \<longleftrightarrow> True"

lemma no_start_idle: "prog_ok p False \<Longrightarrow> no_start p"
  by (induction p) (auto dest: takes_lives)

lemma no_start_andThen: "no_start p \<Longrightarrow> (\<And>x. no_start (g x)) \<Longrightarrow> no_start (andThen p g)"
  by (induction p) auto

lemma no_start_entry: "\<not> initialises op \<Longrightarrow> no_start (entry E op)"
proof (cases "op = Stop")
  case True
  have c: "no_start (call E Deinit)" by (simp add: call_def will_take_def spawn_def)
  have "no_start (entry E Stop)"
    unfolding entry.simps deinitialize_sections_def
    by (intro no_start_andThen c) (auto intro!: no_start_idle prog_ok_andThen simp: store_refs_def shell_refs_def)
  with True show ?thesis by simp
next
  case False
  assume "\<not> initialises op"
  with False have "\<not> starts_or_stops_plugin op" by (cases op) (simp_all add: initialises_def starts_or_stops_plugin_def)
  with prog_ok_entry [of E op] show ?thesis by (simp add: no_start_idle del: entry.simps)
qed

subsection \<open>The invariant of a pool\<close>

text \<open>A program in the middle of an operation of the registry.\<close>

definition running_ok :: "('z dmgr_scheme, 'a) prog \<Rightarrow> bool \<Rightarrow> bool" where
  "running_ok p b \<longleftrightarrow> (case p of
     Reg t k \<Rightarrow> thread_ok t \<and> lock_ok t \<and> life_shape (todo t) \<and> (lives t \<longrightarrow> b) \<and> (\<forall>r. prog_ok (k r) (b \<and> \<not> lives t))
   | _ \<Rightarrow> prog_ok p b)"

definition heldBy :: "('z dmgr_scheme, 'a) prog \<Rightarrow> int" where
  "heldBy p = sum_list (map held (thread_of p))"

definition locksOf :: "('z dmgr_scheme, 'a) prog \<Rightarrow> nat" where
  "locksOf p = length (filter t_lock (thread_of p))"

definition plugin_pool_inv :: "('z dmgr_scheme, 'a) prog list \<times> 'z dmgr_scheme \<Rightarrow> bool" where
  "plugin_pool_inv s \<longleftrightarrow> (case s of (ps, w) \<Rightarrow>
     cache_ok (pairedDeviceCache w) \<and> (\<forall>p \<in> set ps. running_ok p True) \<and>
     tally store_refs (trace w) = sum_list (map heldBy ps) \<and> sum_list (map locksOf ps) \<le> 1)"

lemma prog_ok_running: "prog_ok p b \<Longrightarrow> running_ok p b"
  by (cases p) (auto simp: running_ok_def unstarted_def)

lemma prog_ok_idle [simp]: "prog_ok p b \<Longrightarrow> heldBy p = 0" "prog_ok p b \<Longrightarrow> locksOf p = 0"
  by (cases p; simp add: heldBy_def locksOf_def unstarted_def)+

lemma pool_update:
  assumes inv: "plugin_pool_inv (ps, w)" and i: "i < length ps"
    and p': "running_ok p' True" and c: "cache_ok (pairedDeviceCache w')"
    and st: "tally store_refs (trace w') - heldBy p' = tally store_refs (trace w) - heldBy (ps ! i)"
    and lk: "locksOf p' \<le> locksOf (ps ! i) \<or> (\<forall>p \<in> set ps. locksOf p = 0) \<and> locksOf p' \<le> 1"
  shows "plugin_pool_inv (ps[i := p'], w')"
proof -
  note inv' = inv [unfolded plugin_pool_inv_def prod.case]
  have "\<forall>p \<in> set (ps[i := p']). running_ok p True" using inv' p' set_update_subset_insert [of ps i p'] by auto
  moreover have "sum_list (map locksOf (ps[i := p'])) \<le> 1"
  proof (cases "locksOf p' \<le> locksOf (ps ! i)")
    case True
    with sum_list_nat_update [OF i, of locksOf p'] inv' show ?thesis by simp
  next
    case False
    with lk have z: "\<forall>p \<in> set ps. locksOf p = 0" "locksOf p' \<le> 1" by auto
    then have "sum_list (map locksOf ps) = 0" by (simp add: sum_list_0 cong: map_cong)
    with sum_list_nat_update [OF i, of locksOf p'] z show ?thesis by simp
  qed
  ultimately show ?thesis
    using inv' c st by (simp add: plugin_pool_inv_def sum_list_update_diff [OF i])
qed

lemma running_Reg [simp]:
  "running_ok (Reg t k) b \<longleftrightarrow> thread_ok t \<and> lock_ok t \<and> life_shape (todo t) \<and> (lives t \<longrightarrow> b) \<and>
     (\<forall>r. prog_ok (k r) (b \<and> \<not> lives t))"
  "heldBy (Reg t k) = held t" "locksOf (Reg t k) = of_bool (t_lock t)"
  by (simp_all add: running_ok_def heldBy_def locksOf_def)

lemma threads_lock: "(\<forall>t \<in> set (threads ps). \<not> t_lock t) \<longleftrightarrow> (\<forall>p \<in> set ps. locksOf p = 0)"
  by (auto simp: threads_def locksOf_def filter_empty_conv)

lemma thread_in_pool: "Reg t k \<in> set ps \<Longrightarrow> t \<in> set (threads ps)"
  by (force simp: threads_def)

lemma pool_member: "plugin_pool_inv (ps, w) \<Longrightarrow> i < length ps \<Longrightarrow> running_ok (ps ! i) True"
  by (simp add: plugin_pool_inv_def)

lemma alive_thread: "alive ps \<Longrightarrow> i < length ps \<Longrightarrow> ps ! i = Reg t k \<Longrightarrow> \<not> t_crashed t"
  by (metis alive_def in_set_conv_nth thread_in_pool)

text \<open>A section of a registry operation keeps what the pool asks of its program.\<close>

lemma section_member:
  assumes ok: "running_ok (Reg t k) b" and t: "\<not> t_done t" "todo t = sec # secs"
    and st: "section_step E sec (t\<lparr>todo := secs\<rparr>, w) = Some (t', w')" and w: "cache_ok (pairedDeviceCache w)"
  shows "running_ok (Reg t' k) b" "cache_ok (pairedDeviceCache w')"
    "tally store_refs (trace w') - held t' = tally store_refs (trace w) - held t"
proof -
  have th: "thread_ok t" "lock_ok t" "life_shape (todo t)" using ok by simp_all
  note ts = thread_step [OF st th(1) t w]
  have sh: "life_shape (todo t')" using section_lock [OF st] shape_rest th(3) t(2) by simp
  have lv: "lives t' \<Longrightarrow> lives t" using section_lock [OF st] t by (auto simp: lives_def)
  have "prog_ok (k r) (b \<and> \<not> lives t')" for r
    using ok lv by (auto intro: prog_ok_mono)
  with ok ts thread_lock_step [OF st th(2) t] sh lv show "running_ok (Reg t' k) b" by simp
  show "cache_ok (pairedDeviceCache w')" "tally store_refs (trace w') - held t' = tally store_refs (trace w) - held t"
    using ts by simp_all
qed

text \<open>What the three kinds of step do to the program that makes them.\<close>

lemma act_member:
  assumes "running_ok (Act f) b" "f w = (w', p)"
  shows "keeps_registry w w'" "prog_ok p b"
  using assms by (auto simp: running_ok_def dest: spec [of _ w])

lemma return_member: "running_ok (Reg t k) b \<Longrightarrow> finished t \<Longrightarrow> prog_ok (k r) b"
  by (auto simp: lives_def finished_def)

lemma hstep_inv: "hstep E s s' \<Longrightarrow> plugin_pool_inv s \<Longrightarrow> plugin_pool_inv s'"
proof (induction rule: hstep.induct)
  case (step_act i ps f w w' p)
  have ok: "running_ok (Act f) True" using pool_member [OF step_act(5,1)] step_act(3) by simp
  note k = act_member [OF ok step_act(4)]
  have "heldBy (ps ! i) = 0" "locksOf p = 0" using step_act(3) k(2) by (simp_all add: heldBy_def)
  then show ?case
    using k step_act(5) prog_ok_running [OF k(2)]
    by (intro pool_update [OF step_act(5,1)]) (auto simp: keeps_registry_def keeps_refs_def plugin_pool_inv_def)
next
  case (step_section i ps t k sec secs w t' w')
  note inv = step_section(8)
  have ok: "running_ok (Reg t k) True" using pool_member [OF inv step_section(1)] step_section(3) by simp
  have w: "cache_ok (pairedDeviceCache w)" using inv by (simp add: plugin_pool_inv_def)
  note st = section_member [OF ok step_section(4,5,7) w]
  have "locksOf (Reg t' k) \<le> locksOf (ps ! i) \<or> (\<forall>p \<in> set ps. locksOf p = 0) \<and> locksOf (Reg t' k) \<le> 1"
  proof (cases "sec = EnterMigration")
    case True
    then have "\<forall>x \<in> set (threads ps). \<not> t_lock x" using step_section(6) by (simp add: may_run_def)
    then show ?thesis by (simp add: threads_lock)
  next
    case False
    with section_lock [OF step_section(7)] step_section(3) show ?thesis by simp
  qed
  with st step_section(3) show ?case by (intro pool_update [OF inv step_section(1)]) simp_all
next
  case (step_return i ps t k w)
  have ok: "running_ok (Reg t k) True" using pool_member [OF step_return(5,1)] step_return(3) by simp
  have nc: "\<not> t_crashed t" using alive_thread step_return(1-3) by blast
  note k = return_member [OF ok step_return(4), of "t_result t"]
  have "held t = 0" "\<not> t_lock t"
    using ok step_return(4) nc by (auto simp: finished_def lock_ok_def ends_returning_def)
  then show ?case
    using k prog_ok_running [OF k] step_return(3,5)
    by (intro pool_update [OF step_return(5,1)]) (auto simp: plugin_pool_inv_def)
qed

lemma setTimers_fields [simp]:
  "pairedDeviceCache (setTimers ms w) = pairedDeviceCache w" "trace (setTimers ms w) = trace w"
  "service (setTimers ms w) = service w" "instanceSet (setTimers ms w) = instanceSet w"
  "discoveryRunning (setTimers ms w) = discoveryRunning w" "isMigrated (setTimers ms w) = isMigrated w"
  by (simp_all add: setTimers_def split: list.split)

lemma setTimers_inv: "plugin_pool_inv (ps, setTimers ms w) = plugin_pool_inv (ps, w)"
  by (simp add: plugin_pool_inv_def)

lemma pstep_inv: "pstep E s s' \<Longrightarrow> plugin_pool_inv s \<Longrightarrow> plugin_pool_inv s'"
proof (induction rule: pstep.induct)
  case (step_timer ps w xs msec ys)
  have e: "prog_ok (entry E TimerFires) True" using prog_ok_mono [OF prog_ok_entry [of E TimerFires]] by simp
  then have "running_ok (entry E TimerFires) True" by (rule prog_ok_running)
  moreover have "plugin_pool_inv (ps, setTimers (xs @ ys) w)" using step_timer(3) by (simp add: setTimers_inv)
  ultimately show ?case using prog_ok_idle [OF e] by (auto simp: plugin_pool_inv_def simp del: entry.simps)
qed (blast intro: hstep_inv)

lemma psteps_inv: "(pstep E)\<^sup>*\<^sup>* s s' \<Longrightarrow> plugin_pool_inv s \<Longrightarrow> plugin_pool_inv s'"
  by (induction rule: rtranclp_induct) (auto intro: pstep_inv)

lemma entries_inv: "registry_inv w \<Longrightarrow> plugin_pool_inv (map (entry E) ops, w)"
proof -
  have "heldBy (entry E op) = 0" "locksOf (entry E op) = 0" "running_ok (entry E op) True" for op
    using prog_ok_idle [OF prog_ok_entry [of E op]] prog_ok_running [OF prog_ok_mono [OF prog_ok_entry [of E op], of True]]
    by (simp_all del: entry.simps)
  then show "registry_inv w \<Longrightarrow> ?thesis"
    by (auto simp: plugin_pool_inv_def registry_inv_def o_def simp del: entry.simps)
qed

definition returned :: "('s, 'a) prog \<Rightarrow> bool" where
  "returned p \<longleftrightarrow> (\<exists>x. p = Ret x)"

lemma returned_quiet: "\<forall>p \<in> set ps. returned p \<Longrightarrow> sum_list (map heldBy ps) = 0"
  by (induction ps) (auto simp: returned_def heldBy_def)

lemma returned_threads: "\<forall>p \<in> set ps. returned p \<Longrightarrow> threads ps = []"
  by (induction ps) (auto simp: returned_def threads_def)

text \<open>The threads in the pool that hold \<open>_migrationLock\<close>.\<close>

lemma locks_threads: "sum_list (map locksOf ps) = length (filter t_lock (threads ps))"
  by (induction ps) (auto simp: locksOf_def threads_def)

subsection \<open>The reference to the service\<close>

text \<open>
  No lock keeps the pointer and its reference count together (theory ServiceCorrect): they agree
  in a pool in which one program at most starts or stops the registry. Thunder sees to that, for
  it calls \<open>Initialize\<close> and \<open>Deinitialize\<close> one after another.
\<close>

definition serves :: "bool \<Rightarrow> ('s, 'a) prog \<Rightarrow> bool" where
  "serves up p \<longleftrightarrow> (\<forall>t \<in> set (thread_of p). relies t \<longrightarrow> up) \<and> (up \<longrightarrow> no_start p)"

definition unsettledIn :: "('s, 'a) prog \<Rightarrow> int" where
  "unsettledIn p = int (length (filter unsettled (thread_of p)))"

definition service_inv :: "('z dmgr_scheme, 'a) prog list \<times> 'z dmgr_scheme \<Rightarrow> bool" where
  "service_inv s \<longleftrightarrow> (case s of (ps, w) \<Rightarrow>
     (\<forall>p \<in> set ps. serves (service w) p) \<and> length (filter (\<lambda>p. \<not> running_ok p False) ps) \<le> 1 \<and>
     tally shell_refs (trace w) + sum_list (map unsettledIn ps) = of_bool (service w))"

lemma unsettledIn_simps [simp]: "unsettledIn (Reg t k) = of_bool (unsettled t)" "unsettledIn (Act f) = 0"
    "unsettledIn (Ret x) = 0"
  by (simp_all add: unsettledIn_def)

lemma fresh_serves: "prog_ok p b \<Longrightarrow> unsettledIn p = 0 \<and> (\<forall>t \<in> set (thread_of p). \<not> relies t)"
  by (cases p) (auto simp: unstarted_def unsettledIn_def)

lemma idle_serves: "running_ok p False \<Longrightarrow> serves up p \<and> unsettledIn p = 0"
  by (cases p) (auto simp: serves_def running_ok_def unsettledIn_def no_start_idle
      dest: relies_lives unsettled_lives takes_lives dest!: spec [of _ undefined])

lemma service_update:
  assumes inv: "service_inv (ps, w)" and i: "i < length ps"
    and idle: "running_ok (ps ! i) False \<Longrightarrow> running_ok p' False \<and> service w' = service w"
    and p': "serves (service w') p'"
    and eq: "tally shell_refs (trace w') + unsettledIn p' - of_bool (service w') =
      tally shell_refs (trace w) + unsettledIn (ps ! i) - of_bool (service w)"
  shows "service_inv (ps[i := p'], w')"
proof -
  note inv' = inv [unfolded service_inv_def prod.case]
  have "serves (service w') (ps ! j)" if j: "j < length ps" "j \<noteq> i" for j
  proof (cases "running_ok (ps ! i) False")
    case True
    with idle inv' j(1) show ?thesis by simp
  next
    case False
    then have "running_ok (ps ! j) False" using one_only [of "\<lambda>p. \<not> running_ok p False" ps i j] inv' i j by blast
    then show ?thesis by (simp add: idle_serves)
  qed
  then have "\<forall>p \<in> set (ps[i := p']). serves (service w') p"
    using p' by (metis in_set_conv_nth length_list_update nth_list_update_eq nth_list_update_neq)
  moreover have "length (filter (\<lambda>p. \<not> running_ok p False) (ps[i := p'])) \<le> 1"
    using filter_update_le [OF i, of "\<lambda>p. \<not> running_ok p False" p'] idle inv' by fastforce
  ultimately show ?thesis
    using inv' eq by (simp add: service_inv_def sum_list_update_diff [OF i])
qed

lemma section_serves:
  assumes ok: "running_ok (Reg t k) True" and s: "serves (service w) (Reg t k)"
    and t: "\<not> t_done t" "todo t = sec # secs" and st: "section_step E sec (t\<lparr>todo := secs\<rparr>, w) = Some (t', w')"
  shows "serves (service w') (Reg t' k)"
    "tally shell_refs (trace w') + unsettledIn (Reg t' k) - of_bool (service w') =
      tally shell_refs (trace w) + unsettledIn (Reg t k) - of_bool (service w)"
proof -
  have sh: "life_shape (todo t)" "\<forall>r. prog_ok (k r) (\<not> lives t)" using ok by simp_all
  have r: "relies t \<longrightarrow> service w" "service w \<longrightarrow> \<not> will_take t \<and> (\<forall>r. no_start (k r))"
    using s by (simp_all add: serves_def)
  then have tk: "\<forall>srv. sec = TakeService srv \<longrightarrow> \<not> service w" using t by (auto simp: will_take_def)
  note ss = service_step [OF st t sh(1) r(1) tk]
  have "no_start (k r)" if up: "service w'" for r
  proof (cases "lives t")
    case True
    with sh(2) show ?thesis by (simp add: no_start_idle)
  next
    case False
    with idle_step(2) [OF st t] up r(2) show ?thesis by simp
  qed
  with ss(2) taken_step [OF st t(2) sh(1)] show "serves (service w') (Reg t' k)" by (simp add: serves_def)
  from ss(3) show "tally shell_refs (trace w') + unsettledIn (Reg t' k) - of_bool (service w') =
      tally shell_refs (trace w) + unsettledIn (Reg t k) - of_bool (service w)" by simp
qed

lemma hstep_service: "hstep E s s' \<Longrightarrow> plugin_pool_inv s \<Longrightarrow> service_inv s \<Longrightarrow> service_inv s'"
proof (induction rule: hstep.induct)
  case (step_act i ps f w w' p)
  have ok: "running_ok (Act f) b" if "running_ok (ps ! i) b" for b using that step_act(3) by simp
  note a = act_member [OF ok step_act(4)]
  have t: "running_ok (ps ! i) True" using pool_member [OF step_act(5,1)] .
  have k: "service w' = service w" "tally shell_refs (trace w') = tally shell_refs (trace w)"
    using a(1) [OF t] by (simp_all add: keeps_registry_def keeps_refs_def)
  have "serves (service w) (Act f)" using step_act(1,3,6) by (auto simp: service_inv_def dest: nth_mem)
  then have "service w \<longrightarrow> no_start p" using step_act(4) by (auto simp: serves_def dest: spec [of _ w])
  moreover have "running_ok p False" if "running_ok (ps ! i) False"
    using prog_ok_running [OF a(2) [OF that]] .
  ultimately show ?case
    using k fresh_serves [OF a(2) [OF t]] step_act(3)
    by (intro service_update [OF step_act(6,1)]) (auto simp: serves_def)
next
  case (step_section i ps t k sec secs w t' w')
  note inv = step_section(8)
  have m: "running_ok (Reg t k) True" using pool_member [OF inv step_section(1)] step_section(3) by simp
  have w: "cache_ok (pairedDeviceCache w)" using inv by (simp add: plugin_pool_inv_def)
  have "serves (service w) (Reg t k)" using step_section(1,3,9) by (auto simp: service_inv_def dest: nth_mem)
  note ss = section_serves [OF m this step_section(4,5,7)]
  have "running_ok (Reg t' k) False \<and> service w' = service w" if "running_ok (Reg t k) False"
    using section_member(1) [OF that step_section(4,5,7) w] idle_step(2) [OF step_section(7,4,5)] that by simp
  with ss step_section(3) show ?case
    by (intro service_update [OF step_section(9,1)]) auto
next
  case (step_return i ps t k w)
  have m: "running_ok (ps ! i) b \<Longrightarrow> prog_ok (k (t_result t)) b" for b
    using return_member step_return(3,4) by metis
  have u: "\<not> unsettled t" using step_return(4) by (auto simp: finished_def unsettled_def)
  have "serves (service w) (Reg t k)" using step_return(1,3,6) by (auto simp: service_inv_def dest: nth_mem)
  with fresh_serves [OF m [OF pool_member [OF step_return(5,1)]]] u step_return(3) show ?case
    by (intro service_update [OF step_return(6,1)]) (auto simp: serves_def intro: prog_ok_running m)
qed

lemma pstep_service: "pstep E s s' \<Longrightarrow> plugin_pool_inv s \<Longrightarrow> service_inv s \<Longrightarrow> service_inv s'"
proof (induction rule: pstep.induct)
  case (step_timer ps w xs msec ys)
  have "prog_ok (entry E TimerFires) False" using prog_ok_entry [of E TimerFires] by (simp add: starts_or_stops_plugin_def)
  from prog_ok_running [OF this] step_timer(4) show ?case
    by (auto simp: service_inv_def idle_serves simp del: entry.simps)
qed (blast intro: hstep_service)

lemma psteps_service:
  assumes "(pstep E)\<^sup>*\<^sup>* s s'" "plugin_pool_inv s" "service_inv s"
  shows "service_inv s'"
  using assms by (induction rule: rtranclp_induct) (blast intro: pstep_service psteps_inv)+

text \<open>At most one of the entry points starts or stops the plugin, and none starts it if it is started already.\<close>

definition serialised :: "plugin_op list \<Rightarrow> process \<Rightarrow> bool" where
  "serialised ops w \<longleftrightarrow> length (filter starts_or_stops_plugin ops) \<le> 1 \<and> (service w \<longrightarrow> (\<forall>op \<in> set ops. \<not> initialises op))"

lemma entries_service:
  assumes "registry_inv w" "serialised ops w"
  shows "service_inv (map (entry E) ops, w)"
proof -
  have f: "unsettledIn (entry E op) = 0" "\<forall>t \<in> set (thread_of (entry E op)). \<not> relies t" for op
    using fresh_serves [OF prog_ok_entry [of E op]] by simp_all
  have s: "serves (service w) (entry E op)" if "op \<in> set ops" for op
    using that assms(2) f(2) [of op] no_start_entry [of op E] by (auto simp: serves_def serialised_def simp del: entry.simps)
  have "running_ok (entry E op) False" if "\<not> starts_or_stops_plugin op" for op
    using prog_ok_running [OF prog_ok_entry [of E op]] that by (simp del: entry.simps)
  then have "length (filter (\<lambda>op. \<not> running_ok (entry E op) False) ops) \<le> length (filter starts_or_stops_plugin ops)"
    by (induction ops) (auto simp del: entry.simps)
  then have "length (filter (\<lambda>p. \<not> running_ok p False) (map (entry E) ops)) \<le> 1"
    using assms(2) by (simp add: filter_map o_def serialised_def del: entry.simps)
  with s f(1) assms(1) show ?thesis
    by (auto simp: service_inv_def registry_inv_def o_def simp del: entry.simps)
qed

text \<open>The threads in the pool between a call of \<open>AddRef\<close> or \<open>Release\<close> and the assignment that goes with it.\<close>

lemma unsettled_threads: "sum_list (map unsettledIn ps) = int (length (filter unsettled (threads ps)))"
  by (induction ps) (auto simp: unsettledIn_def threads_def)

subsection \<open>Every entry point returns\<close>

text \<open>A section leads to a part of the program, or shortens what is left of an operation.\<close>

inductive_set shorter :: "(('s, 'a) prog \<times> ('s, 'a) prog) set" where
  "(snd (f w), Act f) \<in> shorter"
| "length (todo t') < length (todo t) \<Longrightarrow> (Reg t' k, Reg t k) \<in> shorter"
| "(k r, Reg t k) \<in> shorter"

inductive_cases shorterE: "(p', p) \<in> shorter"

lemma wf_shorter: "wf (shorter :: (('s, 'a) prog \<times> ('s, 'a) prog) set)"
proof (rule acc_wfI, rule allI)
  fix p :: "('s, 'a) prog"
  show "p \<in> Wellfounded.acc shorter"
  proof (induction p)
    case (Reg t k)
    show ?case
    proof (induction "length (todo t)" arbitrary: t rule: less_induct)
      case less
      show ?case by (rule accI) (auto elim!: shorterE intro: less Reg)
    qed
  next
    case (Act f)
    show ?case by (rule accI) (auto elim!: shorterE intro: Act)
  next
    case (Ret x)
    show ?case by (rule accI) (erule shorterE; simp)
  next
    case Crash
    show ?case by (rule accI) (erule shorterE; simp)
  qed
qed

lemma hstep_shorter: "hstep E s s' \<Longrightarrow> (mset (fst s'), mset (fst s)) \<in> mult shorter"
proof (induction rule: hstep.induct)
  case (step_act i ps f w w' p)
  then have "(p, ps ! i) \<in> shorter" using shorter.intros(1) [of f w] by simp
  then show ?case using step_act(1) one_step_implies_mult [of "{#ps ! i#}" "{#p#}" shorter "mset ps - {#ps ! i#}"]
    by (simp add: mset_update)
next
  case (step_section i ps t k sec secs w t' w')
  then have "(Reg t' k, ps ! i) \<in> shorter" using section_lock [of E sec "t\<lparr>todo := secs\<rparr>" w t' w'] by (auto intro: shorter.intros)
  then show ?case using step_section(1) one_step_implies_mult [of "{#ps ! i#}" "{#Reg t' k#}" shorter "mset ps - {#ps ! i#}"]
    by (simp add: mset_update)
next
  case (step_return i ps t k w)
  then have "(k (t_result t), ps ! i) \<in> shorter" by (auto intro: shorter.intros)
  then show ?case using step_return(1) one_step_implies_mult [of "{#ps ! i#}" "{#k (t_result t)#}" shorter "mset ps - {#ps ! i#}"]
    by (simp add: mset_update)
qed

lemma wf_hstep: "wf {(s', s). hstep E s s'}"
  by (rule wf_subset [OF wf_inv_image [OF wf_mult [OF wf_shorter], of "\<lambda>s. mset (fst s)"]])
    (auto simp: inv_image_def dest: hstep_shorter)

text \<open>Whoever holds \<open>_migrationLock\<close> can go on, and without a holder everybody can.\<close>

lemma thread_ofD: "t \<in> set (thread_of p) \<Longrightarrow> \<exists>k. p = Reg t k"
  by (cases p) simp_all

lemma can_go_on:
  assumes "i < length ps" "alive ps" "bounded_retries E B" "\<not> returned (ps ! i)"
    and "\<And>t k. ps ! i = Reg t k \<Longrightarrow> \<not> finished t \<Longrightarrow> may_run (hd (todo t)) (threads ps)"
  shows "\<exists>s. hstep E (ps, w) s"
proof (cases "ps ! i")
  case (Ret x)
  with assms(4) show ?thesis by (simp add: returned_def)
next
  case (Act f)
  obtain w' p where "f w = (w', p)" by fastforce
  with assms(1,2) Act show ?thesis by (blast intro: step_act)
next
  case (Reg t k)
  show ?thesis
  proof (cases "finished t")
    case True
    with assms(1,2) Reg show ?thesis by (blast intro: step_return)
  next
    case False
    then obtain sec secs where t: "\<not> t_done t" "todo t = sec # secs" by (cases "todo t") (auto simp: finished_def)
    obtain t' w' where "section_step E sec (t\<lparr>todo := secs\<rparr>, w) = Some (t', w')"
      using section_total [OF assms(3), of sec "(t\<lparr>todo := secs\<rparr>, w)"] by auto
    with assms(1,2,5) Reg False t show ?thesis by (force intro: step_section)
  qed
next
  case Crash
  with assms(1,2) nth_mem [OF assms(1)] show ?thesis by (auto simp: alive_def)
qed

lemma stuck_plugin_pool:
  assumes inv: "plugin_pool_inv (ps, w)" and al: "alive ps" and b: "bounded_retries E B" and st: "\<nexists>s. hstep E (ps, w) s"
  shows "\<forall>p \<in> set ps. returned p"
proof -
  have nl: "\<not> t_lock t" if t: "t \<in> set (threads ps)" for t
  proof
    assume l: "t_lock t"
    from t obtain k where "Reg t k \<in> set ps" by (auto simp: threads_def dest!: thread_ofD)
    then obtain i where i: "i < length ps" "ps ! i = Reg t k" by (metis in_set_conv_nth)
    then have ok: "lock_ok t" "\<not> t_crashed t" using pool_member [OF inv i(1)] alive_thread [OF al i] by simp_all
    with l have "\<not> t_done t" "EnterMigration \<notin> set (todo t)" "todo t \<noteq> []"
      by (auto simp: lock_ok_def ends_returning_def)
    then have "hd (todo t) \<noteq> EnterMigration" by (metis hd_in_set)
    then have "may_run (hd (todo t)) (threads ps)" using al by (simp add: may_run_def alive_def)
    with can_go_on [OF i(1) al b, of w] i(2) st show False by (auto simp: returned_def)
  qed
  show ?thesis
  proof (rule ccontr)
    assume "\<not> ?thesis"
    then obtain i where i: "i < length ps" "\<not> returned (ps ! i)" by (metis in_set_conv_nth)
    have "may_run sec (threads ps)" for sec using nl al by (auto simp: may_run_def alive_def)
    with can_go_on [OF i(1) al b i(2), of w] st show False by blast
  qed
qed

text \<open>So whatever has happened, all that is under way can be run to its end.\<close>

lemma run_to_end:
  assumes "plugin_pool_inv (ps, w)" "bounded_retries E B"
  shows "\<exists>ps' w'. (hstep E)\<^sup>*\<^sup>* (ps, w) (ps', w') \<and> (alive ps' \<longrightarrow> (\<forall>p \<in> set ps'. returned p))"
proof -
  have "plugin_pool_inv s \<Longrightarrow> \<exists>ps' w'. (hstep E)\<^sup>*\<^sup>* s (ps', w') \<and> (alive ps' \<longrightarrow> (\<forall>p \<in> set ps'. returned p))" for s
  proof (induction s rule: wf_induct_rule [OF wf_hstep [of E]])
    case (1 s)
    obtain qs v where s: "s = (qs, v)" by (cases s)
    show ?case
    proof (cases "\<exists>s'. hstep E s s'")
      case True
      then obtain s' where s': "hstep E s s'" ..
      from hstep_inv [OF s' 1(2)] 1(1) [of s'] s' obtain ps' w' where
        "(hstep E)\<^sup>*\<^sup>* s' (ps', w')" "alive ps' \<longrightarrow> (\<forall>p \<in> set ps'. returned p)" by auto
      with s' show ?thesis by (meson converse_rtranclp_into_rtranclp)
    next
      case False
      with stuck_plugin_pool [of qs v, OF _ _ assms(2)] 1(2) s show ?thesis by blast
    qed
  qed
  with assms(1) show ?thesis by blast
qed

subsection \<open>Nothing crashes while nobody starts or stops the plugin\<close>

lemma section_more:
  assumes "section_step E sec (t, w) = Some (t', w')"
  shows "dmgr.more w' = dmgr.more w"
proof (cases sec)
  case WriteFile
  with assms show ?thesis
    by (auto simp: writeFile_def split: if_splits elim!: bind_SomeE dest: io_fields(4) [OF Write_io])
next
  case ReadFile
  with assms show ?thesis
    by (auto simp: readFile_def finish_def Let_def split: prod.splits if_splits dest!: io_fields(4) [OF ReadRaw_quiet])
qed (use assms in \<open>auto simp: section_defs btCall_def storeAcquire_def storeSetValue_def storeDeleteKey_def storeGetValue_def
  storeRelease_def releaseService_def cachePut_def Let_def split: if_splits sum.splits prod.splits\<close>)

lemma section_instance:
  assumes "section_step E sec (t, w) = Some (t', w' :: process)"
  shows "instanceSet w' = instanceSet w"
  using plugin_fields_more(4) [OF section_more [OF assms]] .

text \<open>
  Programs that do not crash while the instance pointer and the service stay as they are, and
  that leave them so.
\<close>

primrec safe :: "bool \<Rightarrow> bool \<Rightarrow> (process, 'a) prog \<Rightarrow> bool" where
  "safe c up (Ret x) \<longleftrightarrow> True"
| "safe c up (Act f) \<longleftrightarrow> (\<forall>w. instanceSet w = c \<and> service w = up \<longrightarrow>
     instanceSet (fst (f w)) = c \<and> service (fst (f w)) = up \<and> snd ((map_prod id (safe c up) \<circ> f) w))"
| "safe c up (Reg t k) \<longleftrightarrow> calm up t \<and> (\<forall>r. (safe c up \<circ> k) r)"
| "safe c up Crash \<longleftrightarrow> False"

definition keeps_life :: "process \<Rightarrow> process \<Rightarrow> bool" where
  "keeps_life w w' \<longleftrightarrow> instanceSet w' = instanceSet w \<and> service w' = service w"

lemma safe_Act: "(\<And>w. instanceSet w = c \<Longrightarrow> service w = up \<Longrightarrow> keeps_life w (fst (f w)) \<and> safe c up (snd (f w))) \<Longrightarrow>
    safe c up (Act f)"
  by (simp add: keeps_life_def)

lemma safe_andThen: "safe c up p \<Longrightarrow> (\<And>x. safe c up (g x)) \<Longrightarrow> safe c up (andThen p g)"
  by (induction p) auto

lemma safe_act: "(\<And>w. keeps_life w (snd (f w))) \<Longrightarrow> safe c up (act f)"
  by (auto simp: act_def keeps_life_def case_prod_beta)

lemma safe_basic [simp]:
  "safe c up (reads r)" "safe c up (bt E bc)" "(\<And>w. keeps_life w (f w)) \<Longrightarrow> safe c up (does f)"
  "\<not> starts_or_stops op \<Longrightarrow> safe c up (call E op)"
  by (auto simp: reads_def bt_def does_def call_def keeps_life_def btCall_def Let_def calm_spawn emit_def intro!: safe_act)

lemma safe_each: "(\<And>x. safe c up (f x)) \<Longrightarrow> safe c up (each f xs)"
  by (induction xs) (auto intro!: safe_andThen)

lemma keeps_life_simps [simp]:
  "keeps_life w w" "keeps_life w (discoveryRunning_update g w)" "keeps_life w (setTimers ms w)"
  "keeps_life w (revokeTimer w)" "keeps_life w (scheduleTimer msec w)" "keeps_life w (emit ev w)"
  "keeps_life w (sendNotify n ps w)" "keeps_life w (snd (btCall E bc w))"
  by (simp_all add: keeps_life_def revokeTimer_def scheduleTimer_def sendNotify_def btCall_def Let_def emit_def)

lemma bt_functions_life [simp]:
  "keeps_life w (snd (getDiscoveredDevices E w))" "keeps_life w (snd (setBluetoothDiscoverable E b timeout w))"
  "keeps_life w (snd (snd (getBluetoothProperties E w)))" "keeps_life w (snd (setBluetoothProperties E ob w))"
  "keeps_life w (snd (setAudioStream E i n w))" "keeps_life w (snd (setAudioControlCommand E i cmd w))"
  "keeps_life w (snd (getDeviceInfo E i w))" "keeps_life w (snd (getMediaTrackInfo E i w))"
  "keeps_life w (snd (getDeviceVolumeMuteProperties E i t w))" "keeps_life w (snd (setBluetoothEnabled E s w))"
  "keeps_life w (snd (setDeviceVolumeMuteProperties E i t v m w))" "keeps_life w (snd (setEventResponse E i s s' w))"
  by (auto simp: getDiscoveredDevices_def setBluetoothDiscoverable_def getBluetoothProperties_def setBluetoothProperties_def
      setAudioStream_def setAudioControlCommand_def getDeviceInfo_def getMediaTrackInfo_def getDeviceVolumeMuteProperties_def
      setDeviceVolumeMuteProperties_def setBluetoothEnabled_def setEventResponse_def case_prod_beta Let_def split: option.split)

lemma safe_scan [simp]: "safe c up (stop_sections E)" "safe c up (start_sections E timeout profile)"
    "safe c up (discoverable_sections E)"
  by (auto simp: stop_sections_def start_sections_def discoverable_sections_def Let_def case_prod_beta
      simp del: andThen_act andThen_reads intro!: safe_andThen safe_act)

lemma safe_lookup [simp]: "safe c up (autoConnect_sections E k status)" "safe c up (details_sections E k)"
  by (auto simp: autoConnect_sections_def lookup_sections_def details_sections_def
      simp del: andThen_act andThen_reads intro!: safe_andThen split: prod.split)

lemma safe_lists [simp]: "safe c up (paired_sections E)" "safe c up (connected_sections E)"
  by (auto simp: paired_sections_def connected_sections_def Let_def case_prod_beta
      simp del: andThen_act andThen_reads intro!: safe_andThen safe_each safe_act)

lemma safe_connection [simp]: "safe c up (connection_sections E i b t)" "safe c up (pairing_sections E i b)"
  by (auto simp: connection_sections_def pairing_sections_def starts_or_stops_def intro!: safe_andThen)

lemma safe_power [simp]: "safe c up (power_sections E cur new)"
  by (auto simp: power_sections_def powerOff_sections_def deepSleep_sections_def case_prod_beta
      simp del: andThen_act andThen_reads intro!: safe_andThen safe_each safe_act split: sum.split)

lemma safe_event [simp]: "safe c up (event_sections E msg)"
  by (auto simp: event_sections_def request_sections_def answer_sections_def change_sections_def notify_sections_def
      plain_sections_def Let_def case_prod_beta simp del: andThen_act andThen_reads
      intro!: safe_andThen safe_act split: BTRMGR_Events.split option.split prod.split)

lemma safe_callback [simp]: "safe c up (callback_sections E msg)"
  by (cases c) (auto simp: callback_sections_def intro!: safe_andThen)

definition calm_method :: "process rpc \<Rightarrow> bool" where
  "calm_method m \<longleftrightarrow> (\<forall>ps w. case m ps w of None \<Rightarrow> False | Some (r, w') \<Rightarrow> keeps_life w w')"

lemma safe_single: "calm_method m \<Longrightarrow> safe c up (single m ps)"
proof -
  assume m: "calm_method m"
  show ?thesis
    unfolding single_def
  proof (rule safe_Act)
    fix w
    from m obtain r w' where "m ps w = Some (r, w')" "keeps_life w w'"
      unfolding calm_method_def by (metis (no_types, lifting) case_prodE option.case_eq_if option.collapse)
    then show "keeps_life w (fst (case m ps w of None \<Rightarrow> (w, Crash) | Some (r, w') \<Rightarrow> (w', Ret r))) \<and>
        safe c up (snd (case m ps w of None \<Rightarrow> (w, Crash) | Some (r, w') \<Rightarrow> (w', Ret r)))" by simp
  qed
qed

lemma calm_methods [simp]:
  "calm_method (getApiVersionNumber E)" "calm_method (getDiscoveredDevicesWrapper E)" "calm_method (enableWrapper E)"
  "calm_method (disableWrapper E)" "calm_method (setDiscoverableWrapper E)" "calm_method (getNameWrapper E)"
  "calm_method (setNameWrapper E)" "calm_method (setAudioStreamWrapper E)" "calm_method (sendAudioPlaybackCommandWrapper E)"
  "calm_method (setEventResponseWrapper E)" "calm_method (getDeviceInfoWrapper E)"
  "calm_method (getMediaTrackInfoWrapper E)" "calm_method (getDeviceVolumeMuteInfoWrapper E)"
  by (simp_all add: calm_method_def adapter_wrappers device_wrappers returns_eq case_prod_beta Let_def
      split: id_param.split option.split)

lemma safe_withDevice: "(\<And>s i. safe c up (body s i)) \<Longrightarrow> safe c up (withDevice E ps body)"
  by (simp add: withDevice_def split: id_param.split)

lemma safe_requests [simp]:
  "safe c up (startScan_sections E ps)" "safe c up (connect_sections E b ps)" "safe c up (pair_sections E b ps)"
  "safe c up (setVolume_sections E ps)" "safe c up (setAutoConnect_sections E ps)"
  "safe c up (getAutoConnect_sections E ps)" "\<not> starts_or_stops op \<Longrightarrow> safe c up (migrate_sections E op ps)"
  by (auto simp: startScan_sections_def connect_sections_def pair_sections_def setVolume_sections_def setAutoConnect_sections_def
      getAutoConnect_sections_def migrate_sections_def notifyAutoConnectStatusChanged_def starts_or_stops_def Let_def case_prod_beta
      simp del: andThen_act andThen_reads intro!: safe_withDevice safe_andThen safe_act split: option.split prod.split)

lemma safe_method: "map_of (methodSections E) name = Some m \<Longrightarrow> safe c up (m ps)"
proof -
  assume "map_of (methodSections E) name = Some m"
  then have "(name, m) \<in> set (methodSections E)" by (rule map_of_SomeD)
  moreover have "\<forall>x \<in> set (methodSections E). \<forall>ps. safe c up (snd x ps)"
    by (auto simp: methodSections_def safe_single starts_or_stops_def intro!: safe_andThen)
  ultimately show ?thesis by fastforce
qed

lemma safe_entry: "\<not> starts_or_stops_plugin op \<Longrightarrow> safe c up (entry E op)"
  by (cases op) (auto simp: starts_or_stops_plugin_def safe_method intro!: safe_andThen split: option.split)

text \<open>\<open>c\<close>: the instance pointer is set; \<open>up\<close>: the service is.\<close>

definition calm_pool :: "bool \<Rightarrow> bool \<Rightarrow> (process, outcome) prog list \<times> process \<Rightarrow> bool" where
  "calm_pool c up s \<longleftrightarrow> (\<forall>p \<in> set (fst s). safe c up p) \<and> instanceSet (snd s) = c \<and> service (snd s) = up"

lemma hstep_calm: "hstep E s s' \<Longrightarrow> calm_pool c up s \<Longrightarrow> calm_pool c up s'"
proof (induction rule: hstep.induct)
  case (step_act i ps f w w' p)
  have s: "safe c up (ps ! i)" using step_act(1,5) by (simp add: calm_pool_def)
  then have "safe c up p \<and> instanceSet w' = c \<and> service w' = up"
    using step_act(3-5) by (auto simp: calm_pool_def dest: spec [of _ w])
  then show ?case using step_act(5) set_update_subset_insert [of ps i p] by (auto simp: calm_pool_def)
next
  case (step_section i ps t k sec secs w t' w')
  have "safe c up (ps ! i)" using step_section(1,8) by (simp add: calm_pool_def)
  then have s: "calm up t" "\<forall>r. safe c up (k r)" using step_section(3) by simp_all
  have up: "service w = up" "instanceSet w = c" using step_section(8) by (simp_all add: calm_pool_def)
  have ls: "\<not> life_section sec" "\<forall>x \<in> set secs. \<not> life_section x" using s(1) step_section(5) by (simp_all add: calm_def)
  note sc = section_calm [OF step_section(7) ls(1)] section_instance [OF step_section(7)]
  have "todo t' = secs" "\<not> t_crashed t'"
    using section_lock [OF step_section(7)] s(1) ls(1) up by (auto simp: calm_def)
  then have "calm up t'" using sc s(1) ls(2) up by (auto simp: calm_def)
  then show ?case
    using s(2) sc up step_section(8) set_update_subset_insert [of ps i "Reg t' k"] by (auto simp: calm_pool_def)
next
  case (step_return i ps t k w)
  have "safe c up (ps ! i)" using step_return(1,5) by (simp add: calm_pool_def)
  then have "safe c up (k (t_result t))" using step_return(3) by simp
  then show ?case using step_return(5) set_update_subset_insert [of ps i "k (t_result t)"] by (auto simp: calm_pool_def)
qed

lemma pstep_calm: "pstep E s s' \<Longrightarrow> calm_pool c up s \<Longrightarrow> calm_pool c up s'"
proof (induction rule: pstep.induct)
  case (step_timer ps w xs msec ys)
  have "safe c up (entry E TimerFires)" by (rule safe_entry) (simp add: starts_or_stops_plugin_def)
  with step_timer(3) show ?case by (auto simp: calm_pool_def simp del: entry.simps)
qed (blast intro: hstep_calm)

lemma psteps_calm: "(pstep E)\<^sup>*\<^sup>* s s' \<Longrightarrow> calm_pool c up s \<Longrightarrow> calm_pool c up s'"
  by (induction rule: rtranclp_induct) (auto intro: pstep_calm)

lemma calm_alive: "calm_pool c up (ps, w) \<Longrightarrow> alive ps"
  by (auto simp: calm_pool_def alive_def threads_def calm_def dest!: thread_ofD)

lemma entries_calm:
  "\<forall>op \<in> set ops. \<not> starts_or_stops_plugin op \<Longrightarrow> calm_pool (instanceSet w) (service w) (map (entry E) ops, w)"
  by (auto simp: calm_pool_def safe_entry simp del: entry.simps)

lemma hsteps_psteps: "(hstep E)\<^sup>*\<^sup>* s s' \<Longrightarrow> (pstep E)\<^sup>*\<^sup>* s s'"
  by (induction rule: rtranclp_induct) (auto intro: step_handler rtranclp.rtrancl_into_rtrancl)

end
