(* ===== verification/PluginRaces.thy ===== *)
theory PluginRaces
  imports HandlersCorrect RequestFacts
begin

section \<open>Schedules of entry points that go wrong\<close>

text \<open>
  Interleavings of the plugin's entry points that nothing prevents: a device that is unpaired
  and registered, an event that calls through the instance pointer \<open>Deinitialize\<close> has reset, a
  scan that nobody will stop. Each is given by a schedule, built from programs that nobody
  interrupts.
\<close>

subsection \<open>Uninterrupted runs\<close>

lemma andThen_assoc: "andThen (andThen p f) g = andThen p (\<lambda>x. andThen (f x) g)"
  by (induction p) (auto simp: fun_eq_iff map_prod_def case_prod_beta)

lemma threads_update: "set (threads (ps[i := p])) \<subseteq> set (threads ps) \<union> set (thread_of p)"
  using set_update_subset_insert [of ps i p] by (auto simp: threads_def)

lemma alive_update: "alive ps \<Longrightarrow> p \<noteq> Crash \<Longrightarrow> \<forall>t \<in> set (thread_of p). \<not> t_crashed t \<Longrightarrow> alive (ps[i := p])"
  using threads_update [of ps i p] set_update_subset_insert [of ps i p] by (auto simp: alive_def)

definition unlocked :: "('s, 'a) prog list \<Rightarrow> bool" where
  "unlocked ps \<longleftrightarrow> (\<forall>t \<in> set (threads ps). \<not> t_lock t)"

lemma unlocked_update: "unlocked ps \<Longrightarrow> \<forall>t \<in> set (thread_of p). \<not> t_lock t \<Longrightarrow> unlocked (ps[i := p])"
  using threads_update [of ps i p] by (auto simp: unlocked_def)

text \<open>An operation of the registry runs to its end.\<close>

lemma reg_runs:
  assumes "i < length ps" "ps ! i = Reg t k" "\<not> t_done t" "alive ps" "EnterMigration \<notin> set (tl (todo t))"
    and "EnterMigration \<in> set (todo t) \<Longrightarrow> unlocked ps" "alone E (todo t) (t, w) = Some (t', w')" "\<not> t_crashed t'"
  shows "(hstep E)\<^sup>*\<^sup>* (ps, w) (ps[i := k (t_result t')], w')"
  using assms
proof (induction "todo t" arbitrary: t ps w t')
  case Nil
  then have "t' = t" "w' = w" "finished t" by (simp_all add: finished_def)
  with Nil.prems(1,2,4) show ?case by (auto intro: step_return)
next
  case (Cons sec secs)
  have td: "todo t = sec # secs" using Cons.hyps(2) by simp
  note em = Cons.prems(5,6) [unfolded td] and run = Cons.prems(7) [unfolded td]
  from run obtain t1 w1 where st: "section_step E sec (t, w) = Some (t1, w1)"
    and rest: "if t_done t1 then (t1, w1) = (t', w') else alone E secs (t1, w1) = Some (t', w')"
    by (auto elim!: bind_SomeE split: if_splits)
  let ?t1 = "t1\<lparr>todo := secs\<rparr>"
  have "may_run sec (threads ps)"
    using Cons.prems(4) em(2) by (auto simp: may_run_def alive_def unlocked_def)
  then have s1: "hstep E (ps, w) (ps[i := Reg ?t1 k], w1)"
  proof -
    have "section_step E sec (t\<lparr>todo := secs\<rparr>, w) = Some (?t1, w1)" using st by (simp add: section_ignores_todo)
    from step_section [OF Cons.prems(1,4,2,3) td \<open>may_run sec (threads ps)\<close> this] show ?thesis .
  qed
  have nc: "\<not> t_crashed t1"
    using section_lock [OF st] rest Cons.prems(8) Cons.prems(3) alive_thread [OF Cons.prems(4,1,2)] by (auto split: if_splits)
  then have al: "alive (ps[i := Reg ?t1 k])" using Cons.prems(4) by (simp add: alive_update)
  show ?case
  proof (cases "t_done t1")
    case True
    then have "hstep E (ps[i := Reg ?t1 k], w1) (ps[i := k (t_result t1)], w1)"
      using step_return [of i "ps[i := Reg ?t1 k]" ?t1 k E w1] Cons.prems(1) al by (simp add: finished_def)
    with s1 True rest show ?thesis by (auto intro: converse_rtranclp_into_rtranclp)
  next
    case False
    have e: "EnterMigration \<notin> set secs" "EnterMigration \<notin> set (tl secs)" using em(1) by (cases secs; simp)+
    have al1: "alone E secs (?t1, w1) = Some (t'\<lparr>todo := secs\<rparr>, w')"
      using rest False by (simp add: alone_ignores_todo)
    have "(hstep E)\<^sup>*\<^sup>* (ps[i := Reg ?t1 k], w1) ((ps[i := Reg ?t1 k])[i := k (t_result (t'\<lparr>todo := secs\<rparr>))], w')"
      by (rule Cons.hyps(1) [of ?t1]) (use Cons.prems(1,8) False al e al1 in simp_all)
    then have "(hstep E)\<^sup>*\<^sup>* (ps[i := Reg ?t1 k], w1) (ps[i := k (t_result t')], w')" by simp
    with s1 show ?thesis by (rule converse_rtranclp_into_rtranclp)
  qed
qed

text \<open>A program that nobody interrupts runs to its end while nobody holds \<open>_migrationLock\<close>.\<close>

lemma solo_runs:
  assumes "i < length ps" "prog_ok (ps ! i) True" "alive ps" "unlocked ps" "solo E (ps ! i) w = Some (x, w')"
  shows "(hstep E)\<^sup>*\<^sup>* (ps, w) (ps[i := Ret x], w')"
proof -
  have "(hstep E)\<^sup>*\<^sup>* (ps, w) (ps[i := Ret x], w')"
    if "ps ! i = p" "i < length ps" "prog_ok p b" "alive ps" "unlocked ps" "solo E p w = Some (x, w')" for p b ps w
    using that
  proof (induction p arbitrary: ps w b)
    case (Ret y)
    then show ?case by auto (metis list_update_id rtranclp.rtrancl_refl)
  next
    case (Act f)
    obtain w1 p where f: "f w = (w1, p)" by fastforce
    have ok: "prog_ok p b" "solo E p w1 = Some (x, w')" using Act.prems(3,6) f by (auto dest: spec [of _ w])
    then have pt: "p \<noteq> Crash" "\<forall>t \<in> set (thread_of p). \<not> t_crashed t" "\<forall>t \<in> set (thread_of p). \<not> t_lock t"
      by (cases p; simp add: unstarted_def)+
    have "hstep E (ps, w) (ps[i := p], w1)" using Act.prems(1,2,4) f by (intro step_act)
    moreover have "(hstep E)\<^sup>*\<^sup>* (ps[i := p], w1) ((ps[i := p])[i := Ret x], w')"
      using Act.IH [of "ps[i := p]" w b w1] Act.prems(2,4,5) ok pt f by (simp add: alive_update unlocked_update)
    ultimately show ?case by (simp add: converse_rtranclp_into_rtranclp)
  next
    case (Reg t k)
    obtain t' w1 where al: "alone E (todo t) (t, w) = Some (t', w1)" "\<not> t_crashed t'" "solo E (k (t_result t')) w1 = Some (x, w')"
      using Reg.prems(6) by (auto split: option.splits if_splits)
    have fr: "unstarted t" "prog_ok (k (t_result t')) (b \<and> \<not> lives t)" using Reg.prems(3) by simp_all
    then have pt: "k (t_result t') \<noteq> Crash" "\<forall>t \<in> set (thread_of (k (t_result t'))). \<not> t_crashed t"
        "\<forall>t \<in> set (thread_of (k (t_result t'))). \<not> t_lock t"
      using al(3) by (cases "k (t_result t')"; simp add: unstarted_def)+
    have "(hstep E)\<^sup>*\<^sup>* (ps, w) (ps[i := k (t_result t')], w1)"
      using fr(1) Reg.prems(1,2,4,5) al by (intro reg_runs [of i ps t k E w t' w1]) (auto simp: unstarted_def lock_ok_def)
    also have "(hstep E)\<^sup>*\<^sup>* (ps[i := k (t_result t')], w1) ((ps[i := k (t_result t')])[i := Ret x], w')"
      using Reg.IH [of "ps[i := k (t_result t')]" "t_result t'" "b \<and> \<not> lives t" w1] Reg.prems(2,4,5) al(3) fr(2) pt
      by (simp add: alive_update unlocked_update)
    finally show ?case by simp
  next
    case Crash
    then show ?case by simp
  qed
  with assms show ?thesis by blast
qed

text \<open>An entry point that nobody interrupts.\<close>

lemma entry_runs:
  assumes "i < length ps" "ps ! i = entry E op" "alive ps" "unlocked ps" "moreTimers w = []"
    and "handle E op w = Some (x, w')" "op \<noteq> TimerFires"
  shows "(hstep E)\<^sup>*\<^sup>* (ps, w) (ps[i := Ret x], w')"
proof -
  have "delivered op w = w" using assms(7) by (cases op) simp_all
  then have "solo E (ps ! i) w = Some (x, w')" using entry_alone [OF assms(5), of E op] assms(2,6) by simp
  moreover have "prog_ok (ps ! i) True" using prog_ok_mono [OF prog_ok_entry [of E op]] assms(2) by simp
  ultimately show ?thesis by (intro solo_runs assms)
qed

subsection \<open>An event under \<open>Deinitialize\<close>\<close>

text \<open>
  \<open>bluetoothSrv_EventCallback\<close> tests \<open>_instance\<close>, \<open>Deinitialize\<close> resets it (before it
  unregisters from BTRMGR), and the callback calls through it.
\<close>

lemma callback_crash:
  assumes "instanceSet w" "moreTimers w = []"
  shows "(hstep E)\<^sup>*\<^sup>* (map (entry E) [BtEvent msg, Stop], w) ([Crash, Ret Finished], Deinitialize E w)"
proof -
  let ?ps = "map (entry E) [BtEvent msg, Stop]" and ?d = "Deinitialize E w"
  obtain f g where f: "entry E (BtEvent msg) = Act f" "f w = (w, Act g)"
    and g: "\<And>v. \<not> instanceSet v \<Longrightarrow> g v = (v, Crash)"
    using assms(1) by (simp add: callback_sections_def)
  have al: "alive ?ps" "alive [Act g, entry E Stop]" "unlocked [Act g, entry E Stop]"
    by (simp_all add: alive_def unlocked_def threads_def callback_sections_def deinitialize_sections_def call_def)
  have "hstep E (?ps, w) ([Act g, entry E Stop], w)"
    using step_act [of 0 ?ps f w w "Act g" E] al(1) f by simp
  also have "(hstep E)\<^sup>*\<^sup>* ([Act g, entry E Stop], w) ([Act g, Ret Finished], ?d)"
    using entry_runs [of 1 "[Act g, entry E Stop]" E Stop w Finished ?d] al(2,3) assms(2) by simp
  also have "hstep E ([Act g, Ret Finished], ?d) ([Crash, Ret Finished], ?d)"
  proof -
    have "\<not> instanceSet ?d" by (simp add: Deinitialize_def Let_def btCall_def)
    then show ?thesis using step_act [of 0 "[Act g, Ret Finished]" g ?d ?d Crash E] g [of ?d]
      by (simp add: alive_def threads_def)
  qed
  finally show ?thesis .
qed

subsection \<open>Pairing and unpairing at once\<close>

text \<open>Whether BTRMGR has a device paired, by the calls it has answered with success.\<close>

definition bond_event :: "handle \<Rightarrow> ext_event \<Rightarrow> bool \<Rightarrow> bool" where
  "bond_event h ev on = (case ev of
     EvBT (PairDevice h') rc \<Rightarrow> on \<or> h' = h \<and> rc = BTRMGR_RESULT_SUCCESS
   | EvBT (UnpairDevice h') rc \<Rightarrow> on \<and> \<not> (h' = h \<and> rc = BTRMGR_RESULT_SUCCESS)
   | _ \<Rightarrow> on)"

definition bonded :: "handle \<Rightarrow> trace \<Rightarrow> bool" where
  "bonded h tr = fold (bond_event h) tr False"

lemma bonded_snoc [simp]: "bonded h (tr @ [ev]) = bond_event h ev (bonded h tr)"
  by (simp add: bonded_def)

lemma bonded_store: "\<forall>ev \<in> set es. store_io key ev \<Longrightarrow> bonded h (tr @ es) = bonded h tr"
proof (induction es rule: rev_induct)
  case (snoc ev es)
  moreover have "bond_event h ev on = on" if "store_io key ev" for on
    using that by (cases ev) (simp_all add: bond_event_def)
  ultimately show ?case using bonded_snoc [of h "tr @ es" ev] by simp
qed simp

lemma pair_entry:
  assumes "deviceIDParam E ps = Id s i"
  shows "entry E (Request ''pair'' ps) = andThen (pairing_sections E i True) (\<lambda>ok. Ret (Rpc (Returns [] ok)))"
    and "entry E (Request ''unpair'' ps) = andThen (pairing_sections E i False) (\<lambda>ok. Ret (Rpc (Returns [] ok)))"
  using assms by (simp_all add: methodSections_def pair_sections_def withDevice_def andThen_assoc)

text \<open>The pairing has described the device and is about to register it.\<close>

definition described :: "env \<Rightarrow> int \<Rightarrow> process \<Rightarrow> process" where
  "described E i w = emit (EvBT (GetDeviceProperties (handle_of i)) BTRMGR_RESULT_SUCCESS)
     (emit (EvBT (PairDevice (handle_of i)) BTRMGR_RESULT_SUCCESS) w)"

definition about_to_add :: "env \<Rightarrow> string \<Rightarrow> BluetoothDeviceInfo \<Rightarrow> thread" where
  "about_to_add E k info = (spawn E (AddDevice k))\<lparr>t_info := info, todo := AddRecord k # StopUnlessMigrated ERROR_NONE # storage_program\<rparr>"

lemma described_fields [simp]:
  "pairedDeviceCache (described E i w) = pairedDeviceCache w" "isMigrated (described E i w) = isMigrated w"
  "service (described E i w) = service w" "moreTimers (described E i w) = moreTimers w"
  "trace (described E i w) = trace w @ [EvBT (PairDevice (handle_of i)) BTRMGR_RESULT_SUCCESS,
     EvBT (GetDeviceProperties (handle_of i)) BTRMGR_RESULT_SUCCESS]"
  by (simp_all add: described_def emit_def)

abbreviation accepted :: "(process, outcome) prog" where
  "accepted \<equiv> Ret (Rpc (Returns [] True))"

lemma pairing_describes:
  assumes ids: "deviceIDParam E ps = Id s i" "is_ll i" "0 \<le> i" and q: "alive [q]"
    and bt: "\<And>tr. e_bt E tr (PairDevice (handle_of i)) = BTRMGR_RESULT_SUCCESS"
      "\<And>tr. e_bt E tr (GetDeviceProperties (handle_of i)) = BTRMGR_RESULT_SUCCESS"
  obtains info where "(hstep E)\<^sup>*\<^sup>* ([entry E (Request ''pair'' ps), q], w)
    ([Reg (about_to_add E (to_string_ll i) info) (\<lambda>r. accepted), q], described E i w)"
proof -
  let ?k = "to_string_ll i" and ?p = "entry E (Request ''pair'' ps)"
  let ?w1 = "emit (EvBT (PairDevice (handle_of i)) BTRMGR_RESULT_SUCCESS) w"
  let ?t0 = "spawn E (AddDevice ?k)" and ?info = "addedInfo E ?k (e_devProps E (trace ?w1) (handle_of i))"
  let ?r0 = "Reg ?t0 (\<lambda>r. accepted)" and ?rest = "AddRecord ?k # StopUnlessMigrated ERROR_NONE # storage_program"
  obtain f where f: "?p = Act f" "f w = (?w1, ?r0)"
    using bt(1) handle_of_nonneg [OF ids(2,3)] unfolding pair_entry(1) [OF ids(1)]
    by (simp add: pairing_sections_def bt_def btCall_def call_def)
  have al: "alive [Act f, q]" "alive [?r0, q]" using q by (auto simp: alive_def threads_def)
  have "section_step E (FetchProperties ?k) (?t0\<lparr>todo := ?rest\<rparr>, ?w1) = Some (about_to_add E ?k ?info, described E i w)"
    using bt(2) stoll_to_string_ll [OF ids(2)]
    by (simp add: fetchProperties_def btCall_def Let_def handle_of_def [symmetric] about_to_add_def described_def)
  then have "hstep E ([?r0, q], ?w1) ([Reg (about_to_add E ?k ?info) (\<lambda>r. accepted), q], described E i w)"
    using step_section [of 0 "[?r0, q]" ?t0 "\<lambda>r. accepted" "FetchProperties ?k" ?rest E ?w1] al(2)
    by (simp add: may_run_def alive_def)
  moreover have "hstep E ([?p, q], w) ([?r0, q], ?w1)"
    using step_act [of 0 "[?p, q]" f w ?w1 ?r0 E] al(1) f by (simp del: entry.simps)
  ultimately show thesis by (intro that [of ?info]) (simp del: entry.simps)
qed

lemma unpairing_finds_nothing:
  assumes "deviceIDParam E ps = Id s i" "is_ll i" "0 \<le> i" "um_find (pairedDeviceCache w) (to_string_ll i) = None"
    and "e_bt E (trace w) (UnpairDevice (handle_of i)) = BTRMGR_RESULT_SUCCESS"
  shows "handle E (Request ''unpair'' ps) w =
    Some (Rpc (Returns [] True), emit (EvBT (UnpairDevice (handle_of i)) BTRMGR_RESULT_SUCCESS) w)"
  using assms handle_of_nonneg [OF assms(2,3)]
  by (simp add: invoke_def methodTable_def unpairWrapper_def returnsLater_def setDevicePairing_def btCall_def removeDevice_def Let_def)

lemma adding_runs:
  fixes v :: process
  assumes "\<not> e_migration E \<or> isMigrated v" "service v" "store_works E" "bounded_retries E B" "alive [q]"
  obtains w' where "(hstep E)\<^sup>*\<^sup>* ([Reg (about_to_add E k info) (\<lambda>r. accepted), q], v) ([accepted, q], w')"
    and "writeStorageFromCache E (cachePut k info v) = Some (ERROR_NONE, w')"
proof -
  let ?t = "about_to_add E k info" and ?v = "cachePut k info v"
  let ?ps = "[Reg ?t (\<lambda>r. accepted), q]"
  obtain r w' where wr: "writeStorageFromCache E ?v = Some (r, w')" using writeStorage_total [OF assms(4), of ?v] by blast
  have r: "r = ERROR_NONE" using writeStorage_succeeds [OF wr] assms(2,3) by (simp add: store_works_def)
  obtain t' where t': "alone E (todo ?t) (?t, v) = Some (t', w')"
  proof -
    have "syncStorage E ?v = Some (r, w')" using wr assms(1) by (auto simp: syncStorage_def)
    then have "map_option outcome (alone E (todo ?t) (?t, v)) = Some (r, w')"
      using alone_sync [of ?t E ?v] by (simp add: addRecord_def idle_def about_to_add_def)
    with that show thesis by (auto simp: outcome_def)
  qed
  have "\<not> t_crashed t'" using alone_calm [OF t'] by (simp add: calm_def storage_program_def about_to_add_def)
  then have "(hstep E)\<^sup>*\<^sup>* (?ps, v) (?ps[0 := accepted], w')"
    using t' assms(5) by (intro reg_runs [of 0 ?ps ?t "\<lambda>r. accepted" E v t' w'])
      (auto simp: alive_def threads_def storage_program_def about_to_add_def)
  with wr r that show thesis by simp
qed

text \<open>
  The unpairing runs when the pairing has described the device: it completes, finding nothing
  to remove, and the pairing then registers the device.
\<close>

lemma unpaired_registered:
  fixes w :: process
  assumes ids: "deviceIDParam E ps = Id s i" "deviceIDParam E ps' = Id s' i" "is_ll i" "0 \<le> i"
    and new: "um_find (pairedDeviceCache w) (to_string_ll i) = None" "moreTimers w = []"
    and bt: "\<And>tr. e_bt E tr (PairDevice (handle_of i)) = BTRMGR_RESULT_SUCCESS"
      "\<And>tr. e_bt E tr (UnpairDevice (handle_of i)) = BTRMGR_RESULT_SUCCESS"
      "\<And>tr. e_bt E tr (GetDeviceProperties (handle_of i)) = BTRMGR_RESULT_SUCCESS"
    and ready: "\<not> e_migration E \<or> isMigrated w" "service w" "store_works E" "bounded_retries E B"
  shows "\<exists>w' info. (hstep E)\<^sup>*\<^sup>* (map (entry E) [Request ''pair'' ps, Request ''unpair'' ps'], w) ([accepted, accepted], w') \<and>
    \<not> bonded (handle_of i) (trace w') \<and> um_find (pairedDeviceCache w') (to_string_ll i) = Some info \<and>
    store_contents (trace w') PERSISTENT_STORE_KEY_DEVICE_INFO = Some (storedPayload E (pairedDeviceCache w'))"
proof -
  let ?k = "to_string_ll i" and ?unpair = "Request ''unpair'' ps'" and ?d = "described E i w"
  let ?u = "emit (EvBT (UnpairDevice (handle_of i)) BTRMGR_RESULT_SUCCESS) ?d"
  have q: "alive [entry E ?unpair]" "thread_of (entry E ?unpair) = []"
    unfolding pair_entry(2) [OF ids(2)] by (simp_all add: alive_def threads_def pairing_sections_def bt_def)
  obtain info where s1: "(hstep E)\<^sup>*\<^sup>* ([entry E (Request ''pair'' ps), entry E ?unpair], w)
      ([Reg (about_to_add E ?k info) (\<lambda>r. accepted), entry E ?unpair], ?d)"
    using pairing_describes [OF ids(1,3,4) q(1) bt(1,3)] by blast
  let ?r = "Reg (about_to_add E ?k info) (\<lambda>r. accepted)"
  have al: "alive [?r, entry E ?unpair]" "unlocked [?r, entry E ?unpair]"
    using q by (simp_all add: alive_def unlocked_def threads_def about_to_add_def del: entry.simps)
  have "handle E ?unpair ?d = Some (Rpc (Returns [] True), ?u)"
    using unpairing_finds_nothing [OF ids(2-4), of ?d] new(1) bt(2) by (simp del: handle.simps)
  then have s2: "(hstep E)\<^sup>*\<^sup>* ([?r, entry E ?unpair], ?d) ([?r, accepted], ?u)"
    using entry_runs [of 1 "[?r, entry E ?unpair]" E ?unpair ?d "Rpc (Returns [] True)" ?u] al new(2)
    by (simp del: entry.simps handle.simps)
  obtain w4 where s3: "(hstep E)\<^sup>*\<^sup>* ([?r, accepted], ?u) ([accepted, accepted], w4)"
    and wr: "writeStorageFromCache E (cachePut ?k info ?u) = Some (ERROR_NONE, w4)"
    using adding_runs [of E ?u B accepted ?k info] ready by (auto simp: alive_def threads_def)
  from s1 s2 s3 have run: "(hstep E)\<^sup>*\<^sup>* (map (entry E) [Request ''pair'' ps, ?unpair], w) ([accepted, accepted], w4)"
    unfolding list.map by (blast intro: rtranclp_trans)
  let ?v = "cachePut ?k info ?u"
  obtain es where es: "trace w4 = trace ?v @ es" "\<forall>ev \<in> set es. store_io PERSISTENT_STORE_KEY_DEVICE_INFO ev"
    using evolves_trace [OF io_evolves [OF writeStorage_io [OF wr]]] by blast
  then have "bonded (handle_of i) (trace w4) = bonded (handle_of i) (trace ?u)"
    using bonded_store [OF es(2), of "handle_of i" "trace ?u"] by simp
  then have "\<not> bonded (handle_of i) (trace w4)"
    using bonded_snoc [of "handle_of i" "trace ?d"] by (simp add: bond_event_def del: append_assoc described_fields)
  moreover have c: "pairedDeviceCache w4 = pairedDeviceCache ?v" by (rule io_fields(2) [OF writeStorage_io [OF wr]])
  moreover from c have "um_find (pairedDeviceCache w4) ?k = Some info" by (simp add: cachePut_def um.find_put)
  moreover have "store_contents (trace w4) PERSISTENT_STORE_KEY_DEVICE_INFO = Some (storedPayload E (pairedDeviceCache w4))"
    using writeStorage_contents [OF wr] c by simp
  ultimately show ?thesis using run by blast
qed

subsection \<open>Two scans at once\<close>

text \<open>Programs that call neither the registry nor a null pointer, and a schedule of their sections.\<close>

primrec only_acts :: "(process, 'a) prog \<Rightarrow> bool" where
  "only_acts (Ret x) \<longleftrightarrow> True"
| "only_acts (Act f) \<longleftrightarrow> (\<forall>w. snd ((map_prod id only_acts \<circ> f) w))"
| "only_acts (Reg t k) \<longleftrightarrow> False"
| "only_acts Crash \<longleftrightarrow> False"

lemma only_acts_andThen: "only_acts p \<Longrightarrow> (\<And>x. only_acts (g x)) \<Longrightarrow> only_acts (andThen p g)"
  by (induction p) auto

lemma only_acts_basic [simp]: "only_acts (act f)" "only_acts (reads r)" "only_acts (does g)" "only_acts (bt E c)"
  by (simp_all add: act_def reads_def does_def bt_def case_prod_beta)

lemma only_acts_scan [simp]: "only_acts (stop_sections E)" "only_acts (start_sections E timeout profile)"
  by (auto simp: stop_sections_def start_sections_def simp del: andThen_act andThen_reads intro!: only_acts_andThen)

fun acts :: "nat list \<Rightarrow> (process, outcome) prog list \<times> process \<Rightarrow> (process, outcome) prog list \<times> process" where
  "acts [] s = s"
| "acts (i # is) (ps, w) = (case ps ! i of Act f \<Rightarrow> (case f w of (w', p) \<Rightarrow> acts is (ps[i := p], w')) | _ \<Rightarrow> (ps, w))"

lemma only_acts_alive: "\<forall>p \<in> set ps. only_acts p \<Longrightarrow> alive ps"
proof -
  assume a: "\<forall>p \<in> set ps. only_acts p"
  then have "p \<noteq> Crash" "thread_of p = []" if "p \<in> set ps" for p using that by (cases p; fastforce)+
  then show ?thesis by (auto simp: alive_def threads_def)
qed

lemma acts_steps: "\<forall>p \<in> set ps. only_acts p \<Longrightarrow> \<forall>i \<in> set is. i < length ps \<Longrightarrow> (hstep E)\<^sup>*\<^sup>* (ps, w) (acts is (ps, w))"
proof (induction "is" arbitrary: ps w)
  case (Cons i "is")
  show ?case
  proof (cases "ps ! i")
    case (Act f)
    obtain w' p where f: "f w = (w', p)" by fastforce
    have "only_acts (ps ! i)" using Cons.prems by simp
    then have "only_acts p" using Act f by (auto dest: spec [of _ w])
    then have all: "\<forall>q \<in> set (ps[i := p]). only_acts q" using Cons.prems(1) set_update_subset_insert [of ps i p] by auto
    have "hstep E (ps, w) (ps[i := p], w')"
      using step_act [of i ps f w w' p E] Cons.prems Act f only_acts_alive [OF Cons.prems(1)] by simp
    with Cons.IH [OF all] Cons.prems(2) Act f show ?thesis by (simp add: converse_rtranclp_into_rtranclp)
  qed simp_all
qed simp

lemma scanning_snoc [simp]: "scanning (tr @ [ev]) = scan_event ev (scanning tr)"
  by (simp add: scanning_def)

lemma scan_event_simps [simp]:
  "scan_event (EvBT (StartDeviceDiscovery ty) BTRMGR_RESULT_SUCCESS) on" "scan_event EvTimerRevoke on = on"
  "scan_event (EvTimerSchedule m) on = on" "scan_event (EvBT GetNumberOfAdapters rc) on = on"
  by (simp_all add: scan_event_def)

text \<open>
  Two \<open>startScan\<close> requests that both find no scan running, one without a timeout: it resets
  the flag after the other has started its scan and its timer. The timer then finds the flag
  reset, and so does any \<open>stopScan\<close>.
\<close>

lemma lost_scan:
  assumes "\<not> discoveryRunning w" "timerEntries w = []"
    and "HasLabel ps ''timeout''" "e_getNumber E ps ''timeout'' (- 1) \<le> 0"
    and "HasLabel ps' ''timeout''" "0 < e_getNumber E ps' ''timeout'' (- 1)"
    and "\<And>tr. e_numAdapters E tr \<noteq> 0" "\<And>tr ty. e_bt E tr (StartDeviceDiscovery ty) = BTRMGR_RESULT_SUCCESS"
  shows "\<exists>w'. (pstep E)\<^sup>*\<^sup>* (map (entry E) [Request ''startScan'' ps, Request ''startScan'' ps'], w)
      ([Ret (Rpc (Returns [(''status'', JStr STATUS_AVAILABLE)] True)),
        Ret (Rpc (Returns [(''status'', JStr STATUS_AVAILABLE)] True)), Ret Finished], w') \<and>
    scanning (trace w') \<and> \<not> discoveryRunning w' \<and> timerEntries w' = [] \<and>
    (\<forall>qs. solo E (entry E (Request ''stopScan'' qs)) w' = Some (Rpc (Returns [] True), w'))"
proof -
  let ?ps = "map (entry E) [Request ''startScan'' ps, Request ''startScan'' ps']"
  let ?order = "[0, 1, 0, 0, 0, 0, 0, 0, 1, 1, 1, 1, 1, 0]"
  let ?ok = "Ret (Rpc (Returns [(''status'', JStr STATUS_AVAILABLE)] True)) :: (process, outcome) prog"
  have oa: "\<forall>p \<in> set ?ps. only_acts p"
    by (auto simp: methodSections_def startScan_sections_def intro!: only_acts_andThen)
  obtain qs w1 where a: "acts ?order (?ps, w) = (qs, w1)" by fastforce
  have f: "qs = [?ok, ?ok] \<and> \<not> discoveryRunning w1 \<and> length (timerEntries w1) = 1 \<and> scanning (trace w1)"
  proof -
    have t: "discoveryTimer w = None" "moreTimers w = []" using assms(2) by (auto simp: timerEntries_def split: option.splits)
    show ?thesis
      using a assms(1,3-) t
      by (simp add: methodSections_def startScan_sections_def start_sections_def stop_sections_def andThen_assoc
          bt_def does_def btCall_def revokeTimer_def scheduleTimer_def setTimers_def timerEntries_def Let_def)
        (auto simp: scanning_def)
  qed
  then obtain msec where m: "timerEntries w1 = [] @ msec # []" by (auto simp: length_Suc_conv)
  let ?w2 = "setTimers ([] @ []) w1"
  have e: "timerEntries ?w2 = []" "\<not> discoveryRunning ?w2" "trace ?w2 = trace w1" "moreTimers ?w2 = []"
    using f by (simp_all add: setTimers_def timerEntries_def)
  have al: "alive qs" "alive (qs @ [entry E TimerFires])" "unlocked (qs @ [entry E TimerFires])"
    using f by (auto simp: alive_def unlocked_def threads_def stop_sections_def)
  have "(hstep E)\<^sup>*\<^sup>* (?ps, w) (qs, w1)" using acts_steps [OF oa, of ?order E w] a by simp
  then have s1: "(pstep E)\<^sup>*\<^sup>* (?ps, w) (qs, w1)" by (rule hsteps_psteps)
  have s2: "pstep E (qs, w1) (qs @ [entry E TimerFires], ?w2)" using al(1) m by (rule step_timer)
  have "solo E (entry E TimerFires) ?w2 = Some (Finished, ?w2)" using e by (simp add: stop_sections_def)
  then have "(hstep E)\<^sup>*\<^sup>* (qs @ [entry E TimerFires], ?w2) ((qs @ [entry E TimerFires])[2 := Ret Finished], ?w2)"
    using f al(2,3) prog_ok_mono [OF prog_ok_entry [of E TimerFires], of True]
    by (intro solo_runs) (simp_all add: nth_append del: entry.simps)
  then have s3: "(pstep E)\<^sup>*\<^sup>* (qs @ [entry E TimerFires], ?w2) ([?ok, ?ok, Ret Finished], ?w2)"
    using hsteps_psteps f by (simp del: entry.simps)
  have "(pstep E)\<^sup>*\<^sup>* (?ps, w) ([?ok, ?ok, Ret Finished], ?w2)"
    using rtranclp_trans [OF rtranclp.rtrancl_into_rtrancl [OF s1 s2] s3] .
  moreover have "solo E (entry E (Request ''stopScan'' xs)) ?w2 = Some (Rpc (Returns [] True), ?w2)" for xs
    using e by (simp add: methodSections_def stop_sections_def)
  ultimately show ?thesis using e f by auto
qed

end
