(* ===== verification/Writers.thy ===== *)
theory Writers
  imports AdapterCorrect
begin

section \<open>Concurrent writers of the AS file\<close>

text \<open>
  \<open>writeFilesystemPersistenceFromCache\<close> calls \<open>Write\<close> from any thread. \<open>Write\<close> takes
  \<open>gFilesystemPersistenceWriteMutex\<close> for its whole body, and every \<open>Write\<close> uses the same
  temporary path. Here \<open>Write\<close> is a sequence of system calls (\<open>writer_step\<close>), each answered by
  the system, and the files are inodes with names: an open descriptor keeps its inode and its
  offset when the name is truncated, renamed or removed by another thread. Threads that call
  \<open>Write\<close> wait for the mutex, run their calls in any interleaving that it allows and leave it
  (\<open>writers_step\<close>). A writer is the \<open>Write\<close> of theory PersistenceAdapter and is atomic whatever
  the system answers; several write one after another because of the mutex.
\<close>

subsection \<open>Inodes and names\<close>

record fsys =
  inodes :: "nat \<Rightarrow> string"
  dir :: "string \<Rightarrow> nat option"
  next_inode :: nat

definition contents_of :: "fsys \<Rightarrow> files" where
  "contents_of s p = map_option (inodes s) (dir s p)"

definition fs_wf :: "fsys \<Rightarrow> bool" where
  "fs_wf s \<longleftrightarrow> (\<forall>p i. dir s p = Some i \<longrightarrow> i < next_inode s) \<and>
     (\<forall>p q i. dir s p = Some i \<longrightarrow> dir s q = Some i \<longrightarrow> p = q)"

definition open_trunc :: "string \<Rightarrow> fsys \<Rightarrow> nat \<times> fsys" where
  "open_trunc p s = (case dir s p of
     Some i \<Rightarrow> (i, s\<lparr>inodes := (inodes s)(i := '''')\<rparr>)
   | None \<Rightarrow> (next_inode s, s\<lparr>inodes := (inodes s)(next_inode s := ''''),
       dir := (dir s)(p := Some (next_inode s)), next_inode := next_inode s + 1\<rparr>))"

text \<open>\<open>write\<close> at an offset: a gap behind the end of the file reads as NUL characters.\<close>

definition write_at :: "nat \<Rightarrow> string \<Rightarrow> string \<Rightarrow> string" where
  "write_at off d c = take off (c @ replicate (off - length c) NUL) @ d @ drop (off + length d) c"

definition remove_name :: "string \<Rightarrow> fsys \<Rightarrow> fsys" where
  "remove_name p s = s\<lparr>dir := (dir s)(p := None)\<rparr>"

subsection \<open>One writer\<close>

text \<open>What the system answers: a call succeeds, accepting \<open>n\<close> bytes if it is a \<open>write\<close>, or fails.\<close>

datatype os_reply = Accepts nat | Fails errno

text \<open>The next system call of \<open>Write\<close>; \<open>WriteData\<close> has the inode, the offset and the remaining data.\<close>

datatype writer_pc = OpenTmp | WriteData nat nat string | CloseFailed | RemoveFailed
  | SyncTmp | CloseTmp | RenameTmp | RemoveTmp | OpenDir | SyncDir | CloseDir | Returned hresult

fun writer_step :: "string \<Rightarrow> string \<Rightarrow> os_reply \<Rightarrow> writer_pc \<times> fsys \<Rightarrow> (writer_pc \<times> fsys) option" where
  "writer_step path data (Fails e) (OpenTmp, s) = Some (Returned ERROR_GENERAL, s)"
| "writer_step path data (Accepts n) (OpenTmp, s) =
     (let (fd, s1) = open_trunc (path @ ''.tmp'') s in Some (WriteData fd 0 data, s1))"
| "writer_step path data reply (WriteData fd off remaining, s) =
     (if remaining = '''' then Some (SyncTmp, s)
      else case reply of
        Fails e \<Rightarrow> if e = EINTR then Some (WriteData fd off remaining, s) else Some (CloseFailed, s)
      | Accepts n \<Rightarrow>
          let written = min n (length remaining) in
          Some (WriteData fd (off + written) (drop written remaining),
            s\<lparr>inodes := (inodes s)(fd := write_at off (take written remaining) (inodes s fd))\<rparr>))"
| "writer_step path data reply (CloseFailed, s) = Some (RemoveFailed, s)"
| "writer_step path data reply (RemoveFailed, s) =
     Some (Returned ERROR_GENERAL, case reply of Accepts n \<Rightarrow> remove_name (path @ ''.tmp'') s | Fails e \<Rightarrow> s)"
| "writer_step path data reply (SyncTmp, s) = Some (CloseTmp, s)"
| "writer_step path data reply (CloseTmp, s) = Some (RenameTmp, s)"
| "writer_step path data reply (RenameTmp, s) =
     (case (reply, dir s (path @ ''.tmp'')) of
        (Accepts n, Some i) \<Rightarrow> Some (OpenDir, s\<lparr>dir := (dir s)(path @ ''.tmp'' := None, path := Some i)\<rparr>)
      | _ \<Rightarrow> Some (RemoveTmp, s))"
| "writer_step path data reply (RemoveTmp, s) =
     Some (Returned ERROR_GENERAL, case reply of Accepts n \<Rightarrow> remove_name (path @ ''.tmp'') s | Fails e \<Rightarrow> s)"
| "writer_step path data reply (OpenDir, s) =
     Some (case reply of Accepts n \<Rightarrow> SyncDir | Fails e \<Rightarrow> Returned ERROR_NONE, s)"
| "writer_step path data reply (SyncDir, s) = Some (CloseDir, s)"
| "writer_step path data reply (CloseDir, s) = Some (Returned ERROR_NONE, s)"
| "writer_step path data reply (Returned r, s) = None"

subsection \<open>Several writers\<close>

text \<open>
  A thread that has called \<open>Write\<close>: before the \<open>lock_guard\<close>, before the existing file is read,
  before a system call with the payload built, or returned, the guard destroyed.
\<close>

datatype writer = Waiting device_cache | Reading device_cache | Writing string writer_pc | Left hresult

fun holding :: "writer \<Rightarrow> bool" where
  "holding (Waiting c) = False" | "holding (Reading c) = True"
| "holding (Writing data pc) = True" | "holding (Left r) = False"

text \<open>
  The entries kept from the file: none if it does not exist, cannot be opened or told the size
  of, or is too large; otherwise those of the bytes that could be read. Nobody but the holder of
  the mutex changes the file, so that the calls that read it are one step.
\<close>

definition existingOf :: "env \<Rightarrow> string option \<Rightarrow> os_reply \<Rightarrow> (string, json_object) umap" where
  "existingOf E content reply = (case (content, reply) of
     (Some c, Accepts n) \<Rightarrow>
       if kMaxFilesystemPersistencePayloadBytes < int (length c) then [] else entriesOfPayload E (take n c)
   | _ \<Rightarrow> [])"

inductive writers_step :: "env \<Rightarrow> writer list \<times> fsys \<Rightarrow> writer list \<times> fsys \<Rightarrow> bool" for E where
  lock_mutex: "i < length ws \<Longrightarrow> ws ! i = Waiting c \<Longrightarrow> \<forall>x \<in> set ws. \<not> holding x \<Longrightarrow>
    writers_step E (ws, s) (ws[i := Reading c], s)"
| read_file: "i < length ws \<Longrightarrow> ws ! i = Reading c \<Longrightarrow>
    data = writePayload E (existingOf E (contents_of s (e_path E)) reply) c \<Longrightarrow>
    writers_step E (ws, s) (ws[i := Writing data OpenTmp], s)"
| one_call: "i < length ws \<Longrightarrow> ws ! i = Writing data pc \<Longrightarrow>
    writer_step (e_path E) data reply (pc, s) = Some (pc', s') \<Longrightarrow>
    writers_step E (ws, s) (ws[i := Writing data pc'], s')"
| unlock_mutex: "i < length ws \<Longrightarrow> ws ! i = Writing data (Returned r) \<Longrightarrow>
    writers_step E (ws, s) (ws[i := Left r], s)"

inductive_cases writers_stepE: "writers_step E (ws, s) x"

subsection \<open>What writing one after another gives\<close>

text \<open>The file after complete writes of the caches \<open>cs\<close> in this order, each merged into what it found.\<close>

inductive written_by :: "env \<Rightarrow> string option \<Rightarrow> device_cache list \<Rightarrow> string option \<Rightarrow> bool" for E old where
  unwritten: "written_by E old [] old"
| write_next: "written_by E old cs content \<Longrightarrow>
    written_by E old (cs @ [c]) (Some (writePayload E (existingOf E content reply) c))"

text \<open>A writer that has renamed its payload into place.\<close>

fun committed :: "writer_pc \<Rightarrow> bool" where
  "committed OpenDir = True" | "committed SyncDir = True" | "committed CloseDir = True"
| "committed (Returned r) \<longleftrightarrow> r = ERROR_NONE" | "committed _ = False"

fun has_committed :: "writer \<Rightarrow> bool" where
  "has_committed (Writing data pc) = committed pc"
| "has_committed (Left r) \<longleftrightarrow> r = ERROR_NONE"
| "has_committed _ = False"

end
