(* ===== verification/WritersCorrect.thy ===== *)
theory WritersCorrect
  imports Writers
begin

section \<open>One writer is atomic, several write one after another\<close>

text \<open>
  A writer keeps the file at its old contents or its complete payload, whatever the system
  answers; every run of \<open>Write\<close> is a run of a writer; and in any interleaving of several the
  file holds what those that have renamed theirs give one after another
  (\<open>writers_serialise\<close>), with the mutex never held for ever by a thread that has nothing to do.
\<close>

subsection \<open>Contents after the calls\<close>

lemma tmp_neq [simp]: "path @ ''.tmp'' \<noteq> path" "path \<noteq> path @ ''.tmp''"
  by simp_all

lemma write_at_end [simp]: "write_at (length c) d c = c @ d"
  by (simp add: write_at_def)

lemma contents_write:
  assumes "fs_wf s" "dir s q = Some i"
  shows "contents_of (s\<lparr>inodes := (inodes s)(i := c)\<rparr>) = (contents_of s)(q := Some c)"
proof
  fix p
  show "contents_of (s\<lparr>inodes := (inodes s)(i := c)\<rparr>) p = ((contents_of s)(q := Some c)) p"
    using assms by (cases "dir s p") (auto simp: contents_of_def fs_wf_def)
qed

lemma wf_inodes [simp]: "fs_wf (s\<lparr>inodes := c\<rparr>) = fs_wf s"
  by (simp add: fs_wf_def)

lemma contents_remove [simp]: "contents_of (remove_name p s) = (contents_of s)(p := None)"
  by (auto simp: contents_of_def remove_name_def)

lemma wf_remove [simp]: "fs_wf s \<Longrightarrow> fs_wf (remove_name p s)"
  by (auto simp: fs_wf_def remove_name_def)

lemma open_trunc_result:
  assumes "fs_wf s" "open_trunc p s = (i, s')"
  shows "fs_wf s' \<and> dir s' p = Some i \<and> inodes s' i = '''' \<and> contents_of s' = (contents_of s)(p := Some '''')"
proof (cases "dir s p")
  case (Some j)
  with assms contents_write [OF assms(1) Some] show ?thesis by (auto simp: open_trunc_def)
next
  case None
  have lt: "dir s q = Some j \<Longrightarrow> j < next_inode s" for q j using assms(1) by (simp add: fs_wf_def)
  have "contents_of s' q = ((contents_of s)(p := Some '''')) q" for q
    using None assms(2) lt [of q "next_inode s"] by (cases "dir s q") (auto simp: open_trunc_def contents_of_def)
  moreover have "fs_wf s'"
    using None assms lt by (auto simp: open_trunc_def fs_wf_def less_Suc_eq split: if_splits dest: lt)
  ultimately show ?thesis using None assms(2) by (auto simp: open_trunc_def)
qed

lemma rename_result:
  assumes "fs_wf s" "dir s q = Some i" "q \<noteq> p"
  shows "fs_wf (s\<lparr>dir := (dir s)(q := None, p := Some i)\<rparr>)"
    and "contents_of (s\<lparr>dir := (dir s)(q := None, p := Some i)\<rparr>) = (contents_of s)(q := None, p := contents_of s q)"
  using assms by (auto simp: fs_wf_def contents_of_def split: if_splits)

subsection \<open>One writer\<close>

text \<open>What holds at each call of a single writer, the target having held \<open>old\<close>.\<close>

definition writer_inv :: "string \<Rightarrow> string \<Rightarrow> string option \<Rightarrow> writer_pc \<times> fsys \<Rightarrow> bool" where
  "writer_inv path data old x = (case x of (pc, s) \<Rightarrow> fs_wf s \<and>
     (case pc of
        WriteData fd off remaining \<Rightarrow> contents_of s path = old \<and> dir s (path @ ''.tmp'') = Some fd \<and>
          length (inodes s fd) = off \<and> inodes s fd @ remaining = data
      | SyncTmp \<Rightarrow> contents_of s path = old \<and> contents_of s (path @ ''.tmp'') = Some data
      | CloseTmp \<Rightarrow> contents_of s path = old \<and> contents_of s (path @ ''.tmp'') = Some data
      | RenameTmp \<Rightarrow> contents_of s path = old \<and> contents_of s (path @ ''.tmp'') = Some data
      | OpenDir \<Rightarrow> contents_of s path = Some data
      | SyncDir \<Rightarrow> contents_of s path = Some data
      | CloseDir \<Rightarrow> contents_of s path = Some data
      | Returned r \<Rightarrow> contents_of s path = (if r = ERROR_NONE then Some data else old)
      | _ \<Rightarrow> contents_of s path = old))"

lemma writer_inv_write:
  assumes inv: "writer_inv path data old (WriteData fd off remaining, s)"
    and st: "writer_step path data reply (WriteData fd off remaining, s) = Some y"
  shows "writer_inv path data old y"
proof -
  have wf: "fs_wf s" and d: "dir s (path @ ''.tmp'') = Some fd" and old: "contents_of s path = old"
    and off: "off = length (inodes s fd)" and dat: "inodes s fd @ remaining = data"
    using inv by (auto simp: writer_inv_def)
  show ?thesis
  proof (cases "remaining = ''''")
    case True
    with st wf d old dat show ?thesis by (auto simp: writer_inv_def contents_of_def)
  next
    case False
    show ?thesis
    proof (cases reply)
      case (Accepts n)
      let ?w = "min n (length remaining)"
      have "y = (WriteData fd (off + ?w) (drop ?w remaining),
          s\<lparr>inodes := (inodes s)(fd := inodes s fd @ take ?w remaining)\<rparr>)"
        using st False Accepts off by (auto simp: Let_def)
      with wf d old off dat show ?thesis by (auto simp: writer_inv_def contents_write [OF wf d] min_def)
    qed (use st False inv in \<open>auto simp: writer_inv_def split: if_splits\<close>)
  qed
qed

lemma writer_inv_step:
  assumes inv: "writer_inv path data old (pc, s)" and st: "writer_step path data reply (pc, s) = Some y"
  shows "writer_inv path data old y"
proof -
  let ?t = "path @ ''.tmp''"
  have wf: "fs_wf s" using inv by (simp add: writer_inv_def)
  show ?thesis
  proof (cases pc)
    case OpenTmp
    obtain fd s1 where o: "open_trunc ?t s = (fd, s1)" by fastforce
    with open_trunc_result [OF wf o] OpenTmp inv st show ?thesis
      by (cases reply) (auto simp: writer_inv_def)
  next
    case (WriteData fd off remaining)
    with inv st writer_inv_write show ?thesis by blast
  next
    case RenameTmp
    show ?thesis
    proof (cases "dir s ?t")
      case None
      with RenameTmp inv show ?thesis by (simp add: writer_inv_def contents_of_def)
    next
      case (Some i)
      note rn = rename_result [OF wf Some, of path]
      show ?thesis
      proof (cases reply)
        case (Accepts n)
        with st RenameTmp Some have "y = (OpenDir, s\<lparr>dir := (dir s)(?t := None, path := Some i)\<rparr>)" by simp
        with rn inv RenameTmp show ?thesis by (simp add: writer_inv_def)
      next
        case (Fails e)
        with st RenameTmp have "y = (RemoveTmp, s)" by simp
        with inv RenameTmp show ?thesis by (simp add: writer_inv_def)
      qed
    qed
  qed (use inv st in \<open>auto simp: writer_inv_def split: os_reply.splits\<close>)
qed

text \<open>Whether the file holds the payload depends on the call reached only; it is kept once it does.\<close>

lemma writer_inv_contents:
  "writer_inv path data old (pc, s) \<Longrightarrow> contents_of s path = (if committed pc then Some data else old)"
  by (cases pc) (simp_all add: writer_inv_def)

lemma committed_step: "writer_step path data reply (pc, s) = Some (pc', s') \<Longrightarrow> committed pc \<Longrightarrow> committed pc'"
  by (cases pc) (auto split: os_reply.splits)

subsection \<open>Several writers\<close>

text \<open>What holds of each thread: what it writes was merged into what the file held before it.\<close>

definition writer_ok :: "env \<Rightarrow> fsys \<Rightarrow> device_cache \<Rightarrow> writer \<Rightarrow> bool" where
  "writer_ok E s cache x = (case x of
     Waiting c \<Rightarrow> c = cache
   | Reading c \<Rightarrow> c = cache
   | Writing data pc \<Rightarrow> (\<exists>old reply. writer_inv (e_path E) data old (pc, s) \<and>
       data = writePayload E (existingOf E old reply) cache)
   | Left r \<Rightarrow> True)"

definition order_ok :: "env \<Rightarrow> string option \<Rightarrow> device_cache list \<Rightarrow> writer list \<times> fsys \<Rightarrow> bool" where
  "order_ok E old caches x = (case x of (ws, s) \<Rightarrow>
     (\<exists>order. distinct order \<and> set order = {i. i < length caches \<and> has_committed (ws ! i)} \<and>
       written_by E old (map ((!) caches) order) (contents_of s (e_path E))))"

definition writers_inv :: "env \<Rightarrow> string option \<Rightarrow> device_cache list \<Rightarrow> writer list \<times> fsys \<Rightarrow> bool" where
  "writers_inv E old caches x = (case x of (ws, s) \<Rightarrow> fs_wf s \<and> length ws = length caches \<and>
     length (filter holding ws) \<le> 1 \<and> (\<forall>i < length ws. writer_ok E s (caches ! i) (ws ! i)) \<and>
     order_ok E old caches (ws, s))"

lemma writers_inv_start: "fs_wf s \<Longrightarrow> writers_inv E (contents_of s (e_path E)) caches (map Waiting caches, s)"
  by (auto simp: writers_inv_def writer_ok_def order_ok_def intro!: exI [of _ "[]"] unwritten)

text \<open>Only the holder looks at the file: the other threads are as they were.\<close>

lemma idle_writer: "\<not> holding x \<Longrightarrow> writer_ok E s c x = writer_ok E s' c x"
  by (cases x) (simp_all add: writer_ok_def)

lemma order_same:
  assumes "order_ok E old caches (ws, s)" "contents_of s' (e_path E) = contents_of s (e_path E)"
    and "has_committed x = has_committed (ws ! i)" "i < length ws"
  shows "order_ok E old caches (ws[i := x], s')"
proof -
  have "has_committed (ws[i := x] ! j) = has_committed (ws ! j)" for j
    using assms(3,4) by (cases "j = i") simp_all
  with assms(1,2) show ?thesis by (simp add: order_ok_def)
qed

lemma order_next:
  assumes "order_ok E old caches (ws, s)" "i < length ws" "length ws = length caches"
    and "\<not> has_committed (ws ! i)" "has_committed x"
    and "contents_of s' (e_path E) = Some (writePayload E (existingOf E (contents_of s (e_path E)) reply) (caches ! i))"
  shows "order_ok E old caches (ws[i := x], s')"
proof -
  obtain order where o: "distinct order" "set order = {j. j < length caches \<and> has_committed (ws ! j)}"
    and w: "written_by E old (map ((!) caches) order) (contents_of s (e_path E))"
    using assms(1) by (auto simp: order_ok_def)
  have "i \<notin> set order" using o(2) assms(4) by simp
  moreover have "set (order @ [i]) = {j. j < length caches \<and> has_committed (ws[i := x] ! j)}"
  proof (rule set_eqI)
    fix j
    show "j \<in> set (order @ [i]) \<longleftrightarrow> j \<in> {j. j < length caches \<and> has_committed (ws[i := x] ! j)}"
      using o(2) assms(2,3,5) by (cases "j = i") simp_all
  qed
  moreover have "written_by E old (map ((!) caches) (order @ [i])) (contents_of s' (e_path E))"
    using write_next [OF w, of "caches ! i" reply] assms(6) by simp
  moreover have "distinct (order @ [i])" using o(1) \<open>i \<notin> set order\<close> by simp
  ultimately show ?thesis unfolding order_ok_def prod.case by blast
qed

lemma writers_inv_update:
  assumes inv: "writers_inv E old caches (ws, s)" and i: "i < length ws"
    and x: "holding x \<Longrightarrow> holding (ws ! i) \<or> (\<forall>y \<in> set ws. \<not> holding y)"
    and wf: "fs_wf s'" and ok: "writer_ok E s' (caches ! i) x" and s: "s' = s \<or> holding (ws ! i)"
    and ord: "order_ok E old caches (ws[i := x], s')"
  shows "writers_inv E old caches (ws[i := x], s')"
proof -
  note inv' = inv [unfolded writers_inv_def prod.case]
  have "length (filter holding (ws[i := x])) \<le> 1"
  proof (cases "holding x \<and> \<not> holding (ws ! i)")
    case True
    with x filter_update_one [OF i, of holding x] show ?thesis by simp
  next
    case False
    with filter_update_le [OF i, of holding x] inv' show ?thesis by fastforce
  qed
  moreover have "writer_ok E s' (caches ! j) (ws[i := x] ! j)" if j: "j < length ws" for j
  proof (cases "j = i")
    case True
    with ok i show ?thesis by simp
  next
    case False
    have "s' = s \<or> \<not> holding (ws ! j)" using s one_only [of holding ws i j] inv' i j False by blast
    with inv' j False idle_writer [of "ws ! j" E s' "caches ! j" s] show ?thesis by auto
  qed
  ultimately show ?thesis using inv' wf ord by (simp add: writers_inv_def)
qed

lemma writers_step_inv:
  assumes st: "writers_step E (ws, s) (ws', s')" and inv: "writers_inv E old caches (ws, s)"
  shows "writers_inv E old caches (ws', s')"
proof -
  note inv' = inv [unfolded writers_inv_def prod.case]
  have ok: "writer_ok E s (caches ! i) (ws ! i)" if "i < length ws" for i using inv' that by simp
  have same: "order_ok E old caches (ws[i := x], s)" if "has_committed x = has_committed (ws ! i)" "i < length ws" for i x
    using order_same [OF _ refl that] inv' by simp
  from st show ?thesis
  proof (cases rule: writers_step.cases)
    case (lock_mutex i c)
    with ok [of i] same [of "Reading c" i] inv' show ?thesis
      by (auto intro!: writers_inv_update [OF inv] simp: writer_ok_def)
  next
    case (read_file i c data reply)
    then have "writer_ok E s (caches ! i) (Writing data OpenTmp)"
      using ok [of i] inv' by (auto simp: writer_ok_def writer_inv_def)
    with read_file same [of "Writing data OpenTmp" i] inv' show ?thesis
      by (auto intro!: writers_inv_update [OF inv])
  next
    case (one_call i data pc reply pc')
    then obtain prev r where w: "writer_inv (e_path E) data prev (pc, s)"
      and d: "data = writePayload E (existingOf E prev r) (caches ! i)"
      using ok [of i] by (auto simp: writer_ok_def)
    have w': "writer_inv (e_path E) data prev (pc', s')" using writer_inv_step [OF w one_call(4)] .
    note c = writer_inv_contents [OF w] and c' = writer_inv_contents [OF w']
    have "order_ok E old caches (ws[i := Writing data pc'], s')"
    proof (cases "committed pc' = committed pc")
      case True
      with c c' one_call inv' show ?thesis by (intro order_same [of E old caches ws s]) simp_all
    next
      case False
      with committed_step [OF one_call(4)] have "\<not> committed pc" "committed pc'" by auto
      with c c' d one_call inv' show ?thesis by (intro order_next [of E old caches ws s i _ s' r]) simp_all
    qed
    moreover have "writer_ok E s' (caches ! i) (Writing data pc')" using w' d by (auto simp: writer_ok_def)
    moreover have "fs_wf s'" using w' by (simp add: writer_inv_def)
    ultimately show ?thesis using one_call by (auto intro!: writers_inv_update [OF inv])
  next
    case (unlock_mutex i data r)
    with ok [of i] same [of "Left r" i] inv' show ?thesis
      by (auto intro!: writers_inv_update [OF inv] simp: writer_ok_def)
  qed
qed

lemma writers_reach:
  assumes "(writers_step E)\<^sup>*\<^sup>* x y" "writers_inv E old caches x"
  shows "writers_inv E old caches y"
  using assms by (induction rule: rtranclp_induct) (auto intro: writers_step_inv)

text \<open>While a thread has not returned, one can go on: the mutex is given back.\<close>

lemma writer_goes_on: "(\<And>r. pc \<noteq> Returned r) \<Longrightarrow> \<exists>pc' s'. writer_step path data (Accepts n) (pc, s) = Some (pc', s')"
  by (cases pc) (auto simp: Let_def split: option.splits prod.splits)

lemma writers_go_on:
  assumes "x \<in> set ws" "\<And>r. x \<noteq> Left r"
  shows "\<exists>y. writers_step E (ws, s) y"
proof (cases "\<exists>y \<in> set ws. holding y")
  case True
  then obtain i where i: "i < length ws" "holding (ws ! i)" by (auto simp: in_set_conv_nth)
  show ?thesis
  proof (cases "ws ! i")
    case (Writing data pc)
    show ?thesis
    proof (cases "\<exists>r. pc = Returned r")
      case True
      with i Writing show ?thesis by (blast intro: unlock_mutex)
    next
      case False
      then obtain pc' s' where "writer_step (e_path E) data (Accepts 0) (pc, s) = Some (pc', s')"
        using writer_goes_on by blast
      with i Writing show ?thesis by (blast intro: one_call)
    qed
  qed (use i in \<open>auto intro: read_file\<close>)
next
  case False
  obtain i where i: "i < length ws" "ws ! i = x" using assms(1) by (auto simp: in_set_conv_nth)
  with False assms obtain c where "x = Waiting c" by (cases x) auto
  with i False show ?thesis by (blast intro: lock_mutex)
qed

lemma writers_serialise:
  assumes "(writers_step E)\<^sup>*\<^sup>* (map Waiting caches, s) (ws, s')" "fs_wf s"
  shows "length (filter holding ws) \<le> 1 \<and>
    (\<exists>order. distinct order \<and> set order = {i. i < length caches \<and> has_committed (ws ! i)} \<and>
      written_by E (contents_of s (e_path E)) (map ((!) caches) order) (contents_of s' (e_path E))) \<and>
    ((\<nexists>y. writers_step E (ws, s') y) \<longrightarrow> (\<forall>x \<in> set ws. \<exists>r. x = Left r))"
proof -
  have "(\<nexists>y. writers_step E (ws, s') y) \<longrightarrow> (\<forall>x \<in> set ws. \<exists>r. x = Left r)" using writers_go_on by blast
  with writers_reach [OF assms(1) writers_inv_start [OF assms(2)]] show ?thesis
    by (simp add: writers_inv_def order_ok_def)
qed

text \<open>Once its payload is built, a writer on its own leaves the file old or complete after each call.\<close>

lemma one_writer_atomic:
  assumes "(writers_step E)\<^sup>*\<^sup>* ([Writing data OpenTmp], s) (ws, s')" "fs_wf s"
  shows "contents_of s' (e_path E) \<in> {contents_of s (e_path E), Some data}"
proof -
  let ?I = "\<lambda>(ws, s'). (\<exists>pc. ws = [Writing data pc] \<and> writer_inv (e_path E) data (contents_of s (e_path E)) (pc, s')) \<or>
    (\<exists>r. ws = [Left r] \<and> contents_of s' (e_path E) \<in> {contents_of s (e_path E), Some data})"
  have "?I (ws, s')"
    using assms(1)
  proof (induction rule: rtranclp_induct)
    case base
    then show ?case using assms(2) by (simp add: writer_inv_def)
  next
    case (step y z)
    obtain vs v vs' v' where y: "y = (vs, v)" "z = (vs', v')" by (cases y, cases z)
    from step(2) [unfolded y] show ?case
      by (rule writers_stepE)
        (use step(3) y in \<open>auto simp: less_Suc_eq dest: writer_inv_step writer_inv_contents split: if_splits\<close>)
  qed
  then show ?thesis by (auto dest: writer_inv_contents split: if_splits)
qed


subsection \<open>\<open>Write\<close> is a run of one writer\<close>

definition calls :: "string \<Rightarrow> string \<Rightarrow> writer_pc \<times> fsys \<Rightarrow> writer_pc \<times> fsys \<Rightarrow> bool" where
  "calls path data x y \<longleftrightarrow> (\<exists>reply. writer_step path data reply x = Some y)"

lemma callsI: "writer_step path data reply x = Some y \<Longrightarrow> calls path data x y"
  by (auto simp: calls_def)

lemma calls_in_pool:
  assumes "(calls (e_path E) data)\<^sup>*\<^sup>* (pc, s) (pc', s')" "i < length ws" "ws ! i = Writing data pc"
  shows "(writers_step E)\<^sup>*\<^sup>* (ws, s) (ws[i := Writing data pc'], s')"
  using assms(1)
proof (induction "(pc', s')" arbitrary: pc' s' rule: rtranclp_induct)
  case base
  with assms(3) show ?case by (metis list_update_id rtranclp.rtrancl_refl)
next
  case (step y pc'' s'')
  obtain pc' s' where y: "y = (pc', s')" by (cases y)
  with step obtain reply where "writer_step (e_path E) data reply (pc', s') = Some (pc'', s'')" by (auto simp: calls_def)
  then have "writers_step E (ws[i := Writing data pc'], s') (ws[i := Writing data pc''], s'')"
    using one_call [of i "ws[i := Writing data pc']" data pc' E reply s' pc'' s''] assms(2) by simp
  with step(3) [OF y] show ?case by (rule rtranclp.rtrancl_into_rtrancl)
qed

lemma writeStep_files:
  "writeStep E q d w = (r, n, w') \<Longrightarrow> files w q = Some c \<Longrightarrow>
   files w' = (if r = None then (files w)(q := Some (c @ take n d)) else files w) \<and> n \<le> length d"
  by (auto simp: writeStep_def Let_def split: option.splits)

lemma readExistingEntries_files: "readExistingEntries E w = (ex, w') \<Longrightarrow> files w' = files w"
  by (rule ext) (rule io_untouched [OF readExistingEntries_quiet], auto simp: quiet_def)

text \<open>The writer's side of the loop: it ends where the loop of \<open>Write\<close> ends.\<close>

definition loop_ends :: "string \<Rightarrow> string \<Rightarrow> string \<Rightarrow> 'z world_scheme \<Rightarrow> bool \<times> 'z world_scheme \<Rightarrow> bool" where
  "loop_ends path data remaining w res \<longleftrightarrow> (\<forall>s i. fs_wf s \<longrightarrow> contents_of s = files w \<longrightarrow> dir s (path @ ''.tmp'') = Some i \<longrightarrow>
     (\<exists>s'. (calls path data)\<^sup>*\<^sup>* (WriteData i (length (inodes s i)) remaining, s)
        (if fst res then CloseFailed else SyncTmp, s') \<and> fs_wf s' \<and> contents_of s' = files (snd res) \<and> dir s' = dir s))"

lemma loop_ends_empty: "loop_ends path data '''' w (False, w)"
proof -
  have "calls path data (WriteData i off '''', s) (SyncTmp, s)" for i off s
    by (rule callsI [where reply = "Accepts 0"]) simp
  then show ?thesis unfolding loop_ends_def by (auto intro!: exI r_into_rtranclp)
qed

lemma loop_ends_failed:
  assumes "writeStep E q d w = (Some e, n, w1)" "e \<noteq> EINTR" "d \<noteq> ''''" "q = path @ ''.tmp''"
  shows "loop_ends path data d w (True, w1)"
  unfolding loop_ends_def
proof (intro allI impI)
  fix s i
  assume s: "fs_wf s" "contents_of s = files w" "dir s (path @ ''.tmp'') = Some i"
  then have "files w q = Some (inodes s i)" using assms(4) by (metis contents_of_def option.simps(9))
  from writeStep_files [OF assms(1) this] have f: "files w1 = files w" by simp
  have "calls path data (WriteData i (length (inodes s i)) d, s) (CloseFailed, s)"
    using assms(2,3) by (intro callsI [where reply = "Fails e"]) simp
  with s f show "\<exists>s'. (calls path data)\<^sup>*\<^sup>* (WriteData i (length (inodes s i)) d, s)
        (if fst (True, w1) then CloseFailed else SyncTmp, s') \<and> fs_wf s' \<and> contents_of s' = files (snd (True, w1)) \<and> dir s' = dir s"
    by auto
qed

lemma loop_ends_next:
  assumes st: "writeStep E q d w = (r, n, w1)" and d: "d \<noteq> ''''" "q = path @ ''.tmp''"
    and r: "r = None \<and> d' = drop n d \<or> r = Some EINTR \<and> d' = d"
    and rest: "loop_ends path data d' w1 res"
  shows "loop_ends path data d w res"
  unfolding loop_ends_def
proof (intro allI impI)
  fix s i
  assume s: "fs_wf s" "contents_of s = files w" "dir s (path @ ''.tmp'') = Some i"
  then have c: "files w q = Some (inodes s i)" using d(2) by (metis contents_of_def option.simps(9))
  note f = writeStep_files [OF st c]
  let ?s1 = "if r = None then s\<lparr>inodes := (inodes s)(i := inodes s i @ take n d)\<rparr> else s"
  have n: "n \<le> length d" using f by simp
  have "calls path data (WriteData i (length (inodes s i)) d, s) (WriteData i (length (inodes ?s1 i)) d', ?s1)"
    using r d(1) n
    by (intro callsI [where reply = "if r = None then Accepts n else Fails EINTR"]) (auto simp: Let_def min_def)
  moreover have s1: "fs_wf ?s1" "contents_of ?s1 = files w1" "dir ?s1 (path @ ''.tmp'') = Some i" "dir ?s1 = dir s"
    using s f contents_write [OF s(1,3)] d(2) by auto
  moreover obtain s' where "(calls path data)\<^sup>*\<^sup>* (WriteData i (length (inodes ?s1 i)) d', ?s1)
        (if fst res then CloseFailed else SyncTmp, s')" "fs_wf s'" "contents_of s' = files (snd res)" "dir s' = dir ?s1"
    using rest [unfolded loop_ends_def, rule_format, OF s1(1-3)] by blast
  ultimately have "(calls path data)\<^sup>*\<^sup>* (WriteData i (length (inodes s i)) d, s)
        (if fst res then CloseFailed else SyncTmp, s') \<and> fs_wf s' \<and> contents_of s' = files (snd res) \<and> dir s' = dir s"
    by (simp add: converse_rtranclp_into_rtranclp)
  then show "\<exists>s'. (calls path data)\<^sup>*\<^sup>* (WriteData i (length (inodes s i)) d, s)
        (if fst res then CloseFailed else SyncTmp, s') \<and> fs_wf s' \<and> contents_of s' = files (snd res) \<and> dir s' = dir s"
    by blast
qed

lemma writeLoop_run:
  assumes "writeLoop E (path @ ''.tmp'') remaining w = Some res"
  shows "loop_ends path data remaining w res"
proof -
  have "path @ ''.tmp'' = path @ ''.tmp'' \<longrightarrow> loop_ends path data remaining w res"
  proof (rule writeLoop.raw_induct [where P = "\<lambda>E q d w res. q = path @ ''.tmp'' \<longrightarrow> loop_ends path data d w res", OF _ assms])
    fix loop E q d w res
    assume IH: "\<And>E q d w res. loop E q d w = Some res \<Longrightarrow> q = path @ ''.tmp'' \<longrightarrow> loop_ends path data d w res"
      and eq: "(if d = '''' then Some (False, w)
        else case writeStep E q d w of
          (Some e, _, w1) \<Rightarrow> if e = EINTR then loop E q d w1 else Some (True, w1)
        | (None, n, w1) \<Rightarrow> loop E q (drop n d) w1) = Some res"
    obtain r n w1 where st: "writeStep E q d w = (r, n, w1)" by (metis prod_cases3)
    show "q = path @ ''.tmp'' \<longrightarrow> loop_ends path data d w res"
    proof
      assume q: "q = path @ ''.tmp''"
      consider "d = ''''" | "d \<noteq> ''''" "r = None" | "d \<noteq> ''''" "r = Some EINTR"
        | e where "d \<noteq> ''''" "r = Some e" "e \<noteq> EINTR" by (cases r) auto
      then show "loop_ends path data d w res"
      proof cases
        case 1
        with eq loop_ends_empty [of path data w] show ?thesis by auto
      next
        case 2
        with eq st IH q loop_ends_next [OF st] show ?thesis by auto
      next
        case 3
        with eq st IH q loop_ends_next [OF st] show ?thesis by auto
      next
        case 4
        with eq st have "res = (True, w1)" by simp
        with loop_ends_failed [OF _ 4(3,1) q] st 4 show ?thesis by simp
      qed
    qed
  qed
  then show ?thesis by simp
qed


lemma remove_reply:
  assumes "fsCall E (FsRemove q) w = (x, w')" "contents_of s = files w"
  shows "contents_of (case (if x = None then Accepts 0 else Fails EINTR) of
    Accepts n \<Rightarrow> remove_name q s | Fails e \<Rightarrow> s) = files w'"
  using fsCall_files [OF assms(1)] assms(2) by (cases x) auto

lemma commitFile_run:
  assumes cm: "commitFile E w = (r, w')" and s: "fs_wf s" "contents_of s = files w"
  shows "\<exists>s'. (calls (e_path E) data)\<^sup>*\<^sup>* (SyncTmp, s) (Returned r, s') \<and> contents_of s' = files w'"
proof -
  let ?p = "e_path E" and ?t = "e_path E @ ''.tmp''"
  obtain x1 w1 where s1: "fsCall E (FsFsync ?t) w = (x1, w1)" by fastforce
  obtain x2 w2 where s2: "fsCall E (FsClose ?t) w1 = (x2, w2)" by fastforce
  obtain x3 w3 where s3: "fsCall E (FsRename ?t ?p) w2 = (x3, w3)" by fastforce
  obtain x4 w4 where s4: "fsCall E (FsRemove ?t) w3 = (x4, w4)" by fastforce
  obtain y4 v4 where t4: "fsCall E (FsOpenDir (parentDir ?p)) w3 = (y4, v4)" by fastforce
  obtain y5 v5 where t5: "fsCall E (FsFsync (parentDir ?p)) v4 = (y5, v5)" by fastforce
  obtain y6 v6 where t6: "fsCall E (FsClose (parentDir ?p)) v5 = (y6, v6)" by fastforce
  have f2: "files w2 = files w" using fsCall_files [OF s1] fsCall_files [OF s2] by (simp split: if_splits)
  have c1: "(calls ?p data)\<^sup>*\<^sup>* (SyncTmp, s) (RenameTmp, s)"
    using callsI [of ?p data "Accepts 0" "(SyncTmp, s)"] callsI [of ?p data "Accepts 0" "(CloseTmp, s)"] by auto
  show ?thesis
  proof (cases "x3 = None")
    case True
    have "files w2 ?t \<noteq> None" using s3 True by (auto simp: fsCall_def Let_def split: option.splits if_splits)
    then have ct: "contents_of s ?t \<noteq> None" using s(2) f2 by simp
    then obtain i where i: "dir s ?t = Some i" by (auto simp: contents_of_def)
    let ?s = "s\<lparr>dir := (dir s)(?t := None, ?p := Some i)\<rparr>"
    have "calls ?p data (RenameTmp, s) (OpenDir, ?s)" by (rule callsI [where reply = "Accepts 0"]) (simp add: i)
    moreover have "calls ?p data (OpenDir, ?s) (Returned ERROR_NONE, ?s)" by (rule callsI [where reply = "Fails EINTR"]) simp
    moreover have "contents_of ?s = files w3"
      unfolding rename_result(2) [OF s(1) i tmp_neq(1)]
      using fsCall_files [OF s3] True ct s(2) f2 by auto
    moreover have "r = ERROR_NONE \<and> files w' = files w3"
      using cm s1 s2 s3 t4 t5 t6 True fsCall_files [OF t4] fsCall_files [OF t5] fsCall_files [OF t6]
      by (auto simp: commitFile_def tmpPath_def Let_def split: if_splits)
    ultimately show ?thesis using c1 by (metis (no_types) rtranclp.rtrancl_into_rtrancl)
  next
    case False
    have f3: "files w3 = files w" using fsCall_files [OF s3] False f2 by simp
    let ?reply = "if x4 = None then Accepts 0 else Fails EINTR"
    let ?s = "case ?reply of Accepts n \<Rightarrow> remove_name ?t s | Fails e \<Rightarrow> s"
    have "calls ?p data (RenameTmp, s) (RemoveTmp, s)" by (rule callsI [where reply = "Fails EINTR"]) simp
    moreover have "calls ?p data (RemoveTmp, s) (Returned ERROR_GENERAL, ?s)" by (rule callsI [where reply = ?reply]) simp
    moreover have "contents_of ?s = files w4" using remove_reply [OF s4] s(2) f3 by simp
    moreover have "r = ERROR_GENERAL \<and> w' = w4"
      using cm s1 s2 s3 s4 False by (auto simp: commitFile_def tmpPath_def Let_def)
    ultimately show ?thesis using c1 by (metis (no_types) rtranclp.rtrancl_into_rtrancl)
  qed
qed


text \<open>After a failed write: close, then remove the temporary file.\<close>

lemma failed_write_run:
  assumes s: "contents_of s = files w" and cl: "fsCall E (FsClose (p @ ''.tmp'')) w = (x, w1)"
    and rm: "fsCall E (FsRemove (p @ ''.tmp'')) w1 = (x', w')"
  shows "\<exists>s'. (calls p data)\<^sup>*\<^sup>* (CloseFailed, s) (Returned ERROR_GENERAL, s') \<and> contents_of s' = files w'"
proof -
  let ?reply = "if x' = None then Accepts 0 else Fails EINTR"
  let ?s = "case ?reply of Accepts n \<Rightarrow> remove_name (p @ ''.tmp'') s | Fails e \<Rightarrow> s"
  have "calls p data (CloseFailed, s) (RemoveFailed, s)" by (rule callsI [where reply = "Accepts 0"]) simp
  moreover have "calls p data (RemoveFailed, s) (Returned ERROR_GENERAL, ?s)" by (rule callsI [where reply = ?reply]) simp
  moreover have "contents_of ?s = files w'" using remove_reply [OF rm, of s] s fsCall_files [OF cl] by simp
  ultimately show ?thesis by (meson converse_rtranclp_into_rtranclp r_into_rtranclp)
qed

lemma Write_run:
  assumes wr: "Write E deviceCache w = Some (r, w')" and s: "fs_wf s" "contents_of s = files w"
    and data: "data = writePayload E (fst (readExistingEntries E w)) deviceCache"
  shows "\<exists>s'. (calls (e_path E) data)\<^sup>*\<^sup>* (OpenTmp, s) (Returned r, s') \<and> contents_of s' = files w'"
proof -
  let ?p = "e_path E" and ?t = "e_path E @ ''.tmp''"
  obtain ex w1 where rd: "readExistingEntries E w = (ex, w1)" by fastforce
  obtain fd w2 where op: "fsCall E (FsOpenTrunc ?t) w1 = (fd, w2)" by fastforce
  have f1: "files w1 = files w" using rd by (rule readExistingEntries_files)
  have d: "data = writePayload E ex deviceCache" using data rd by simp
  show ?thesis
  proof (cases fd)
    case (Some e)
    have "calls ?p data (OpenTmp, s) (Returned ERROR_GENERAL, s)" by (rule callsI [where reply = "Fails e"]) simp
    moreover have "r = ERROR_GENERAL" "w' = w2" using wr rd op Some by (auto simp: Write_def tmpPath_def)
    moreover have "files w2 = files w" using fsCall_files [OF op] Some f1 by simp
    ultimately show ?thesis using s(2) by (metis r_into_rtranclp)
  next
    case None
    obtain i s1 where o: "open_trunc ?t s = (i, s1)" by fastforce
    note o1 = open_trunc_result [OF s(1) o]
    have c1: "contents_of s1 = files w2" using o1 fsCall_files [OF op] None f1 s(2) by simp
    have "calls ?p data (OpenTmp, s) (WriteData i 0 data, s1)" by (rule callsI [where reply = "Accepts 0"]) (simp add: o)
    moreover from wr rd op None d obtain err w3 where lp: "writeLoop E ?t data w2 = Some (err, w3)"
      and rest: "if err then (\<exists>x4 w4 x5. fsCall E (FsClose ?t) w3 = (x4, w4) \<and> fsCall E (FsRemove ?t) w4 = (x5, w') \<and> r = ERROR_GENERAL)
        else commitFile E w3 = (r, w')"
      by (auto simp: Write_def tmpPath_def Let_def split: if_splits prod.splits elim!: bind_SomeE)
    moreover obtain s3 where "(calls ?p data)\<^sup>*\<^sup>* (WriteData i 0 data, s1) (if err then CloseFailed else SyncTmp, s3)"
      and s3: "fs_wf s3" "contents_of s3 = files w3"
      using writeLoop_run [OF lp, of data, unfolded loop_ends_def, rule_format, of s1 i] o1 c1 by auto
    ultimately have run: "(calls ?p data)\<^sup>*\<^sup>* (OpenTmp, s) (if err then CloseFailed else SyncTmp, s3)"
      by (meson converse_rtranclp_into_rtranclp)
    show ?thesis
    proof (cases err)
      case False
      then obtain s' where "(calls ?p data)\<^sup>*\<^sup>* (SyncTmp, s3) (Returned r, s')" "contents_of s' = files w'"
        using commitFile_run [OF _ s3, of E r w' data] rest by auto
      moreover have "(calls ?p data)\<^sup>*\<^sup>* (OpenTmp, s) (SyncTmp, s3)" using run False by simp
      ultimately show ?thesis using rtranclp_trans by metis
    next
      case True
      then obtain x4 w4 x5 where cl: "fsCall E (FsClose ?t) w3 = (x4, w4)" and rm: "fsCall E (FsRemove ?t) w4 = (x5, w')"
        and r: "r = ERROR_GENERAL" using rest by auto
      obtain s' where "(calls ?p data)\<^sup>*\<^sup>* (CloseFailed, s3) (Returned r, s')" "contents_of s' = files w'"
        using failed_write_run [OF s3(2) cl rm] r by blast
      moreover have "(calls ?p data)\<^sup>*\<^sup>* (OpenTmp, s) (CloseFailed, s3)" using run True by simp
      ultimately show ?thesis using rtranclp_trans by metis
    qed
  qed
qed

text \<open>What \<open>Write\<close> reads is what one of the replies gives.\<close>

lemma reading_reply:
  "\<exists>reply. fst (readExistingEntries E w) = existingOf E (files w (e_path E)) reply"
proof -
  let ?p = "e_path E"
  obtain op w1 where op: "fsCall E (FsOpenRead ?p) w = (op, w1)" by fastforce
  obtain size w2 where sz: "fileSize E ?p w1 = (size, w2)" by fastforce
  obtain buffer bad w3 where rd: "readAll E ?p w2 = (buffer, bad, w3)" by (metis prod_cases3)
  have none: "existingOf E c (Fails EINTR) = []" for c by (simp add: existingOf_def split: option.split)
  consider "op \<noteq> None \<or> size < 0" | "op = None" "0 \<le> size" by (cases "op = None") force+
  then show ?thesis
  proof cases
    case 1
    then have "fst (readExistingEntries E w) = []"
      using op sz rd by (cases op) (auto simp: readExistingEntries_def split: if_splits)
    with none show ?thesis by metis
  next
    case 2
    have fn: "files w ?p \<noteq> None" using op 2(1) by (auto simp: fsCall_def Let_def split: option.splits if_splits)
    then obtain c where c: "files w ?p = Some c" by auto
    have f1: "files w1 = files w" using fsCall_files [OF op] by (simp split: if_splits)
    then have size: "size = int (length c)" using sz 2(2) c
      by (auto simp: fileSize_def contents_def Let_def case_prod_beta split: if_splits)
    have "files w2 = files w1" using sz by (auto simp: fileSize_def dest: fsCall_files split: prod.splits if_splits)
    then obtain n where "buffer = take n c" using rd c f1
      by (auto simp: readAll_def contents_def Let_def split: prod.splits if_splits intro: take_all [symmetric])
    then have "fst (readExistingEntries E w) = existingOf E (files w ?p) (Accepts n)"
      using op sz rd 2 c size by (simp add: readExistingEntries_def existingOf_def)
    then show ?thesis ..
  qed
qed

text \<open>A whole \<open>Write\<close> of one thread of a pool, the mutex being free.\<close>

lemma Write_in_pool:
  assumes "Write E deviceCache w = Some (r, w')" "fs_wf s" "contents_of s = files w"
    and "i < length ws" "ws ! i = Waiting deviceCache" "\<forall>x \<in> set ws. \<not> holding x"
    and "data = writePayload E (fst (readExistingEntries E w)) deviceCache"
  shows "\<exists>s'. (writers_step E)\<^sup>*\<^sup>* (ws, s) (ws[i := Writing data OpenTmp], s) \<and>
    (writers_step E)\<^sup>*\<^sup>* (ws[i := Writing data OpenTmp], s) (ws[i := Left r], s') \<and> contents_of s' = files w'"
proof -
  obtain s' where run: "(calls (e_path E) data)\<^sup>*\<^sup>* (OpenTmp, s) (Returned r, s')" and c: "contents_of s' = files w'"
    using Write_run [OF assms(1,2,3,7)] by blast
  obtain reply where d: "data = writePayload E (existingOf E (contents_of s (e_path E)) reply) deviceCache"
    using reading_reply [of E w] assms(3,7) by auto
  have "writers_step E (ws, s) (ws[i := Reading deviceCache], s)" using lock_mutex assms(4-6) by blast
  moreover have "writers_step E (ws[i := Reading deviceCache], s) (ws[i := Writing data OpenTmp], s)"
    using read_file [of i "ws[i := Reading deviceCache]" deviceCache data E s reply] assms(4) d by simp
  ultimately have 1: "(writers_step E)\<^sup>*\<^sup>* (ws, s) (ws[i := Writing data OpenTmp], s)"
    by (meson converse_rtranclp_into_rtranclp r_into_rtranclp)
  have "(writers_step E)\<^sup>*\<^sup>* (ws[i := Writing data OpenTmp], s) (ws[i := Writing data (Returned r)], s')"
    using calls_in_pool [OF run, of i "ws[i := Writing data OpenTmp]"] assms(4) by simp
  moreover have "writers_step E (ws[i := Writing data (Returned r)], s') (ws[i := Left r], s')"
    using unlock_mutex [of i "ws[i := Writing data (Returned r)]" data r E s'] assms(4) by simp
  ultimately show ?thesis using 1 c by (meson rtranclp.rtrancl_into_rtrancl)
qed

lemma Write_is_one_writer:
  assumes "Write E deviceCache w = Some (r, w')" "fs_wf s" "contents_of s = files w"
    and "data = writePayload E (fst (readExistingEntries E w)) deviceCache"
  shows "(\<exists>s'. (writers_step E)\<^sup>*\<^sup>* ([Waiting deviceCache], s) ([Writing data OpenTmp], s) \<and>
      (writers_step E)\<^sup>*\<^sup>* ([Writing data OpenTmp], s) ([Left r], s') \<and> contents_of s' = files w') \<and>
    (\<forall>ws s'. (writers_step E)\<^sup>*\<^sup>* ([Writing data OpenTmp], s) (ws, s') \<longrightarrow>
       contents_of s' (e_path E) \<in> {files w (e_path E), Some data})"
  using Write_in_pool [OF assms(1-3), of 0 "[Waiting deviceCache]" data] one_writer_atomic [OF _ assms(2)] assms(3,4)
  by auto

end
