(* ===== verification/SamplePlugin.thy ===== *)
theory SamplePlugin
  imports SampleRuns RequestFacts CrashRecovery Races PluginRaces WritersCorrect
begin

section \<open>The plugin on the concrete platform\<close>

text \<open>
  A running plugin on the platform of theory SampleEnv, migrated and with the headphones in
  its registry, and runs of the machines there: the concrete inputs of the witnesses.
\<close>

lemma sample_registry_run:
  assumes "\<And>op (s :: dmgr). op \<in> set ops \<Longrightarrow> dm_enabled sampleEnv op s"
  shows "\<exists>w'. run (dm_enabled sampleEnv) (registry_step sampleEnv) ops w = Some w'"
  using assms by (intro run_total registry_step_total [OF sample_retries])

lemma plugin0_fields [simp]:
  "trace (plugin0 f) = []" "files (plugin0 f) = f" "\<not> service (plugin0 f)" "\<not> isMigrated (plugin0 f)"
  "\<not> discoveryRunning (plugin0 f)"
  by (simp_all add: plugin0_def Bluetooth_ctor_def)

definition samplePlugin :: plugin where
  "samplePlugin = (plugin0 asFiles)\<lparr>trace := trace migrated, service := True,
     pairedDeviceCache := sampleCache, isMigrated := True\<rparr>"

lemma samplePlugin_fields [simp]:
  "trace samplePlugin = trace migrated" "files samplePlugin = asFiles" "service samplePlugin"
  "pairedDeviceCache samplePlugin = sampleCache" "isMigrated samplePlugin"
  "\<not> discoveryRunning samplePlugin" "discoveryTimer samplePlugin = None" "instanceSet samplePlugin"
  by (simp_all add: samplePlugin_def plugin0_def Bluetooth_ctor_def)

lemma samplePlugin_inv [simp]: "plugin_inv samplePlugin"
  using migrated_inv(1) by (simp add: plugin_inv_def scan_ok_def registry_inv_def)

lemma sample_plugin_step: "\<exists>w'. plugin_step sampleEnv op w = Some w'"
  using plugin_step_total [OF sample_retries, of op w] by simp

lemma sample_plugin_run:
  assumes "\<And>op s. op \<in> set ops \<Longrightarrow> plugin_enabled sampleEnv op s"
  shows "\<exists>w'. run (plugin_enabled sampleEnv) (plugin_step sampleEnv) ops w = Some w'"
  using assms by (intro run_total plugin_step_total [OF sample_retries])


text \<open>The same plugin, with its list of timer entries.\<close>

definition sampleProcess :: process where
  "sampleProcess = plugin.extend samplePlugin \<lparr>moreTimers = []\<rparr>"

lemma sampleProcess_fields [simp]:
  "trace sampleProcess = trace migrated" "files sampleProcess = asFiles" "service sampleProcess"
  "pairedDeviceCache sampleProcess = sampleCache" "isMigrated sampleProcess" "\<not> discoveryRunning sampleProcess"
  "discoveryTimer sampleProcess = None" "instanceSet sampleProcess" "moreTimers sampleProcess = []"
  "timerEntries sampleProcess = []"
  by (simp_all add: sampleProcess_def plugin.extend_def samplePlugin_def plugin0_def Bluetooth_ctor_def timerEntries_def)

lemma sampleProcess_inv [simp]: "registry_inv sampleProcess"
  using migrated_inv(1) by (simp add: registry_inv_def)

text \<open>The parameters of a request for one device, and of one that starts a scan.\<close>

lemma sample_device_param: "stoll k = Inr n \<Longrightarrow> deviceIDParam sampleEnv [(''deviceID'', JStr k)] = Id k n"
  by (simp add: deviceIDParam_def sampleEnv_def um_find_def)

lemma sample_timeout_param: "e_getNumber sampleEnv [(''timeout'', JNum n)] ''timeout'' d = n"
  by (simp add: sampleEnv_def um_find_def)

lemma sample_store_works [simp]: "store_works sampleEnv"
  by (simp add: store_works_def)


subsection \<open>The build without migration\<close>

lemma plainEnv_simps [simp]:
  "\<not> e_migration plainEnv" "e_paired plainEnv tr = [headphones, keyboard]" "e_storeUp plainEnv tr"
  "e_storeSet plainEnv tr k v = ERROR_NONE" "e_bt plainEnv tr c = BTRMGR_RESULT_SUCCESS"
  "iterates_all plainEnv" "store_faithful plainEnv" "bounded_retries plainEnv (\<lambda>tr. 0)"
  by (simp_all add: plainEnv_def iterates_all_def bounded_retries_def no_progress_def)
    (rule sample_faithful_get, simp)

lemma sample_initPlain: "\<exists>w'. init plainEnv True (restart migrated) = Some (ERROR_NONE, w')"
proof -
  let ?v = "emit EvShellAddRef ((restart migrated)\<lparr>service := True\<rparr>)"
  obtain w1 where up: "updateCacheFromStorage plainEnv ?v = (ERROR_NONE, w1)" and s1: "service w1"
    using updateCacheFromStorage_loads [of plainEnv ?v "storedPayload sampleEnv sampleCache"]
    by (auto simp: store_step_def)
  obtain w2 where dv: "updateCacheFromDevice plainEnv False w1 = (ERROR_NONE, w2)" and s2: "service w2"
    using s1 by (auto simp: updateCacheFromDevice_def btCall_def)
  obtain r w3 where wr: "writeStorageFromCache plainEnv w2 = Some (r, w3)"
    using writeStorage_total [of plainEnv "\<lambda>tr. 0" w2] by auto
  have "r = ERROR_NONE" using writeStorage_succeeds [OF wr s2] by simp
  with up dv wr show ?thesis by (simp add: init_def initPlainBuild_def storageFailed_def)
qed

lemma sample_ids [simp]: "deviceId headphones = ''42''" "deviceId keyboard = ''77''"
  by (simp_all add: deviceId_def headphones_def keyboard_def to_string_ull_def) code_simp+


subsection \<open>A scan\<close>

lemma sample_startDiscovery:
  assumes "\<not> discoveryRunning w" "startDeviceDiscovery sampleEnv 5 p w = (s, w')"
  shows "s = STATUS_AVAILABLE \<and> discoveryRunning w' \<and> discoveryTimer w' = Some 5000"
  using startDeviceDiscovery_outcome [OF assms(2)] assms(1) by (auto simp: milliseconds_def int_max_def)

lemma sample_scan:
  "\<exists>w. plugin_step sampleEnv (Request ''startScan'' [(''timeout'', JNum 5)]) (plugin0 f) = Some w \<and> discoveryRunning w"
proof -
  obtain s w where st: "startDeviceDiscovery sampleEnv 5 defaultProfile (plugin0 f) = (s, w)" by fastforce
  have "e_getNumber sampleEnv [(''timeout'', JNum 5)] ''timeout'' (- 1) = 5"
    by (simp add: sampleEnv_def um_find_def)
  then have "plugin_step sampleEnv (Request ''startScan'' [(''timeout'', JNum 5)]) (plugin0 f) = Some w"
    using st by (simp add: invoke_def methodTable_def startScanWrapper_def stringParam_def)
  with sample_startDiscovery [OF _ st] show ?thesis by (simp add: plugin0_def Bluetooth_ctor_def)
qed


subsection \<open>A start\<close>

lemma sample_stop_headphones:
  "connectionCall sampleEnv (m_deviceHandle sampleConnected) False (typeName sampleEnv (m_deviceType sampleConnected)) =
    StopAudioStreamingOut 42"
  by (simp add: connectionCall_def isHidType_def hidProfile_def typeName_def sampleConnected_def HID_def) code_simp

lemma sample_init_unmigrated:
  assumes "store_contents (trace w) MARKER = None"
  shows "\<exists>w'. init sampleEnv True w = Some (ERROR_NONE, w') \<and> \<not> isMigrated w'"
proof -
  let ?v = "emit EvShellAddRef (w\<lparr>service := True\<rparr>)"
  obtain v w' where "readMigrationVersionFromStorage sampleEnv ?v = (ERROR_NOT_EXIST, v, w')"
    using sample_readVersion [of ?v] assms by (auto simp: store_step_def)
  then show ?thesis by (simp add: init_def initMigrationBuild_def Let_def)
qed

lemma sample_Initialize:
  "\<exists>w'. Initialize sampleEnv True (plugin0 asFiles) = Some ('''', w') \<and> \<not> isMigrated w'"
proof -
  let ?w1 = "emit EvIarmInit (registerMethods sampleEnv (plugin0 asFiles))"
  obtain rc2 w2 where b2: "btCall sampleEnv RegisterForCallbacks ?w1 = (rc2, w2)" by fastforce
  obtain rc3 w3 where b3: "btCall sampleEnv RegisterEventCallback w2 = (rc3, w3)" by fastforce
  have "fold store_step (map EvRegisterMethod ns) m = m" for ns m
    by (induction ns) (simp_all add: store_step_def)
  then have "store_contents (trace (registerMethods sampleEnv (plugin0 asFiles))) MARKER = None"
    by (subst registerMethods_exact) (simp add: store_contents_def plugin0_def Bluetooth_ctor_def)
  then have c3: "store_contents (trace w3) MARKER = None" and u3: "\<not> isMigrated w3"
    using btCall_trace [OF b2] btCall_trace [OF b3] btCall_plugin_fields [OF b2] btCall_plugin_fields [OF b3]
    by (simp_all add: store_contents_append store_step_def registerMethods_def Let_def fold_emit_fields
        plugin0_def Bluetooth_ctor_def)
  obtain w4 where pm: "acquirePowerManager sampleEnv w3 = Some w4"
    and c4: "store_contents (trace w4) MARKER = None"
    using c3 u3 by (simp add: acquirePowerManager_def onPowerModeChanged_unmigrated store_contents_append store_step_def)
  obtain w5 where it: "init sampleEnv True w4 = Some (ERROR_NONE, w5)" and u5: "\<not> isMigrated w5"
    using sample_init_unmigrated [OF c4] by blast
  obtain w6 where dc: "disconnectExternallyConnectedDevices sampleEnv w5 = Some w6" and c6: "isMigrated w6 = isMigrated w5"
    using disconnectExternally_calls [of sampleEnv w5] only_calls_fields(2) by fastforce
  show ?thesis using b2 b3 pm it dc c6 u5 btCall_trace [OF b2] by (auto simp: Initialize_def)
qed


subsection \<open>Events\<close>

definition sampleExternal :: external_device where
  "sampleExternal = \<lparr>m_deviceHandle = 42, m_name = ''Cans'', m_deviceAddress = ''AA:01'', m_deviceType = 1,
     m_ui32DevClassBtSpec = 0, m_ui16DevAppearanceBleSpec = 0, ed_vendorID = 0, ed_profiles = [],
     ed_externalDevicePIN = 0\<rparr>"

definition sampleMessage :: "BTRMGR_Events \<Rightarrow> BTRMGR_EventMessage" where
  "sampleMessage ev = \<lparr>m_eventType = ev, m_discoveredDevice = sampleDiscovered, m_pairedDevice = headphones,
     m_externalDevice = sampleExternal,
     m_mediaInfo = \<lparr>mi_deviceHandle = 42, mi_name = ''Cans'', mi_deviceType = 1, mi_mediaPosition = 0,
       mi_mediaDuration = 0, mi_track = e_mediaTrack sampleEnv [] 42, mi_ui8mediaDevVolume = 0,
       mi_ui8mediaDevMute = 0, mi_enmediaCtrlCmd = BTRMGR_MEDIA_CTRL_PLAY\<rparr>\<rparr>"

lemma sampleMessage_fields [simp]:
  "m_eventType (sampleMessage ev) = ev" "m_externalDevice (sampleMessage ev) = sampleExternal"
  "deviceId sampleExternal = ''42''" "m_deviceHandle sampleExternal = 42" "m_deviceType sampleExternal = 1"
  by (simp_all add: sampleMessage_def sampleExternal_def deviceId_def to_string_ull_def) code_simp

lemma sample_compares [simp]: "compares_words sampleEnv"
  by (simp add: compares_words_def) code_simp

lemma sample_42: "stoll ''42'' = Inr 42" "handle_of 42 = 42" "to_string_ull 42 = ''42''" "to_string_ll 42 = ''42''"
  by code_simp+


subsection \<open>The files as inodes\<close>

definition sampleFs :: fsys where
  "sampleFs = \<lparr>inodes = (\<lambda>i. asFile), dir = (\<lambda>p. if p = ''/opt/bt.json'' then Some 0 else None), next_inode = 1\<rparr>"

lemma sampleFs_facts [simp]:
  "fs_wf sampleFs" "contents_of sampleFs = asFiles" "dir sampleFs ''/opt/bt.json.tmp'' = None"
  by (auto simp: sampleFs_def fs_wf_def contents_of_def asFiles_def sampleFiles_def fun_eq_iff split: if_splits)

text \<open>Two threads that write one after the other.\<close>

lemma sample_two_writes:
  "\<exists>s'. (writers_step sampleEnv)\<^sup>*\<^sup>* (map Waiting [sampleCache, []], sampleFs) ([Left ERROR_NONE, Left ERROR_NONE], s')"
proof -
  let ?ws = "map Waiting [sampleCache, []]"
  obtain w1 where w1: "Write sampleEnv sampleCache migrated = Some (ERROR_NONE, w1)" using sample_Write by blast
  obtain r w2 where "Write sampleEnv [] w1 = Some (r, w2)" using Write_total [OF sample_retries] by fastforce
  then have w2: "Write sampleEnv [] w1 = Some (ERROR_NONE, w2)" using Write_succeeds [OF sample_no_faults] by blast
  from Write_in_pool [OF w1, of sampleFs 0 ?ws] obtain s1 where
    a: "(writers_step sampleEnv)\<^sup>*\<^sup>* (?ws, sampleFs) ([Left ERROR_NONE, Waiting []], s1)" and c: "contents_of s1 = files w1"
    by (auto dest: rtranclp_trans)
  have "fs_wf s1" using writers_reach [OF a writers_inv_start] by (simp add: writers_inv_def)
  from Write_in_pool [OF w2 this c, of 1 "[Left ERROR_NONE, Waiting []]"] obtain s2 where
    "(writers_step sampleEnv)\<^sup>*\<^sup>* ([Left ERROR_NONE, Waiting []], s1) ([Left ERROR_NONE, Left ERROR_NONE], s2)"
    by (auto dest: rtranclp_trans)
  with a show ?thesis using rtranclp_trans by metis
qed

end
