(* ===== verification/Spec2Isabelle.thy ===== *)
theory Spec2Isabelle
  imports SamplePlugin
begin

text \<open>
  This library models the Bluetooth plugin of entservices-connectivity, the C++ code under
  \<open>src/Bluetooth\<close>: a plugin of the Thunder framework that offers the Bluetooth manager BTRMGR
  to clients over JSON-RPC and keeps metadata of the paired devices (autoconnect, time of the
  last connection, volume). The header names the parts of the program, the theories that model
  them, what the lemmas show, the hypotheses on the platform, and what is left out.

  The program. Three classes, each holding the next:

  \<^item> \<open>Bluetooth\<close> (\<open>Bluetooth.cpp\<close>, \<open>Bluetooth.h\<close>): the plugin. It registers 27 JSON-RPC methods,
    turns them into BTRMGR calls, turns BTRMGR events into notifications, reacts to power mode
    changes, and runs a discovery that a timer ends.
  \<^item> \<open>BluetoothDeviceManager\<close>: the registry, a cache from device ids to records, kept in the
    PersistentStore service as a JSON array. In the build with
    \<open>BLUETOOTH_ENABLE_PERSISTENCE_MIGRATION\<close> the registry starts empty until a client asks for a
    migration, which imports a legacy file (the AS file) and stores a marker; from then on every
    change is also written back to that file, so that a rollback finds it up to date.
  \<^item> \<open>BluetoothPersistenceAdapter\<close>: reads that file and replaces it atomically.

  The platform. BTRMGR, the PersistentStore, the PowerManager, Thunder's JSON classes and timers
  and the failures of the operating system are not in the repository. They are the fields of the
  record \<open>env\<close> (theory Platform), a parameter \<open>E\<close> of every definition: each external call is
  answered by a function of the whole history of external calls so far, which is as general as any
  stateful environment. The state of the model is a chain of records: \<open>world\<close> (the history
  \<open>trace\<close> and the \<open>files\<close>), \<open>dmgr\<close> (the fields of the registry), \<open>plugin\<close> (those of the plugin).
  An operation that may not return gives None; every error return, exception and early return of
  the code is a value. What the code relies on of the platform is stated by named predicates:
  \<open>json_accessors\<close>, \<open>payload_ok\<close> and \<open>stored_ok\<close> (JSON values are read back as written),
  \<open>iterates_all\<close> (iterating an \<open>unordered_map\<close> visits each entry once), \<open>store_faithful\<close> and
  \<open>deletes_truthfully\<close> (the store returns what was stored), \<open>no_faults\<close> (file calls succeed),
  \<open>compares_words\<close>, and \<open>bounded_retries\<close> (a write is interrupted, or accepts no byte, only
  finitely often in a row). Whether Thunder's \<open>Variant\<close> throws when it is given a null \<open>const char*\<close>
  is open: the parameter \<open>e_nullThrows\<close> has both. Theory SampleEnv gives an environment that satisfies all of them; the
  witnesses of the properties run the model in it.

  Theories that translate the code, in its order:

  \<^item> CppStrings: \<open>std::to_string\<close>, \<open>strtoll\<close>, \<open>std::stoll\<close> with their range errors; UMap: the
    associative containers; DeviceInfo: \<open>BluetoothDeviceInfo\<close> and \<open>AutoConnectStatus\<close>.
  \<^item> PersistenceAdapter: \<open>Parse\<close>, \<open>Read\<close>, \<open>ReadRaw\<close>, \<open>Write\<close>, one definition per part, the loop
    around \<open>write\<close> as a partial function.
  \<^item> DeviceManager, Migration: the operations of the registry, \<open>performMigration\<close>,
    \<open>clearMigration\<close>, \<open>init\<close> of both builds (\<open>e_migration\<close> chooses), \<open>deinit\<close>.
  \<^item> Discovery, Connections, PowerMode, Events, JsonRpc, Lifecycle: the plugin. Handles are 64-bit
    words, counters and volumes words of their width; \<open>methodTable\<close> is the list of methods.
  \<^item> Interleaving: every operation of the registry cut into its sections, one per hold of
    \<open>_adminLock\<close>, unlocked call or access of an unprotected field, and the step relation of a
    pool of threads that runs them in any order, but for \<open>_migrationLock\<close>. The assignments of
    \<open>_service\<close> and the calls of \<open>AddRef\<close> and \<open>Release\<close> beside them are sections of their own.
    Writers: \<open>Write\<close> by system calls over inodes, and the threads that wait for its mutex
    \<open>gFilesystemPersistenceWriteMutex\<close>.
  \<^item> Handlers: every entry point of the plugin (each of the 27 methods, the event callback, power
    changes, the timer, \<open>Initialize\<close>, \<open>Deinitialize\<close>) as a program, a tree of sections that goes on by
    what each section returned: one call outside, one access of a field of \<open>Bluetooth\<close>, which no lock
    protects, or one section of an operation of the registry. A method that makes one call of BTRMGR
    is one section. \<open>process\<close> extends \<open>plugin\<close> by the timer entries that racing requests can leave
    beside \<open>discoveryTimer\<close>; \<open>hstep\<close> lets any program of a pool make its next section, \<open>pstep\<close> lets
    the timer fire too.

  Theories that prove, and what:

  \<^item> Ledger, AdapterCorrect: the files after any prefix of the events; \<open>Write\<close> is atomic, returns,
    and is read back.
  \<^item> CacheCorrect, StorageCorrect, RegistryCorrect: merging, scrubbing, loading key by key; the
    effect of each store operation on the history; the invariant \<open>registry_inv\<close>.
  \<^item> RegistrySpec: the abstract registry (a map and two flags) and the refinement of every operation.
  \<^item> MigrationCorrect, CrashRecovery, RestartCorrect, StoreFaults: the migration cut at any event, a
    restart from any of these states, what failing store calls leave behind.
  \<^item> PluginCorrect, PluginMachine, PowerCorrect, PluginFacts, RequestFacts: the invariant of the
    plugin, the exact BTRMGR calls of power changes, start-up and events, the outcomes of requests.
  \<^item> Totality: the only loop that may run forever is the one around \<open>write\<close>; under
    \<open>bounded_retries\<close> every entry point returns. There is no fuel anywhere in the program's model
    (the reader of the sample encoding in SampleEnv has some: the length of its input).
  \<^item> SectionsAlone: run alone, the sections are the operation, function by function.
    InterleavingCorrect: the invariants that hold in any interleaving, mutual exclusion of the
    migrations, and that no pool is stuck. ServiceCorrect: what a section does to \<open>_service\<close> and its
    reference count. Races: the schedules that lose an update, crash, or release the service twice
    (\<open>released_twice\<close>, two concurrent calls of \<open>deinit\<close>).
    WritersCorrect: a writer alone is \<open>Write\<close> and atomic whatever the system answers; several,
    kept apart by the mutex, write one after another.
  \<^item> HandlersAlone: a program that nobody interrupts is its entry point, function by function.
    HandlersCorrect: what holds in every pool of entry points, its handlers' termination by a
    well-founded order (no fuel), that none is stuck, that none crashes while nobody starts or
    stops the plugin, and the reference count of the service under the hypothesis \<open>serialised\<close>: of
    the entry points that run at once one at most starts or stops the plugin. No lock in the code
    ensures that; Thunder does, which calls \<open>Initialize\<close> and \<open>Deinitialize\<close> of a plugin one after
    another. PluginRaces: the schedules of entry points that go wrong.

  The interfaces are locales, interpreted on the model: \<open>keyed_container\<close> (UMap), \<open>codec\<close>
  (DeviceInfo), \<open>invariant_machine\<close> and \<open>simulation\<close> (Machines; interpreted as \<open>registry\<close> in
  RegistrySpec and \<open>whole\<close> in PluginMachine), \<open>disconnect_loop\<close> (PowerCorrect).

  The properties below come in groups: the AS file (C1 to C4), migration and crashes (C5 to C8),
  restarts (C9 to C12), the registry's specification and operations (C13, C14), concurrent calls
  (C15 to C26), store, file and BTRMGR together (C27, C28), the whole plugin (C29 to C31), discovery
  (C32), power modes (C33), the start (C34), events (C35, C36), requests (C37 to C40). Between them
  stand further facts without a number, among them the concurrency of the registry alone.
  Several state what the code does where it hardly means to: C10, C11, C12 (stored data lost), C19
  to C22 (lost updates), C23, C25 (null pointers), C26 (an unpaired device in the registry), C31 and
  C32 (a scan that goes on at BTRMGR), C38, C39.

  Not modelled, and why:

  \<^item> Logging, memory exhaustion and the failing \<open>malloc\<close> of the device lists.
  \<^item> Thunder's dispatcher, JSON parser, timers and reference counting, BTRMGR, IARM, the PowerManager
    and PersistentStore services: code outside the repository, parameters of the model.
  \<^item> Data races below a section: an access of an unprotected field (\<open>_service\<close>, \<open>_instance\<close>, the
    discovery flag) reads the old or the new value. Reading the AS file is one section of the
    interleaving, as is a method of the plugin that makes one call of BTRMGR.
  \<^item> The loss of power: a crash is one of the process, after any external call, and \<open>fsync\<close> has no
    effect on the files of the model.
  \<^item> A JSON array has at most 65535 elements, so the \<open>uint16_t\<close> indices of the loops over it do
    not wrap.
  \<^item> \<open>Module.cpp\<close>, \<open>Module.h\<close> (the declaration of the module), the tests and their store mock, the
    build files.
\<close>

section \<open>Properties\<close>

subsection \<open>The AS file\<close>

text \<open>C1: a crash at any point of \<open>Write\<close> leaves in the AS file either its old contents or
  the complete new payload: only the final rename changes it.\<close>

theorem write_crash_atomic:
  assumes "Write E deviceCache w = Some (r, w')" and "trace w' = trace w @ done @ rest"
  shows "replay done (files w) (e_path E) = files w (e_path E) \<or>
    replay done (files w) (e_path E) =
      Some (writePayload E (fst (readExistingEntries E w)) deviceCache)"
  using assms by (rule Write_crash)

lemma write_crash_atomic_witness:
  "\<exists>w'. Write sampleEnv sampleCache migrated = Some (ERROR_NONE, w') \<and>
     (\<exists>es. trace w' = trace migrated @ es \<and>
       (\<forall>n. replay (take n es) asFiles ''/opt/bt.json'' \<in> {Some asFile,
          Some (writePayload sampleEnv (fst (readExistingEntries sampleEnv migrated)) sampleCache)}))"
proof -
  obtain w' where wr: "Write sampleEnv sampleCache migrated = Some (ERROR_NONE, w')"
    using sample_Write by blast
  obtain es where es: "trace w' = trace migrated @ es"
    using evolves_trace [OF io_evolves [OF Write_io [OF wr]]] by blast
  have "replay (take n es) asFiles ''/opt/bt.json'' \<in> {Some asFile,
      Some (writePayload sampleEnv (fst (readExistingEntries sampleEnv migrated)) sampleCache)}" for n
    using write_crash_atomic [OF wr, of "take n es" "drop n es"] es by simp
  with wr es show ?thesis by blast
qed

text \<open>C2: \<open>Write\<close> returns, whatever the cache and the file, if the system interrupts it or
  accepts no byte only finitely often; the file then holds the new payload or, after an error,
  what it held before.\<close>

theorem write_returns:
  assumes "bounded_retries E B"
  shows "\<exists>r w'. Write E deviceCache w = Some (r, w') \<and>
    files w' (e_path E) = (if r = ERROR_NONE
      then Some (writePayload E (fst (readExistingEntries E w)) deviceCache) else files w (e_path E))"
proof -
  obtain r w' where "Write E deviceCache w = Some (r, w')" using Write_total [OF assms] by fastforce
  with Write_files [OF this] show ?thesis by blast
qed

lemma write_returns_witness:
  "\<exists>w'. Write sampleEnv sampleCache migrated = Some (ERROR_NONE, w') \<and>
    files w' ''/opt/bt.json'' =
      Some (writePayload sampleEnv (fst (readExistingEntries sampleEnv migrated)) sampleCache)"
  using write_returns [OF sample_retries, of sampleCache migrated] Write_succeeds [OF sample_no_faults]
  by (metis sample_simps(2))

text \<open>C3: what \<open>Write\<close> wrote, \<open>Read\<close> gives back: every cached device that has an address, with
  the fields the file keeps; but a payload above 1 MiB is written and then refused by \<open>Read\<close>.\<close>

theorem write_read_back:
  assumes "Write E deviceCache w = Some (ERROR_NONE, w')" "json_accessors E" "no_faults E"
    and "payload_ok E (fst (readExistingEntries E w)) deviceCache"
  shows "(fst (Read E ds w'), fst (snd (Read E ds w'))) =
    (if kMaxFilesystemPersistencePayloadBytes
          < int (length (writePayload E (fst (readExistingEntries E w)) deviceCache))
     then (ERROR_GENERAL, ds)
     else (ERROR_NONE, persistedDevices E (fst (readExistingEntries E w)) deviceCache))"
proof -
  let ?ex = "fst (readExistingEntries E w)"
  have "files w' (e_path E) = Some (writePayload E ?ex deviceCache)"
    using Write_files [OF assms(1)] by simp
  with Parse_writePayload [OF assms(2,4), of "[]"] show ?thesis
    by (intro Read_no_faults [OF assms(3)]) simp_all
qed

lemma write_read_back_witness:
  "\<exists>w'. Write sampleEnv sampleCache fresh = Some (ERROR_NONE, w') \<and>
    fst (Read sampleEnv [] w') = ERROR_NONE \<and> fst (snd (Read sampleEnv [] w')) = [sampleInfo]"
proof -
  obtain w' where wr: "Write sampleEnv sampleCache fresh = Some (ERROR_NONE, w')"
    using sample_Write by blast
  from write_read_back [OF wr sample_accessors sample_no_faults sample_payload_ok, of "[]"] wr
  show ?thesis by (simp add: sample_payload_small sample_persisted)
qed

text \<open>C4: with the files as inodes and names, every run of \<open>Write\<close> is a run of a single writer, which
  takes the mutex, builds the payload, and goes on system call by system call, with the same
  result and the same files; and such a writer keeps the AS file at its old contents or at the
  whole payload after each call, whatever the system answers.\<close>

theorem write_refines_system_calls:
  assumes "Write E deviceCache w = Some (r, w')" "fs_wf s" "contents_of s = files w"
    and "data = writePayload E (fst (readExistingEntries E w)) deviceCache"
  shows "(\<exists>s'. (writers_step E)\<^sup>*\<^sup>* ([Waiting deviceCache], s) ([Writing data OpenTmp], s) \<and>
      (writers_step E)\<^sup>*\<^sup>* ([Writing data OpenTmp], s) ([Left r], s') \<and> contents_of s' = files w') \<and>
    (\<forall>ws s'. (writers_step E)\<^sup>*\<^sup>* ([Writing data OpenTmp], s) (ws, s') \<longrightarrow>
       contents_of s' (e_path E) \<in> {files w (e_path E), Some data})"
  using assms by (rule Write_is_one_writer)

lemma write_refines_system_calls_witness:
  "\<exists>w' s'. Write sampleEnv sampleCache migrated = Some (ERROR_NONE, w') \<and> contents_of s' = files w' \<and>
    (writers_step sampleEnv)\<^sup>*\<^sup>* ([Waiting sampleCache], sampleFs) ([Left ERROR_NONE], s')"
proof -
  obtain w' where wr: "Write sampleEnv sampleCache migrated = Some (ERROR_NONE, w')"
    using sample_Write by blast
  from write_refines_system_calls [OF wr, of sampleFs] wr show ?thesis
    by (fastforce intro: rtranclp_trans)
qed

subsection \<open>Migration\<close>

text \<open>C5: at every moment of a migration (a crash included) the marker is in the store only if
  the device info of the migrated cache is there already.\<close>

theorem migration_marker_last:
  assumes "performMigration E w = Some (r, w')" and "trace w' = trace w @ done @ rest"
    and "\<not> migrated_marker (trace w)" and "migrated_marker (trace w @ done)"
  shows "store_contents (trace w @ done) PERSISTENT_STORE_KEY_DEVICE_INFO =
    Some (storedPayload E (pairedDeviceCache w'))"
  using assms by (rule performMigration_prefix)

lemma migration_marker_last_witness:
  "\<exists>w'. performMigration sampleEnv unmigrated = Some (ERROR_NONE, w') \<and>
    store_contents (trace w') PERSISTENT_STORE_KEY_DEVICE_INFO =
      Some (storedPayload sampleEnv (pairedDeviceCache w'))"
proof -
  obtain w' where mg: "performMigration sampleEnv unmigrated = Some (ERROR_NONE, w')"
    using sample_performMigration by blast
  obtain es where es: "trace w' = trace unmigrated @ es" using performMigration_trace [OF mg] by blast
  have "migrated_marker (trace w')" using performMigration_marks [OF mg] by simp
  with migration_marker_last [OF mg, of es "[]"] mg es show ?thesis by auto
qed

text \<open>C6: the outcome of a migration. It reports success only with the registry initialised and
  switched to "migrated"; a failure leaves that switch and the marker as they were, and a
  migration of a registry not yet migrated never changes the AS file.\<close>

theorem migration_outcome:
  assumes "performMigration E w = Some (r, w')"
  shows "service w' = service w \<and>
    (if r = ERROR_NONE then service w \<and> isMigrated w'
     else isMigrated w' = isMigrated w \<and>
       store_contents (trace w') PERSISTENT_STORE_KEY_MIGRATION_VERSION =
       store_contents (trace w) PERSISTENT_STORE_KEY_MIGRATION_VERSION) \<and>
    (isMigrated w \<or> files w' (e_path E) = files w (e_path E))"
  using performMigration_fields [OF assms] performMigration_store [OF assms] performMigration_file [OF assms]
  by (auto split: if_splits)

lemma migration_outcome_witness:
  "\<exists>w'. performMigration sampleEnv unmigrated = Some (ERROR_NONE, w') \<and> service w' \<and> isMigrated w' \<and>
    files w' ''/opt/bt.json'' = Some asFile"
proof -
  obtain w' where mg: "performMigration sampleEnv unmigrated = Some (ERROR_NONE, w')"
    using sample_performMigration by blast
  from migration_outcome [OF mg] mg show ?thesis by simp
qed

text \<open>C7: a successful first migration brings into the cache exactly the devices of the AS file
  whose address BTRMGR has paired: every cached record is under the handle BTRMGR gives to the
  address of an entry of the file and has its settings (autoconnect, volume, connect time,
  non-empty name and type), and every entry with such an address has a device of that address
  in the cache.\<close>

theorem migration_imports:
  assumes "performMigration E w = Some (ERROR_NONE, w')"
    and "store_faithful E" "\<not> migrated_marker (trace w)" "no_faults E"
    and "files w (e_path E) = Some raw" "raw \<noteq> ''''" and "\<forall>tr. e_paired E tr = ds"
  shows "\<exists>infos. Parse E raw [] = (ERROR_NONE, infos) \<and>
    (\<forall>k info. um_find (pairedDeviceCache w') k = Some info \<longrightarrow>
       (\<exists>i \<in> set infos. \<exists>d \<in> set ds. deviceId d = k \<and> m_deviceAddress d = deviceAddr i \<and> same_settings info i)) \<and>
    (\<forall>i \<in> set infos. deviceAddr i \<noteq> '''' \<and> deviceAddr i \<in> m_deviceAddress ` set ds \<longrightarrow>
       (\<exists>d \<in> set ds. m_deviceAddress d = deviceAddr i \<and> um_find (pairedDeviceCache w') (deviceId d) \<noteq> None))"
  using assms by (rule performMigration_imports)

lemma migration_imports_witness:
  "\<exists>w'. performMigration sampleEnv unmigrated = Some (ERROR_NONE, w') \<and>
    um_find (pairedDeviceCache w') (deviceId headphones) \<noteq> None"
proof -
  obtain w' where mg: "performMigration sampleEnv unmigrated = Some (ERROR_NONE, w')"
    using sample_performMigration by blast
  have "\<exists>i \<in> set (map (parseEntry sampleEnv) asEntries). deviceAddr i = m_deviceAddress headphones"
    by (simp add: asEntries_def parseEntry_def headphones_def tryGetBoolean_def tryGetNumericAsInt64_def
        defaultDeviceInfo_def Let_def)
  moreover have "m_deviceAddress headphones \<noteq> ''''" "m_deviceAddress keyboard \<noteq> m_deviceAddress headphones"
    by (simp_all add: headphones_def keyboard_def)
  ultimately show ?thesis
    using migration_imports [OF mg, of asFile "[headphones, keyboard]"] mg by fastforce
qed

text \<open>Migrating again, with the marker in a truthful store, succeeds whenever the store can be
  reached and changes neither the store nor the cache.\<close>

lemma migration_idempotent:
  assumes "store_faithful E" "migrated_marker (trace w)" "performMigration E w = Some (r, w')"
  shows "(r = ERROR_NONE \<longleftrightarrow> service w \<and> e_storeUp E (trace w)) \<and>
    pairedDeviceCache w' = pairedDeviceCache w \<and> store_contents (trace w') = store_contents (trace w) \<and>
    (r = ERROR_NONE \<longrightarrow> isMigrated w')"
  using assms by (rule performMigration_again)

lemma migration_idempotent_witness:
  "\<exists>w' w''. performMigration sampleEnv unmigrated = Some (ERROR_NONE, w') \<and>
    performMigration sampleEnv w' = Some (ERROR_NONE, w'') \<and> pairedDeviceCache w'' = pairedDeviceCache w'"
proof -
  obtain w' where mg: "performMigration sampleEnv unmigrated = Some (ERROR_NONE, w')"
    using sample_performMigration by blast
  have m: "migrated_marker (trace w')" "service w'"
    using performMigration_marks [OF mg] performMigration_fields [OF mg] by simp_all
  obtain r w'' where again: "performMigration sampleEnv w' = Some (r, w'')"
    using performMigration_total [OF sample_retries] by blast
  with migration_idempotent [OF sample_faithful m(1) again] m(2) mg show ?thesis by auto
qed

text \<open>C8: a process that dies at any point of a migration leaves a state from which the next start
  recovers: after the marker it restores the migrated devices, before it the registry is not
  migrated and the AS file is untouched, ready for another migration.\<close>

theorem migration_crash_recovery:
  assumes "e_migration E" "store_faithful E" "\<And>tr. e_storeUp E tr"
    and "performMigration E w = Some (r, w')" "trace w' = trace w @ done @ rest"
    and "\<not> migrated_marker (trace w)" "\<not> isMigrated w"
  shows "\<exists>v. init E True (crashed done w) = Some (ERROR_NONE, v) \<and>
    (if migrated_marker (trace w @ done)
     then isMigrated v \<and> pairedDeviceCache v = loadedCache E (storedPayload E (pairedDeviceCache w'))
     else \<not> isMigrated v \<and> files v (e_path E) = files w (e_path E))"
  using assms by (rule migration_recovers)

lemma migration_crash_recovery_witness:
  "\<exists>w' es. performMigration sampleEnv unmigrated = Some (ERROR_NONE, w') \<and> trace w' = trace unmigrated @ es \<and>
    (\<forall>n. \<exists>v. init sampleEnv True (crashed (take n es) unmigrated) = Some (ERROR_NONE, v) \<and>
       (isMigrated v \<or> files v ''/opt/bt.json'' = Some asFile))"
proof -
  obtain w' where mg: "performMigration sampleEnv unmigrated = Some (ERROR_NONE, w')"
    using sample_performMigration by blast
  obtain es where es: "trace w' = trace unmigrated @ es" using performMigration_trace [OF mg] by blast
  have "\<exists>v. init sampleEnv True (crashed (take n es) unmigrated) = Some (ERROR_NONE, v) \<and>
      (isMigrated v \<or> files v ''/opt/bt.json'' = Some asFile)" for n
    using migration_crash_recovery [OF _ _ _ mg, of "take n es" "drop n es"] es by (auto split: if_splits)
  with mg es show ?thesis by blast
qed

subsection \<open>Restarts\<close>

text \<open>C9: after a successful store write and a restart, \<open>init\<close> of the migration build restores
  every device of the cache with the fields the store keeps (type, autoconnect, connect time, volume).\<close>

theorem restart_restores:
  assumes "writeStorageFromCache E w = Some (ERROR_NONE, w')" "migrated_marker (trace w)"
    and "e_migration E" "store_faithful E" "\<forall>tr. e_storeUp E tr"
    and "json_accessors E" "iterates_all E" "cache_ok (pairedDeviceCache w)" "stored_ok E (pairedDeviceCache w)"
  shows "\<exists>w''. init E True (restart w') = Some (ERROR_NONE, w'') \<and> service w'' \<and> isMigrated w'' \<and>
    (\<forall>k. um_find (pairedDeviceCache w'') k = map_option storedView (um_find (pairedDeviceCache w) k))"
proof -
  let ?str = "storedPayload E (pairedDeviceCache w)"
  have c: "store_contents (trace (restart w')) = (store_contents (trace w))(DEVICE_INFO := Some ?str)"
    using writeStorage_contents [OF assms(1)] by simp
  then have "migrated_marker (trace (restart w'))" using assms(2) by (simp add: migrated_marker_def)
  from init_migrated [OF assms(3-5) this, of ?str] c obtain w'' where
    "init E True (restart w') = Some (ERROR_NONE, w'')" "service w''" "isMigrated w''"
    "pairedDeviceCache w'' = loadedCache E ?str" by auto
  with load_stored [OF assms(6-8)] assms(9) show ?thesis
    by (auto simp: loadedCache_def stored_ok_def)
qed

lemma restart_restores_witness:
  "\<exists>w' w''. writeStorageFromCache sampleEnv migrated = Some (ERROR_NONE, w') \<and>
    init sampleEnv True (restart w') = Some (ERROR_NONE, w'') \<and>
    um_find (pairedDeviceCache w'') ''42'' = Some (storedView sampleInfo)"
proof -
  obtain w' where wr: "writeStorageFromCache sampleEnv migrated = Some (ERROR_NONE, w')"
    using sample_writeStorage [of migrated] by auto
  from restart_restores [OF wr] wr show ?thesis by fastforce
qed

text \<open>C10: the records \<open>init\<close> restores in the migration build have no address, so the next
  successful autoconnect change replaces the AS file by one without any device.\<close>

theorem restart_then_change_empties_file:
  assumes "init E True (restart w) = Some (ERROR_NONE, w1)" "isMigrated w1" "e_migration E"
    and "setAutoConnect E k b w1 = Some (ERROR_NONE, w2)" "iterates_all E" "no_faults E"
  shows "files w2 (e_path E) = Some (e_printObj E [(''pairedDevices'', JArr [])])"
proof -
  have ok: "cache_ok (pairedDeviceCache w1)" and na: "no_addresses (pairedDeviceCache w1)"
    using init_no_addresses [OF assms(1-3)] by simp_all
  from assms(2-4) obtain info where i: "um_find (pairedDeviceCache w1) k = Some info"
    by (auto simp: setAutoConnect_def getPairedDeviceInfo_def split: option.splits if_splits)
  let ?w = "cachePut k (info\<lparr>autoConnectStatus := (if b then AUTO_CONNECT_STATUS_ENABLED
      else AUTO_CONNECT_STATUS_DISABLED)\<rparr>) w1"
  have "writeStorageFromCache E ?w = Some (ERROR_NONE, w2)"
    using setAutoConnect_known [OF _ i assms(4)] assms(2) by simp
  moreover have "no_addresses (pairedDeviceCache ?w)" "cache_ok (pairedDeviceCache ?w)"
    using na ok i by (auto intro!: no_addresses_put cache_ok_put simp: no_addresses_def)
  ultimately show ?thesis using sync_no_addresses [of ?w] assms by simp
qed

lemma restart_then_change_empties_file_witness:
  "\<exists>w1 w2. init sampleEnv True (restart migrated) = Some (ERROR_NONE, w1) \<and>
    setAutoConnect sampleEnv ''42'' False w1 = Some (ERROR_NONE, w2) \<and>
    files w2 ''/opt/bt.json'' = Some (e_printObj sampleEnv [(''pairedDevices'', JArr [])]) \<and>
    (\<exists>d. um_find (pairedDeviceCache w2) ''42'' = Some d)"
proof -
  obtain w1 where w1: "init sampleEnv True (restart migrated) = Some (ERROR_NONE, w1)" "service w1" "isMigrated w1"
    "pairedDeviceCache w1 = loadedCache sampleEnv (storedPayload sampleEnv sampleCache)"
    using sample_initMigrated [of "restart migrated"] by auto
  have f: "um_find (pairedDeviceCache w1) ''42'' = Some (storedView sampleInfo)"
    using load_stored [OF sample_accessors sample_iterates sampleCache_ok, of "''42''"] w1(4)
      sample_stored_ok [of sampleCache] by (simp add: loadedCache_def stored_ok_def)
  then obtain w2 where w2: "setAutoConnect sampleEnv ''42'' False w1 = Some (ERROR_NONE, w2)"
    using sample_setAutoConnect w1(2,3) by blast
  have "um_find (pairedDeviceCache w2) ''42'' \<noteq> None"
    using io_fields(2) [OF writeStorage_io [OF setAutoConnect_known [OF _ f w2]]] w1(3) by simp
  with restart_then_change_empties_file [OF w1(1,3) _ w2] w1(1) w2 show ?thesis by auto
qed

text \<open>C11: a start during which the store cannot be reached is taken for "not migrated" and
  succeeds; the migration requested then finds the marker and loads nothing, so the next stored
  pairing replaces the device info of every other device.\<close>

theorem unreachable_start_loses_devices:
  assumes "e_migration E" "store_faithful E" "migrated_marker (trace w)"
    and "\<not> e_storeUp E (trace w @ [EvShellAddRef])"
    and "init E True (restart w) = Some (r, w1)" "performMigration E w1 = Some (ERROR_NONE, w2)"
    and "addDevice E k w2 = Some (ERROR_NONE, w3)"
  shows "r = ERROR_NONE \<and> (\<exists>info. pairedDeviceCache w3 = [(k, info)] \<and>
    store_contents (trace w3) PERSISTENT_STORE_KEY_DEVICE_INFO = Some (storedPayload E [(k, info)]))"
proof -
  note m = late_migration [OF assms(1-6)]
  with addDevice_stored [OF assms(7)] obtain info where
    "pairedDeviceCache w3 = um_put k info []"
    "store_contents (trace w3) DEVICE_INFO = Some (storedPayload E (pairedDeviceCache w3))" by auto
  with m show ?thesis by (auto simp: um_put_def)
qed

lemma unreachable_start_loses_devices_witness:
  "let E = sampleEnv\<lparr>e_storeUp := \<lambda>tr. tr \<noteq> trace migrated @ [EvShellAddRef]\<rparr> in
   \<exists>w1 w2 w3 info. init E True (restart migrated) = Some (ERROR_NONE, w1) \<and>
     performMigration E w1 = Some (ERROR_NONE, w2) \<and> addDevice E ''99'' w2 = Some (ERROR_NONE, w3) \<and>
     store_contents (trace w3) PERSISTENT_STORE_KEY_DEVICE_INFO = Some (storedPayload E [(''99'', info)])"
proof -
  let ?E = "sampleEnv\<lparr>e_storeUp := \<lambda>tr. tr \<noteq> trace migrated @ [EvShellAddRef]\<rparr>"
  have f: "store_faithful ?E" by (rule sample_faithful_get) simp
  have mig: "e_migration ?E" and down: "\<not> e_storeUp ?E (trace migrated @ [EvShellAddRef])" by simp_all
  have b: "bounded_retries ?E (\<lambda>tr. 0)" using sample_retries by (simp add: bounded_retries_def no_progress_def)
  obtain r w1 where w1: "init ?E True (restart migrated) = Some (r, w1)"
    using init_total [OF b, of True "restart migrated"] by auto
  have w1e: "w1 = (emit (EvStoreAcquire False) (emit EvShellAddRef
      ((restart migrated)\<lparr>service := True\<rparr>)))\<lparr>isMigrated := False\<rparr>"
    using init_unreachable [OF mig, of "restart migrated"] w1 down by simp
  have m1: "migrated_marker (trace w1)"
    using w1e migrated_contents(2) by (simp add: migrated_marker_def store_contents_append store_step_def)
  obtain r2 w2 where w2: "performMigration ?E w1 = Some (r2, w2)" using performMigration_total [OF b] by blast
  have r2: "r2 = ERROR_NONE"
    using performMigration_again [OF f m1 w2] w1e by simp
  have s2: "isMigrated w2" "service w2"
    using performMigration_fields [OF w2] r2 w1e by simp_all
  obtain r3 w3 where w3: "addDevice ?E ''99'' w2 = Some (r3, w3)"
    using mutators_total(4) [OF b, of "''99''" w2] by auto
  let ?c = "GetDeviceProperties 99"
  let ?v = "cachePut ''99'' (addedInfo ?E ''99'' (sampleProps 99)) (emit (EvBT ?c BTRMGR_RESULT_SUCCESS) w2)"
  have "stoll ''99'' = Inr 99" using stoll_to_string_ll [of 99] by (simp add: is_ll_def LLONG_MAX_def LLONG_MIN_def sample_99)
  then have "writeStorageFromCache ?E ?v = Some (r3, w3)"
    using w3 s2(1) by (simp add: addDevice_sync btCall_def syncStorage_def)
  then have r3: "r3 = ERROR_NONE"
    by (rule writeStorage_succeeds) (simp_all add: s2(2))
  from unreachable_start_loses_devices [OF mig f _ down w1, of w2 "''99''" w3] w1 w2 w3 r2 r3
  show ?thesis by auto
qed

text \<open>C12: a \<open>clearMigration\<close> whose second deletion fails leaves the marker without device info: the
  next start is migrated and empty, and migrating again imports nothing.\<close>

theorem half_cleared_stays_migrated:
  assumes "e_migration E" "store_faithful E" "\<forall>tr. e_storeUp E tr"
    and "clearMigration E w = (r, w1)" "r \<noteq> ERROR_NONE" "migrated_marker (trace w)"
    and "store_contents (trace w1) PERSISTENT_STORE_KEY_DEVICE_INFO = None"
  shows "\<exists>w2. init E True (restart w1) = Some (ERROR_NONE, w2) \<and> isMigrated w2 \<and> pairedDeviceCache w2 = [] \<and>
    (\<forall>r' w3. performMigration E w2 = Some (r', w3) \<longrightarrow> pairedDeviceCache w3 = [])"
proof -
  have m1: "migrated_marker (trace w1)"
    using clearMigration_outcome [OF assms(4)] assms(5,6) by (simp add: migrated_marker_def)
  obtain w2 where w2: "init E True (restart w1) = Some (ERROR_NONE, w2)" "isMigrated w2" "pairedDeviceCache w2 = []"
    "store_contents (trace w2) = store_contents (trace w1)"
    using init_marker_only [of E "restart w1"] assms(1-3,7) m1 by auto
  then have "migrated_marker (trace w2)" using m1 by (simp add: migrated_marker_def)
  with performMigration_again [OF assms(2)] w2 show ?thesis by fastforce
qed

lemma half_cleared_stays_migrated_witness:
  "let E = sampleEnv\<lparr>e_storeDel := \<lambda>tr k. if k = MARKER then ERROR_GENERAL else ERROR_NONE\<rparr> in
   \<exists>w1 w2. clearMigration E migrated = (ERROR_GENERAL, w1) \<and>
     init E True (restart w1) = Some (ERROR_NONE, w2) \<and> isMigrated w2 \<and> pairedDeviceCache w2 = []"
proof -
  let ?E = "sampleEnv\<lparr>e_storeDel := \<lambda>tr k. if k = MARKER then ERROR_GENERAL else ERROR_NONE\<rparr>"
  have f: "store_faithful ?E" by (rule sample_faithful_get) simp
  obtain w1 where w1: "clearMigration ?E migrated = (ERROR_GENERAL, w1)"
    "store_contents (trace w1) DEVICE_INFO = None"
    by (simp add: clearMigration_def storeAcquire_def storeDeleteKey_def storeRelease_def
        missingFromPersistentStore_def Let_def store_contents_append store_step_def)
  from half_cleared_stays_migrated [OF _ f _ w1(1)] w1 show ?thesis by auto
qed

subsection \<open>The registry\<close>

text \<open>C13: every sequence of operations of the registry is, operation by operation, one its
  specification (a finite map with two flags) allows.\<close>

theorem registry_refinement:
  assumes "run (dm_enabled E) (registry_step E) ops w = Some w'" "registry_inv w"
  shows "spec_run (\<lambda>op a a'. \<exists>r. registry_spec E op a r a') ops (registry_of w) (registry_of w')"
  using assms by (rule registry.run_simulates)

lemma registry_refinement_witness:
  "\<exists>a'. spec_run (\<lambda>op a a'. \<exists>r. registry_spec sampleEnv op a r a')
     [SetAutoConnect ''42'' False, AddDevice ''99'', RemoveDevice ''42'', ClearMigration, PerformMigration, Deinit]
     (registry_of migrated) a'"
proof -
  obtain w' where "run (dm_enabled sampleEnv) (registry_step sampleEnv)
      [SetAutoConnect ''42'' False, AddDevice ''99'', RemoveDevice ''42'', ClearMigration, PerformMigration, Deinit]
      migrated = Some w'"
    using sample_registry_run [of "[SetAutoConnect ''42'' False, AddDevice ''99'', RemoveDevice ''42'',
      ClearMigration, PerformMigration, Deinit]" migrated] by fastforce
  from registry_refinement [OF this migrated_inv(1)] show ?thesis by (rule exI)
qed

text \<open>Whatever the sequence of operations from start-up, the cache has one record per id with a
  storable autoconnect value, every store interface obtained has been released, and the service is
  referenced exactly while the registry is initialised.\<close>

lemma registry_invariant:
  assumes "run (dm_enabled E) (registry_step E) ops (dmgr0 f) = Some w'"
  shows "distinct (map fst (pairedDeviceCache w')) \<and>
    (\<forall>k info. um_find (pairedDeviceCache w') k = Some info \<longrightarrow>
       autoConnectStatus_cast (acs_to_int (autoConnectStatus info)) = autoConnectStatus info) \<and>
    tally store_refs (trace w') = 0 \<and> tally shell_refs (trace w') = (if service w' then 1 else 0)"
proof -
  have "registry_inv w'" using registry.inv_run [OF assms] by simp
  then show ?thesis by (auto simp: registry_inv_def cache_ok_def um_wf_def acs_cast_stored)
qed

lemma registry_invariant_witness:
  "\<exists>w'. run (dm_enabled sampleEnv) (registry_step sampleEnv)
      [Init True, PerformMigration, AddDevice ''99'', Deinit] (dmgr0 asFiles) = Some w' \<and>
    tally store_refs (trace w') = 0 \<and> (service w' \<longrightarrow> tally shell_refs (trace w') = 1)"
proof -
  obtain w1 where i: "registry_step sampleEnv (Init True) (dmgr0 asFiles) = Some w1"
    using registry_step_total [OF sample_retries] by blast
  obtain w' where "run (dm_enabled sampleEnv) (registry_step sampleEnv)
      [PerformMigration, AddDevice ''99'', Deinit] w1 = Some w'"
    using sample_registry_run [of "[PerformMigration, AddDevice ''99'', Deinit]" w1] by fastforce
  with i have "run (dm_enabled sampleEnv) (registry_step sampleEnv)
      [Init True, PerformMigration, AddDevice ''99'', Deinit] (dmgr0 asFiles) = Some w'"
    by (simp add: dmgr0_def)
  with registry_invariant [OF this] show ?thesis by auto
qed

text \<open>C14: every outcome of \<open>setAutoConnect\<close>. It is refused before a migration and for an unknown
  device, without effect; otherwise the new status is what \<open>getAutoConnect\<close> reports, also when storing
  it fails, no other device changes, and success means that the store holds the new cache.\<close>

theorem setAutoConnect_outcome:
  assumes "setAutoConnect E k enable w = Some (r, w')"
  shows "if e_migration E \<and> \<not> isMigrated w then r = ERROR_GENERAL \<and> w' = w
    else if um_find (pairedDeviceCache w) k = None then r = ERROR_NOT_EXIST \<and> w' = w
    else getAutoConnect E k s w' =
        (ERROR_NONE, if enable then AUTO_CONNECT_STATUS_ENABLED else AUTO_CONNECT_STATUS_DISABLED) \<and>
      (\<forall>k'. k' \<noteq> k \<longrightarrow> um_find (pairedDeviceCache w') k' = um_find (pairedDeviceCache w) k') \<and>
      store_contents (trace w') = (if r = ERROR_NONE
        then (store_contents (trace w))(PERSISTENT_STORE_KEY_DEVICE_INFO :=
               Some (storedPayload E (pairedDeviceCache w')))
        else store_contents (trace w))"
proof (cases "(e_migration E \<and> \<not> isMigrated w) \<or> um_find (pairedDeviceCache w) k = None")
  case True
  with assms show ?thesis by (auto simp: setAutoConnect_sync split: if_splits)
next
  case False
  then obtain i where i: "um_find (pairedDeviceCache w) k = Some i" and m: "\<not> e_migration E \<or> isMigrated w" by blast
  note wr = setAutoConnect_known [OF m i assms]
  from setAutoConnect_get [OF assms m i] writeStorage_contents [OF wr] io_fields(2) [OF writeStorage_io [OF wr]] i m
  show ?thesis by auto
qed

lemma setAutoConnect_outcome_witness:
  "\<exists>w'. setAutoConnect sampleEnv ''42'' False migrated = Some (ERROR_NONE, w') \<and>
     getAutoConnect sampleEnv ''42'' AUTO_CONNECT_STATUS_UNSET w' = (ERROR_NONE, AUTO_CONNECT_STATUS_DISABLED)"
proof -
  obtain w' where "setAutoConnect sampleEnv ''42'' False migrated = Some (ERROR_NONE, w')"
    using sample_setAutoConnect [of migrated "''42''" sampleInfo False] by auto
  with setAutoConnect_outcome [OF this, of AUTO_CONNECT_STATUS_UNSET] show ?thesis by simp
qed

text \<open>An operation on one device (autoconnect, connect time, volume, adding, removing) leaves the
  records of all other devices and both flags alone, whatever its result.\<close>

lemma other_devices_untouched:
  assumes "registry_inv w" "dm_enabled E op w" "dm_step E op w = Some (r, w')"
    and "op_device op = Some k" "k' \<noteq> k"
  shows "um_find (pairedDeviceCache w') k' = um_find (pairedDeviceCache w) k' \<and>
    service w' = service w \<and> isMigrated w' = isMigrated w"
  using spec_local [OF dm_step_refines [OF assms(1-3)] assms(4,5)] by simp

lemma other_devices_untouched_witness:
  "\<exists>r w'. dm_step sampleEnv (AddDevice ''99'') migrated = Some (r, w') \<and>
     um_find (pairedDeviceCache w') ''42'' = Some sampleInfo \<and> service w'"
proof -
  obtain r w' where st: "dm_step sampleEnv (AddDevice ''99'') migrated = Some (r, w')"
    using dm_step_total [OF sample_retries, of "AddDevice ''99''" migrated] by auto
  from other_devices_untouched [OF _ _ st, of "''99''" "''42''"] st show ?thesis by (simp add: op_device_def)
qed

text \<open>A successful \<open>clearMigration\<close>, on a store that calls a key missing only when it is, leaves
  neither device info nor marker in the store, an empty cache, and the AS file as it was.\<close>

lemma clearMigration_clears:
  assumes "clearMigration E w = (ERROR_NONE, w')" "deletes_truthfully E"
  shows "store_contents (trace w') = (store_contents (trace w))
      (PERSISTENT_STORE_KEY_DEVICE_INFO := None, PERSISTENT_STORE_KEY_MIGRATION_VERSION := None) \<and>
    pairedDeviceCache w' = [] \<and> \<not> isMigrated w' \<and> service w' \<and> files w' = files w"
  using clearMigration_store [OF assms] clearMigration_outcome [OF assms(1)] by simp

lemma clearMigration_clears_witness:
  "\<exists>w'. clearMigration sampleEnv migrated = (ERROR_NONE, w') \<and> \<not> migrated_marker (trace w') \<and>
     pairedDeviceCache w' = [] \<and> files w' = asFiles"
proof -
  obtain r w' where c: "clearMigration sampleEnv migrated = (r, w')" by fastforce
  then have r: "r = ERROR_NONE"
    by (auto simp: clearMigration_def storeAcquire_def storeDeleteKey_def missingFromPersistentStore_def Let_def
        split: if_splits)
  have "deletes_truthfully sampleEnv"
    by (simp add: deletes_truthfully_def missingFromPersistentStore_def)
  from clearMigration_clears [OF c [unfolded r] this] c r show ?thesis
    by (auto simp: migrated_marker_def)
qed

subsection \<open>Concurrent calls\<close>

text \<open>Every operation of the registry, the migrations, \<open>init\<close> and \<open>deinit\<close> included, is the sequence
  of its critical sections and unlocked calls: run without interruption they give its result and
  its state.\<close>

lemma sections_make_the_operation:
  "map_option (\<lambda>s. (op_result op (t_result (fst s)), snd s)) (alone E (program E op) (spawn E op, w)) = dm_step E op w"
  by (rule alone_is_atomic)

text \<open>C15: every entry point of the plugin (the requests, events, power changes, the timer, start and
  stop) is the program of its sections, those of the registry's operations included: run without
  interruption the program gives the result and the state of the entry point, and does not return
  exactly if the entry point does not.\<close>

theorem sections_make_the_entry_point:
  assumes "moreTimers w = []"
  shows "solo E (entry E op) (delivered op w) = handle E op w \<and> map_option snd (handle E op w) = plugin_step E op w"
  using entry_alone [OF assms] handle_step by blast

lemma sections_make_the_entry_point_witness:
  "\<exists>r w'. solo sampleEnv (entry sampleEnv (Request ''performMigration'' [])) sampleProcess = Some (r, w') \<and>
    plugin_step sampleEnv (Request ''performMigration'' []) sampleProcess = Some w'"
proof -
  let ?op = "Request ''performMigration'' []"
  obtain w' where "plugin_step sampleEnv ?op sampleProcess = Some w'"
    using sample_plugin_step by blast
  with sections_make_the_entry_point [of sampleProcess sampleEnv ?op] show ?thesis by auto
qed

text \<open>C16: whatever requests, events, power changes, timer expiries, starts and stops run at once,
  and however their sections interleave: the cache keeps one record per id with a storable status,
  one thread at most holds the migration lock, and once all have returned every store interface
  has been released. If at most one of them starts or stops the plugin (which is how Thunder calls
  \<open>Initialize\<close> and \<open>Deinitialize\<close>; no lock in the code sees to it), and none starts it while it
  holds its service, then the service is referenced exactly while the pointer is set, but for a
  thread between \<open>AddRef\<close> or \<open>Release\<close> and the assignment next to it, and exactly once all have
  returned.\<close>

theorem concurrent_plugin_invariant:
  assumes "(pstep E)\<^sup>*\<^sup>* (map (entry E) ops, w) (ps, w')" "registry_inv w"
  shows "cache_ok (pairedDeviceCache w') \<and> length (filter t_lock (threads ps)) \<le> 1 \<and>
    ((\<forall>p \<in> set ps. returned p) \<longrightarrow> tally store_refs (trace w') = 0) \<and>
    (serialised ops w \<longrightarrow>
       tally shell_refs (trace w') + int (length (filter unsettled (threads ps))) = of_bool (service w') \<and>
       ((\<forall>p \<in> set ps. returned p) \<longrightarrow> tally shell_refs (trace w') = of_bool (service w')))"
proof -
  note inv = psteps_inv [OF assms(1) entries_inv [OF assms(2)]]
  have "tally shell_refs (trace w') + int (length (filter unsettled (threads ps))) = of_bool (service w')"
    if "serialised ops w"
    using psteps_service [OF assms(1) entries_inv [OF assms(2)] entries_service [OF assms(2) that]]
    by (simp add: service_inv_def unsettled_threads)
  with inv show ?thesis by (auto simp: plugin_pool_inv_def returned_quiet locks_threads returned_threads)
qed

lemma concurrent_plugin_invariant_witness:
  "\<exists>ps w'. (pstep sampleEnv)\<^sup>*\<^sup>* (map (entry sampleEnv) [Request ''clearMigration'' [], Stop], sampleProcess) (ps, w') \<and>
    cache_ok (pairedDeviceCache w') \<and>
    (alive ps \<longrightarrow> tally shell_refs (trace w') = of_bool (service w') \<and> tally store_refs (trace w') = 0)"
proof -
  let ?ops = "[Request ''clearMigration'' [], Stop]"
  have st: "serialised ?ops sampleProcess" by (simp add: serialised_def initialises_def starts_or_stops_plugin_def)
  obtain ps w' where r: "(hstep sampleEnv)\<^sup>*\<^sup>* (map (entry sampleEnv) ?ops, sampleProcess) (ps, w')"
    and e: "alive ps \<longrightarrow> (\<forall>p \<in> set ps. returned p)"
    using run_to_end [OF entries_inv [OF sampleProcess_inv] sample_retries] by blast
  note p = hsteps_psteps [OF r]
  from concurrent_plugin_invariant [OF p sampleProcess_inv] st p e show ?thesis by blast
qed

text \<open>While nobody starts or stops the registry, concurrent operations of it return: no run of them is
  longer than the sections left, a pool that cannot go on has all its threads finished (the migration
  lock blocks nobody for ever), and nobody calls through a null pointer.\<close>

lemma concurrent_calls_return:
  assumes "(cstep E)\<^sup>*\<^sup>* (map (spawn E) ops, w) (ts', w')" "bounded_retries E B"
    and "\<forall>op \<in> set ops. \<not> starts_or_stops op"
  shows "(\<forall>n s. (cstep E ^^ n) (ts', w') s \<longrightarrow> n \<le> work ts') \<and>
    ((\<nexists>s. cstep E (ts', w') s) \<longrightarrow> (\<forall>t \<in> set ts'. finished t)) \<and> (\<forall>t \<in> set ts'. \<not> t_crashed t)"
  using concurrent_return [OF assms] by blast

lemma concurrent_calls_return_witness:
  "\<exists>ts' w'. (cstep sampleEnv)\<^sup>*\<^sup>* (map (spawn sampleEnv) [PerformMigration, ClearMigration], unmigrated) (ts', w') \<and>
    (\<forall>t \<in> set ts'. finished t)"
proof -
  let ?ts = "map (spawn sampleEnv) [PerformMigration, ClearMigration]"
  let ?P = "\<lambda>s. (cstep sampleEnv)\<^sup>*\<^sup>* (?ts, unmigrated) s"
  have ops: "\<forall>op \<in> set [PerformMigration, ClearMigration]. \<not> starts_or_stops op" by (simp add: starts_or_stops_def)
  note return = concurrent_calls_return [OF _ sample_retries ops]
  obtain s where s: "?P s" "\<forall>s'. ?P s' \<longrightarrow> work (fst s) \<le> work (fst s')"
    using ex_has_least_nat [of ?P "(?ts, unmigrated)" "\<lambda>s. work (fst s)"] by blast
  obtain ts' w' where p: "s = (ts', w')" by (cases s)
  have "\<nexists>s'. cstep sampleEnv (ts', w') s'"
  proof
    assume "\<exists>s'. cstep sampleEnv (ts', w') s'"
    then obtain s' where s': "cstep sampleEnv (ts', w') s'" by blast
    then have "?P s'" using s(1) p by (simp add: rtranclp.rtrancl_into_rtrancl)
    with s(2) p cstep_work [OF s'] show False by fastforce
  qed
  with return [of unmigrated ts' w'] s(1) p show ?thesis by blast
qed

text \<open>C17: all that runs at once returns, a start or a stop among it or not: no run of the handlers
  under way is infinite, any pool reached can be run to an end, and where no handler can go on
  every one has returned (the migration lock blocks nobody for ever) unless one has called through
  a null pointer, which happens only if one of them starts or stops the plugin.\<close>

theorem concurrent_handlers_return:
  assumes "(pstep E)\<^sup>*\<^sup>* (map (entry E) ops, w) (ps, w')" "registry_inv w" "bounded_retries E B"
  shows "(\<nexists>run. run 0 = (ps, w') \<and> (\<forall>n::nat. hstep E (run n) (run (Suc n)))) \<and>
    (\<exists>qs v. (hstep E)\<^sup>*\<^sup>* (ps, w') (qs, v) \<and> (alive qs \<longrightarrow> (\<forall>p \<in> set qs. returned p))) \<and>
    ((\<nexists>s. hstep E (ps, w') s) \<and> alive ps \<longrightarrow> (\<forall>p \<in> set ps. returned p)) \<and>
    ((\<forall>op \<in> set ops. \<not> starts_or_stops_plugin op) \<longrightarrow> alive ps)"
proof (intro conjI)
  show "\<nexists>run. run 0 = (ps, w') \<and> (\<forall>n::nat. hstep E (run n) (run (Suc n)))"
    using wf_hstep [of E] unfolding wf_iff_no_infinite_down_chain by blast
  note inv = psteps_inv [OF assms(1) entries_inv [OF assms(2)]]
  show "\<exists>qs v. (hstep E)\<^sup>*\<^sup>* (ps, w') (qs, v) \<and> (alive qs \<longrightarrow> (\<forall>p \<in> set qs. returned p))"
    by (rule run_to_end [OF inv assms(3)])
  show "(\<nexists>s. hstep E (ps, w') s) \<and> alive ps \<longrightarrow> (\<forall>p \<in> set ps. returned p)"
    using stuck_plugin_pool [OF inv _ assms(3)] by blast
  show "(\<forall>op \<in> set ops. \<not> starts_or_stops_plugin op) \<longrightarrow> alive ps"
    using psteps_calm [OF assms(1) entries_calm] calm_alive by blast
qed

lemma concurrent_handlers_return_witness:
  "\<exists>ps w'. (pstep sampleEnv)\<^sup>*\<^sup>* (map (entry sampleEnv)
      [Request ''performMigration'' [], Request ''clearMigration'' [], Request ''startScan'' [], PowerChange POWER_STATE_ON POWER_STATE_OFF],
      sampleProcess) (ps, w') \<and> (\<forall>p \<in> set ps. returned p)"
proof -
  let ?ops = "[Request ''performMigration'' [], Request ''clearMigration'' [], Request ''startScan'' [], PowerChange POWER_STATE_ON POWER_STATE_OFF]"
  have ns: "\<forall>op \<in> set ?ops. \<not> starts_or_stops_plugin op" by (simp add: starts_or_stops_plugin_def)
  note return = concurrent_handlers_return [OF _ sampleProcess_inv sample_retries]
  obtain ps w' where r: "(hstep sampleEnv)\<^sup>*\<^sup>* (map (entry sampleEnv) ?ops, sampleProcess) (ps, w')"
    and e: "alive ps \<longrightarrow> (\<forall>p \<in> set ps. returned p)"
    using return [OF rtranclp.rtrancl_refl] by blast
  from return [OF hsteps_psteps [OF r]] ns hsteps_psteps [OF r] e show ?thesis by blast
qed

text \<open>C18: however they interleave, the record of a device changes only if one of the concurrent
  operations is on that device or on the whole cache.\<close>

theorem concurrent_locality:
  assumes "(cstep E)\<^sup>*\<^sup>* (map (spawn E) ops, w) (ts', w')" "registry_inv w"
    and "\<forall>op \<in> set ops. \<not> concerns op k"
  shows "um_find (pairedDeviceCache w') k = um_find (pairedDeviceCache w) k"
  using csteps_frame [OF assms(1) pool_inv_spawn [OF assms(2)]] assms(3) by (simp add: avoids_spawn)

lemma concurrent_locality_witness:
  "\<exists>ts' w'. (cstep sampleEnv)\<^sup>*\<^sup>* (map (spawn sampleEnv) [AddDevice ''99'', RemoveDevice ''77''], migrated) (ts', w') \<and>
    (\<exists>r. dm_step sampleEnv (AddDevice ''99'') migrated = Some (r, w')) \<and>
    um_find (pairedDeviceCache w') ''42'' = Some sampleInfo"
proof -
  let ?ts = "map (spawn sampleEnv) [AddDevice ''99'', RemoveDevice ''77'']"
  obtain r w1 where st: "dm_step sampleEnv (AddDevice ''99'') migrated = Some (r, w1)"
    using dm_step_total [OF sample_retries, of "AddDevice ''99''" migrated] by auto
  obtain ts' where c: "(cstep sampleEnv)\<^sup>*\<^sup>* (?ts, migrated) (ts', w1)"
    using run_operation [of 0 ?ts sampleEnv "AddDevice ''99''" migrated r w1] st by (auto simp: starts_or_stops_def)
  from concurrent_locality [OF c, of "''42''"] c st show ?thesis by (auto simp: concerns_def op_device_def)
qed

text \<open>C19: an operation that runs between the two sections of \<open>setLastConnectTimeUtc\<close> reports its
  result, and then loses its effect on the record: the old record comes back with a new time, an
  autoconnect setting reset, a removed device present again.\<close>

theorem connect_time_undoes_concurrent_change:
  assumes "um_find (pairedDeviceCache w) k = Some i" "op_device op = Some k"
    and "dm_step E op w = Some (r, w1)" "bounded_retries E B"
  shows "\<exists>ts' w'. (cstep E)\<^sup>*\<^sup>* (map (spawn E) [SetLastConnectTimeUtc k, op], w) (ts', w') \<and>
    (\<forall>t \<in> set ts'. finished t) \<and> op_result op (t_result (ts' ! 1)) = r \<and>
    (\<exists>utc. um_find (pairedDeviceCache w') k = Some (i\<lparr>lastConnectTimeUtc := utc\<rparr>))"
  using assms by (rule stale_stamp)

lemma connect_time_undoes_concurrent_change_witness:
  "\<exists>ts' w'. (cstep sampleEnv)\<^sup>*\<^sup>* (map (spawn sampleEnv) [SetLastConnectTimeUtc ''42'', SetAutoConnect ''42'' False], migrated) (ts', w') \<and>
    (\<forall>t \<in> set ts'. finished t) \<and> t_result (ts' ! 1) = ERROR_NONE \<and>
    (\<exists>i. um_find (pairedDeviceCache w') ''42'' = Some i \<and> autoConnectStatus i = AUTO_CONNECT_STATUS_ENABLED)"
proof -
  obtain w1 where "dm_step sampleEnv (SetAutoConnect ''42'' False) migrated = Some (ERROR_NONE, w1)"
    using sample_setAutoConnect [of migrated "''42''" sampleInfo False] by auto
  from connect_time_undoes_concurrent_change [OF _ _ this sample_retries, of "''42''" sampleInfo]
  show ?thesis by (fastforce simp: op_device_def op_result_def sampleInfo_def)
qed

text \<open>C20: two concurrent changes of different devices can both report success and leave a store that
  lacks one of them: the payload is built under the lock but stored after it is released.\<close>

theorem concurrent_changes_leave_stale_store:
  assumes "um_find (pairedDeviceCache w) k = Some i" "um_find (pairedDeviceCache w) k' = Some i'" "k' \<noteq> k"
    and "\<not> e_migration E \<or> isMigrated w" "service w" "store_works E" "bounded_retries E B"
  shows "\<exists>ts' w'. (cstep E)\<^sup>*\<^sup>* (map (spawn E) [SetAutoConnect k b, SetAutoConnect k' b'], w) (ts', w') \<and>
    (\<forall>t \<in> set ts'. finished t \<and> t_result t = ERROR_NONE) \<and>
    pairedDeviceCache w' = autoChanged k' b' (autoChanged k b (pairedDeviceCache w)) \<and>
    store_contents (trace w') PERSISTENT_STORE_KEY_DEVICE_INFO =
      Some (storedPayload E (autoChanged k b (pairedDeviceCache w)))"
  using assms by (rule stale_store)

lemma concurrent_changes_leave_stale_store_witness:
  "let w = migrated\<lparr>pairedDeviceCache := (''99'', sampleInfo) # sampleCache\<rparr> in
   \<exists>ts' w'. (cstep sampleEnv)\<^sup>*\<^sup>* (map (spawn sampleEnv) [SetAutoConnect ''42'' False, SetAutoConnect ''99'' False], w) (ts', w') \<and>
    (\<forall>t \<in> set ts'. t_result t = ERROR_NONE) \<and>
    store_contents (trace w') PERSISTENT_STORE_KEY_DEVICE_INFO \<noteq> Some (storedPayload sampleEnv (pairedDeviceCache w'))"
proof -
  let ?c = "(''99'', sampleInfo) # sampleCache"
  let ?w = "migrated\<lparr>pairedDeviceCache := ?c\<rparr>"
  let ?c1 = "autoChanged ''42'' False ?c" and ?c2 = "autoChanged ''99'' False (autoChanged ''42'' False ?c)"
  have "map storedEntry ?c1 \<noteq> map storedEntry ?c2"
    by (simp add: autoChanged_def autoSetting_def um_put_def um_find_def sampleCache_def sampleInfo_def
        storedEntry_def acs_to_int_def)
  then have "storedPayload sampleEnv ?c1 \<noteq> storedPayload sampleEnv ?c2"
    using sample_stored_ok [of ?c1] sample_stored_ok [of ?c2] by (auto simp: stored_ok_def)
  moreover have "um_find ?c ''42'' = Some sampleInfo" "um_find ?c ''99'' = Some sampleInfo"
    by (simp_all add: um_find_def sampleCache_def)
  moreover have "store_works sampleEnv" by (simp add: store_works_def)
  ultimately show ?thesis
    using concurrent_changes_leave_stale_store [of ?w "''42''" sampleInfo "''99''" sampleInfo sampleEnv "\<lambda>tr. 0" False False]
    by fastforce
qed

text \<open>C21: a device added while a migration is between storing the imported cache and setting its flag
  is added without being stored, as before a migration; both report success, the registry is then
  migrated, and the store lacks the device until some later change: a restart loads only what the
  migration had imported.\<close>

theorem device_added_during_migration_not_stored:
  assumes "performMigration E w = Some (ERROR_NONE, w1)" "\<not> migrated_marker (trace w)" "\<not> isMigrated w"
    and "e_migration E" "store_faithful E" "store_works E" "bounded_retries E B"
    and "stoll k = Inr n" "\<And>tr. e_bt E tr (GetDeviceProperties (word_of_int n)) = BTRMGR_RESULT_SUCCESS"
  shows "\<exists>ts' w' i w''. (cstep E)\<^sup>*\<^sup>* (map (spawn E) [PerformMigration, AddDevice k], w) (ts', w') \<and>
    (\<forall>t \<in> set ts'. finished t \<and> t_result t = ERROR_NONE) \<and> isMigrated w' \<and>
    pairedDeviceCache w' = um_put k i (pairedDeviceCache w1) \<and>
    init E True (restart w') = Some (ERROR_NONE, w'') \<and> isMigrated w'' \<and>
    pairedDeviceCache w'' = loadedCache E (storedPayload E (pairedDeviceCache w1))"
proof -
  obtain ts' w' i where c: "(cstep E)\<^sup>*\<^sup>* (map (spawn E) [PerformMigration, AddDevice k], w) (ts', w')"
      "\<forall>t \<in> set ts'. finished t \<and> t_result t = ERROR_NONE" "isMigrated w'" "migrated_marker (trace w')"
      "pairedDeviceCache w' = um_put k i (pairedDeviceCache w1)"
      "store_contents (trace w') PERSISTENT_STORE_KEY_DEVICE_INFO = Some (storedPayload E (pairedDeviceCache w1))"
    using added_during_migration [OF assms] by blast
  have "\<forall>tr. e_storeUp E tr" using assms(6) by (simp add: store_works_def)
  from init_migrated [OF assms(4,5) this, of "restart w'" "storedPayload E (pairedDeviceCache w1)"] c(4,6)
  obtain w'' where "init E True (restart w') = Some (ERROR_NONE, w'')" "isMigrated w''"
      "pairedDeviceCache w'' = loadedCache E (storedPayload E (pairedDeviceCache w1))"
    by auto
  with c show ?thesis by blast
qed

lemma device_added_during_migration_not_stored_witness:
  "\<exists>ts' w' w''. (cstep sampleEnv)\<^sup>*\<^sup>* (map (spawn sampleEnv) [PerformMigration, AddDevice ''99''], unmigrated) (ts', w') \<and>
    (\<forall>t \<in> set ts'. t_result t = ERROR_NONE) \<and> um_find (pairedDeviceCache w') ''99'' \<noteq> None \<and>
    init sampleEnv True (restart w') = Some (ERROR_NONE, w'') \<and> um_find (pairedDeviceCache w'') ''99'' = None"
proof -
  obtain w1 where mg: "performMigration sampleEnv unmigrated = Some (ERROR_NONE, w1)"
    using sample_performMigration by blast
  have n: "stoll ''99'' = Inr 99" by code_simp
  have "store_works sampleEnv" by (simp add: store_works_def)
  from device_added_during_migration_not_stored [OF mg _ _ _ sample_faithful this sample_retries n]
  obtain ts' w' i w'' where c: "(cstep sampleEnv)\<^sup>*\<^sup>* (map (spawn sampleEnv) [PerformMigration, AddDevice ''99''], unmigrated) (ts', w')"
    "\<forall>t \<in> set ts'. t_result t = ERROR_NONE" "pairedDeviceCache w' = um_put ''99'' i (pairedDeviceCache w1)"
    "init sampleEnv True (restart w') = Some (ERROR_NONE, w'')"
    "pairedDeviceCache w'' = loadedCache sampleEnv (storedPayload sampleEnv (pairedDeviceCache w1))"
    by fastforce
  have "um_find (pairedDeviceCache w1) ''99'' = None"
  proof (rule ccontr)
    assume "um_find (pairedDeviceCache w1) ''99'' \<noteq> None"
    then obtain d where "d \<in> {headphones, keyboard}" "deviceId d = ''99''"
      using performMigration_imports [OF mg, of asFile "[headphones, keyboard]"] by fastforce
    then show False by auto
  qed
  moreover have "cache_ok (pairedDeviceCache w1)"
    using performMigration_inv [OF migrated_inv(2) mg] by (simp add: registry_inv_def)
  ultimately have "um_find (pairedDeviceCache w'') ''99'' = None"
    using load_stored [OF sample_accessors sample_iterates, of "pairedDeviceCache w1" "''99''"] c(5)
      sample_stored_ok [of "pairedDeviceCache w1"] by (simp add: loadedCache_def stored_ok_def)
  with c show ?thesis by (intro exI [of _ ts'] exI [of _ w'] exI [of _ w'']) (simp add: um.find_put)
qed

text \<open>C22: \<open>clearMigration\<close> while a change is between storing its payload and taking its snapshot for the
  AS file: both report success, and the devices are gone from the cache, from the store, and from
  the file that another migration would import.\<close>

theorem clear_during_change_loses_file:
  assumes "um_find (pairedDeviceCache w) k = Some i"
    and "e_migration E" "isMigrated w" "service w" "store_works E" "bounded_retries E B"
    and "no_faults E" "iterates_all E" "deletes_truthfully E" "\<And>tr key. \<not> storageFailed (e_storeDel E tr key)"
  shows "\<exists>ts' w'. (cstep E)\<^sup>*\<^sup>* (map (spawn E) [SetAutoConnect k b, ClearMigration], w) (ts', w') \<and>
    (\<forall>t \<in> set ts'. finished t \<and> t_result t = ERROR_NONE) \<and> pairedDeviceCache w' = [] \<and>
    store_contents (trace w') PERSISTENT_STORE_KEY_DEVICE_INFO = None \<and> \<not> migrated_marker (trace w') \<and>
    files w' (e_path E) = Some (e_printObj E [(''pairedDevices'', JArr [])])"
  using assms by (rule clear_under_change)

lemma clear_during_change_loses_file_witness:
  "\<exists>ts' w'. (cstep sampleEnv)\<^sup>*\<^sup>* (map (spawn sampleEnv) [SetAutoConnect ''42'' False, ClearMigration], migrated) (ts', w') \<and>
    (\<forall>t \<in> set ts'. t_result t = ERROR_NONE) \<and>
    files w' ''/opt/bt.json'' = Some (e_printObj sampleEnv [(''pairedDevices'', JArr [])])"
proof -
  have "store_works sampleEnv" "deletes_truthfully sampleEnv"
    by (simp_all add: store_works_def deletes_truthfully_def missingFromPersistentStore_def)
  moreover have "\<not> storageFailed (e_storeDel sampleEnv tr key)" for tr key by (simp add: storageFailed_def missingFromPersistentStore_def)
  ultimately show ?thesis
    using clear_during_change_loses_file [OF _ _ _ _ _ sample_retries sample_no_faults sample_iterates,
      of migrated "''42''" sampleInfo False] by (simp only: sample_simps) fastforce
qed

text \<open>C23: \<open>deinit\<close>, which \<open>Deinitialize\<close> calls before it unregisters from BTRMGR and the PowerManager,
  can reset the service pointer between another thread's test of it and its use: that thread then
  calls through a null pointer.\<close>

theorem deinit_crashes_concurrent_call:
  assumes "changes_record op k" "um_find (pairedDeviceCache w) k = Some i"
    and "\<not> e_migration E \<or> isMigrated w" "service w"
  shows "\<exists>ts' w'. (cstep E)\<^sup>*\<^sup>* (map (spawn E) [op, Deinit], w) (ts', w') \<and>
    t_crashed (ts' ! 0) \<and> finished (ts' ! 1) \<and> t_result (ts' ! 1) = ERROR_NONE"
  using assms by (rule dropped_service)

lemma deinit_crashes_concurrent_call_witness:
  "\<exists>ts' w'. (cstep sampleEnv)\<^sup>*\<^sup>* (map (spawn sampleEnv) [SetLastConnectTimeUtc ''42'', Deinit], migrated) (ts', w') \<and>
    t_crashed (ts' ! 0)"
  using deinit_crashes_concurrent_call [of "SetLastConnectTimeUtc ''42''" "''42''" migrated sampleInfo sampleEnv]
  by (auto simp: changes_record_def)

text \<open>C24: however many threads call \<open>Write\<close> at once, and however their system calls are interleaved
  and answered: one at most is past the mutex, so that the AS file always holds what the writers
  that have renamed their payload so far give one after another, each merging its cache into what
  the one before left; whoever has not returned can go on or another can, for the mutex is given
  back on every return.\<close>

theorem concurrent_writes_serialise:
  assumes "(writers_step E)\<^sup>*\<^sup>* (map Waiting caches, s) (ws, s')" "fs_wf s"
  shows "length (filter holding ws) \<le> 1 \<and>
    (\<exists>order. distinct order \<and> set order = {i. i < length caches \<and> has_committed (ws ! i)} \<and>
      written_by E (contents_of s (e_path E)) (map ((!) caches) order) (contents_of s' (e_path E))) \<and>
    ((\<nexists>y. writers_step E (ws, s') y) \<longrightarrow> (\<forall>x \<in> set ws. \<exists>r. x = Left r))"
  using assms by (rule writers_serialise)

lemma concurrent_writes_serialise_witness:
  "\<exists>s' order. (writers_step sampleEnv)\<^sup>*\<^sup>* (map Waiting [sampleCache, []], sampleFs) ([Left ERROR_NONE, Left ERROR_NONE], s') \<and>
    set order = {0, 1} \<and> written_by sampleEnv (Some asFile) (map ((!) [sampleCache, []]) order) (contents_of s' ''/opt/bt.json'')"
proof -
  obtain s' where r: "(writers_step sampleEnv)\<^sup>*\<^sup>* (map Waiting [sampleCache, []], sampleFs) ([Left ERROR_NONE, Left ERROR_NONE], s')"
    using sample_two_writes by blast
  have "{i. i < length [sampleCache, []] \<and> has_committed ([Left ERROR_NONE, Left ERROR_NONE] ! i)} = {0, 1}"
    by (auto simp: less_Suc_eq)
  with concurrent_writes_serialise [OF r] r show ?thesis by auto
qed

text \<open>C25: an event that BTRMGR delivers while \<open>Deinitialize\<close> runs can end in a call through a null
  pointer: the callback tests the instance pointer and then reads it again for the call, and
  \<open>Deinitialize\<close> resets it, with no lock, before it unregisters from BTRMGR.\<close>

theorem event_crashes_under_deinitialize:
  assumes "instanceSet w" "moreTimers w = []"
  shows "\<exists>w'. (hstep E)\<^sup>*\<^sup>* (map (entry E) [BtEvent msg, Stop], w) ([Crash, Ret Finished], w') \<and>
    plugin_step E Stop w = Some w'"
  using callback_crash [OF assms, of E msg] by auto

lemma event_crashes_under_deinitialize_witness:
  "\<exists>w'. (hstep sampleEnv)\<^sup>*\<^sup>*
    (map (entry sampleEnv) [BtEvent (sampleMessage BTRMGR_EVENT_DEVICE_FOUND), Stop], sampleProcess) ([Crash, Ret Finished], w')"
  using event_crashes_under_deinitialize [of sampleProcess sampleEnv "sampleMessage BTRMGR_EVENT_DEVICE_FOUND"] by fastforce

text \<open>C26: \<open>pair\<close> and \<open>unpair\<close> of a device at once: the pairing can have described the device and not yet
  registered it when the whole unpairing runs. Both report success, BTRMGR has the device no longer
  paired, and it is in the registry and in the store.\<close>

theorem unpaired_device_registered:
  fixes w :: process
  assumes "deviceIDParam E ps = Id s i" "deviceIDParam E ps' = Id s' i" "is_ll i" "0 \<le> i"
    and "um_find (pairedDeviceCache w) (to_string_ll i) = None" "moreTimers w = []"
    and "\<And>tr. e_bt E tr (PairDevice (handle_of i)) = BTRMGR_RESULT_SUCCESS"
    and "\<And>tr. e_bt E tr (UnpairDevice (handle_of i)) = BTRMGR_RESULT_SUCCESS"
    and "\<And>tr. e_bt E tr (GetDeviceProperties (handle_of i)) = BTRMGR_RESULT_SUCCESS"
    and "\<not> e_migration E \<or> isMigrated w" "service w" "store_works E" "bounded_retries E B"
  shows "\<exists>w' info. (hstep E)\<^sup>*\<^sup>* (map (entry E) [Request ''pair'' ps, Request ''unpair'' ps'], w)
      ([Ret (Rpc (Returns [] True)), Ret (Rpc (Returns [] True))], w') \<and>
    \<not> bonded (handle_of i) (trace w') \<and> um_find (pairedDeviceCache w') (to_string_ll i) = Some info \<and>
    store_contents (trace w') PERSISTENT_STORE_KEY_DEVICE_INFO = Some (storedPayload E (pairedDeviceCache w'))"
  using assms by (rule unpaired_registered)

lemma unpaired_device_registered_witness:
  "let ps = [(''deviceID'', JStr ''99'')] in
   \<exists>w'. (hstep sampleEnv)\<^sup>*\<^sup>* (map (entry sampleEnv) [Request ''pair'' ps, Request ''unpair'' ps], sampleProcess)
      ([Ret (Rpc (Returns [] True)), Ret (Rpc (Returns [] True))], w') \<and>
    \<not> bonded 99 (trace w') \<and> um_find (pairedDeviceCache w') ''99'' \<noteq> None"
proof -
  let ?ps = "[(''deviceID'', JStr ''99'')]"
  have n: "stoll ''99'' = Inr 99" "to_string_ll 99 = ''99''" "handle_of 99 = 99" by code_simp+
  have "is_ll 99" by (simp add: is_ll_def LLONG_MAX_def LLONG_MIN_def)
  moreover have "um_find sampleCache ''99'' = None" by (simp add: um_find_def sampleCache_def)
  ultimately show ?thesis
    using unpaired_device_registered [OF sample_device_param [OF n(1)] sample_device_param [OF n(1)],
      of sampleProcess "\<lambda>tr. 0"] n(2,3) by (auto simp: Let_def simp del: entry.simps)
qed

subsection \<open>The store, the file and BTRMGR kept together\<close>

text \<open>C27: a change of the cache reaches the AS file only after the store has accepted it, only once
  migrated, and then as the complete payload of the cache without human interface devices.\<close>

theorem file_follows_store:
  assumes "writeStorageFromCache E w = Some (r, w')"
  shows "files w' (e_path E) = files w (e_path E) \<or>
    r = ERROR_NONE \<and> e_migration E \<and> isMigrated w \<and>
    (\<exists>ex. files w' (e_path E) = Some (writePayload E ex (filesystemSnapshot (pairedDeviceCache w)))) \<and>
    store_contents (trace w') PERSISTENT_STORE_KEY_DEVICE_INFO = Some (storedPayload E (pairedDeviceCache w))"
  using assms by (rule writeStorage_mirrors)

lemma file_follows_store_witness:
  "\<exists>w'. writeStorageFromCache sampleEnv (migrated\<lparr>isMigrated := False\<rparr>) = Some (ERROR_NONE, w') \<and>
    files w' ''/opt/bt.json'' = Some asFile"
proof -
  let ?w = "migrated\<lparr>isMigrated := False\<rparr>"
  obtain w' where wr: "writeStorageFromCache sampleEnv ?w = Some (ERROR_NONE, w')"
    using sample_writeStorage [of ?w] by auto
  from file_follows_store [OF wr] wr show ?thesis by simp
qed

text \<open>C28: a restart of the build without migration ends with exactly the devices BTRMGR reports as
  paired: a stored record is kept and completed, an unknown device gets a fresh one, any other
  record is gone; and this cache has been stored.\<close>

theorem plain_restart_reconciles:
  assumes "\<not> e_migration E" "iterates_all E" "store_faithful E" "\<And>tr. e_storeUp E tr"
    and "\<And>tr. e_paired E tr = ds" "distinct (map m_deviceHandle ds)"
    and "store_contents (trace w) PERSISTENT_STORE_KEY_DEVICE_INFO = Some str"
    and "init E True (restart w) = Some (ERROR_NONE, w')"
  shows "(\<forall>d \<in> set ds. um_find (pairedDeviceCache w') (deviceId d) =
      Some (case um_find (loadedCache E str) (deviceId d) of Some i \<Rightarrow> backfill E d i | None \<Rightarrow> freshInfo E d)) \<and>
    (\<forall>k. k \<notin> deviceId ` set ds \<longrightarrow> um_find (pairedDeviceCache w') k = None) \<and>
    store_contents (trace w') PERSISTENT_STORE_KEY_DEVICE_INFO = Some (storedPayload E (pairedDeviceCache w'))"
  using assms by (rule plain_restart)

lemma plain_restart_reconciles_witness:
  "\<exists>w'. init plainEnv True (restart migrated) = Some (ERROR_NONE, w') \<and>
    um_find (pairedDeviceCache w') ''77'' \<noteq> None \<and> um_find (pairedDeviceCache w') ''99'' = None"
proof -
  obtain w' where i: "init plainEnv True (restart migrated) = Some (ERROR_NONE, w')"
    using sample_initPlain by blast
  have "distinct (map m_deviceHandle [headphones, keyboard])" by (simp add: headphones_def keyboard_def)
  from plain_restart_reconciles [OF _ _ _ _ _ this _ i] show ?thesis using i by auto
qed

subsection \<open>The whole plugin\<close>

text \<open>C29: whatever requests, events, power changes, timer expiries, starts and stops the plugin
  handles, the cache has one record per id with a storable status, every store interface is
  released, the service is referenced exactly while it is held, and a scan is running exactly
  while the timer that ends it is scheduled.\<close>

theorem plugin_invariant:
  assumes "run (plugin_enabled E) (plugin_step E) ops (plugin0 f) = Some w"
  shows "cache_ok (pairedDeviceCache w) \<and> tally store_refs (trace w) = 0 \<and>
    tally shell_refs (trace w) = (if service w then 1 else 0) \<and>
    (discoveryRunning w \<longleftrightarrow> discoveryTimer w \<noteq> None)"
  using whole.inv_run [OF assms plugin_inv0] by (simp add: plugin_inv_def registry_inv_def scan_ok_def)

lemma plugin_invariant_witness:
  "\<exists>w. run (plugin_enabled sampleEnv) (plugin_step sampleEnv)
      [Start True, Request ''performMigration'' [], PowerChange POWER_STATE_ON POWER_STATE_OFF, Stop] (plugin0 asFiles) = Some w \<and>
    tally store_refs (trace w) = 0"
proof -
  let ?ops = "[Request ''performMigration'' [], PowerChange POWER_STATE_ON POWER_STATE_OFF, Stop]"
  obtain w1 where w1: "plugin_step sampleEnv (Start True) (plugin0 asFiles) = Some w1"
    using sample_plugin_step by blast
  have "\<exists>w. run (plugin_enabled sampleEnv) (plugin_step sampleEnv) ?ops w1 = Some w"
    by (rule sample_plugin_run) (auto simp: invoke_def methodTable_def)
  then obtain w where "run (plugin_enabled sampleEnv) (plugin_step sampleEnv) (Start True # ?ops) (plugin0 asFiles) = Some w"
    using w1 by (auto simp: plugin0_def Bluetooth_ctor_def)
  with plugin_invariant [OF this] show ?thesis by blast
qed

text \<open>C30: every entry point of the plugin returns, from every state, if the system interrupts a
  write or accepts nothing only finitely often.\<close>

theorem every_entry_point_returns:
  assumes "bounded_retries E B"
  shows "\<exists>w'. plugin_step E op w = Some w'"
  using plugin_step_total [OF assms, of op w] by simp

lemma every_entry_point_returns_witness:
  "\<exists>w'. plugin_step sampleEnv (Request ''performMigration'' []) (plugin0 asFiles) = Some w'"
  using every_entry_point_returns [OF sample_retries] .

text \<open>C31: for the plugin a scan always ends: in every reachable state with a scan running its timer
  is scheduled, and when it fires the plugin revokes it, asks BTRMGR once to stop and resets the
  flag, whatever BTRMGR answers. The scan at BTRMGR has ended exactly if BTRMGR granted that (or
  none was running); otherwise it goes on, with no timer left, and \<open>stopScan\<close> does nothing any
  more. \<open>Deinitialize\<close> stops neither the scan nor the timer.\<close>

theorem scan_always_ends:
  assumes "run (plugin_enabled E) (plugin_step E) ops (plugin0 f) = Some w" "discoveryRunning w"
  shows "plugin_enabled E TimerFires w \<and>
    (\<exists>w' rc. rc = e_bt E (trace w @ [EvTimerRevoke]) (StopDeviceDiscovery BTRMGR_DEVICE_OP_TYPE_AUDIO_OUTPUT) \<and>
       plugin_step E TimerFires w = Some w' \<and> \<not> discoveryRunning w' \<and> discoveryTimer w' = None \<and>
       trace w' = trace w @ [EvTimerRevoke, EvBT (StopDeviceDiscovery BTRMGR_DEVICE_OP_TYPE_AUDIO_OUTPUT) rc] \<and>
       (scanning (trace w') \<longleftrightarrow> scanning (trace w) \<and> rc \<noteq> BTRMGR_RESULT_SUCCESS) \<and>
       (\<forall>ps. plugin_step E (Request ''stopScan'' ps) w' = Some w')) \<and>
    discoveryRunning (Deinitialize E w) \<and> discoveryTimer (Deinitialize E w) = discoveryTimer w"
  using running_scan_ends [OF whole.inv_run [OF assms(1) plugin_inv0] assms(2)] assms(2)
  unfolding Deinitialize_scan by blast

lemma scan_always_ends_witness:
  "\<exists>w w'. plugin_step sampleEnv (Request ''startScan'' [(''timeout'', JNum 5)]) (plugin0 asFiles) = Some w \<and>
    plugin_step sampleEnv TimerFires w = Some w' \<and> discoveryRunning w \<and> \<not> discoveryRunning w' \<and> \<not> scanning (trace w')"
proof -
  let ?op = "Request ''startScan'' [(''timeout'', JNum 5)]"
  obtain w where w: "plugin_step sampleEnv ?op (plugin0 asFiles) = Some w" "discoveryRunning w"
    using sample_scan by blast
  then have "run (plugin_enabled sampleEnv) (plugin_step sampleEnv) [?op] (plugin0 asFiles) = Some w"
    by (auto simp: invoke_def methodTable_def)
  from scan_always_ends [OF this w(2)] w show ?thesis by auto
qed

subsection \<open>Discovery\<close>

text \<open>Every outcome of \<open>startDeviceDiscovery\<close>: nothing while a scan runs, an error status without
  an adapter, and otherwise a scan of the profile's operation type with a timer of
  \<open>timeout * 1000\<close> milliseconds, or one that is stopped at once when the timeout is not positive;
  the result of BTRMGR is ignored.\<close>

lemma start_discovery_outcome:
  assumes "startDeviceDiscovery E timeout p w = (s, w')"
  shows "if discoveryRunning w then s = STATUS_AVAILABLE \<and> w' = w
    else if e_numAdapters E (trace w) = 0 then s = STATUS_NO_BLUETOOTH_HARDWARE \<and>
      \<not> discoveryRunning w' \<and> discoveryTimer w' = discoveryTimer w
    else s = STATUS_AVAILABLE \<and> (\<exists>rc rc' es. trace w' = trace w @
        [EvBT GetNumberOfAdapters rc, EvBT (StartDeviceDiscovery (discoveryType E p)) rc', EvTimerRevoke] @ es \<and>
        (if timeout \<le> 0 then \<not> discoveryRunning w' \<and> discoveryTimer w' = None \<and>
           bt_calls es = [StopDeviceDiscovery BTRMGR_DEVICE_OP_TYPE_AUDIO_OUTPUT]
         else discoveryRunning w' \<and> discoveryTimer w' = Some (milliseconds E timeout) \<and>
           es = [EvTimerSchedule (milliseconds E timeout)]))"
  using assms by (rule startDeviceDiscovery_outcome)

lemma start_discovery_outcome_witness:
  "\<exists>w'. startDeviceDiscovery sampleEnv 0 ''HEADPHONES'' samplePlugin = (STATUS_AVAILABLE, w') \<and> \<not> discoveryRunning w'"
proof -
  obtain s w' where st: "startDeviceDiscovery sampleEnv 0 ''HEADPHONES'' samplePlugin = (s, w')" by fastforce
  from start_discovery_outcome [OF st] st show ?thesis by auto
qed

text \<open>C32: but the flag is not protected: of two concurrent \<open>startScan\<close> requests the one without a
  positive timeout can reset it after the other has started its scan. Both report success, the timer
  fires without effect, and the scan goes on: no timer is left and every \<open>stopScan\<close> reports success
  and does nothing.\<close>

theorem concurrent_scans_never_end:
  assumes "\<not> discoveryRunning w" "timerEntries w = []"
    and "HasLabel ps ''timeout''" "e_getNumber E ps ''timeout'' (- 1) \<le> 0"
    and "HasLabel ps' ''timeout''" "0 < e_getNumber E ps' ''timeout'' (- 1)"
    and "\<And>tr. e_numAdapters E tr \<noteq> 0" "\<And>tr ty. e_bt E tr (StartDeviceDiscovery ty) = BTRMGR_RESULT_SUCCESS"
  shows "\<exists>w'. (pstep E)\<^sup>*\<^sup>* (map (entry E) [Request ''startScan'' ps, Request ''startScan'' ps'], w)
      ([Ret (Rpc (Returns [(''status'', JStr STATUS_AVAILABLE)] True)),
        Ret (Rpc (Returns [(''status'', JStr STATUS_AVAILABLE)] True)), Ret Finished], w') \<and>
    scanning (trace w') \<and> \<not> discoveryRunning w' \<and> timerEntries w' = [] \<and>
    (\<forall>qs. solo E (entry E (Request ''stopScan'' qs)) w' = Some (Rpc (Returns [] True), w'))"
  using assms by (rule lost_scan)

lemma concurrent_scans_never_end_witness:
  "\<exists>ps w'. (pstep sampleEnv)\<^sup>*\<^sup>* (map (entry sampleEnv)
      [Request ''startScan'' [(''timeout'', JNum 0)], Request ''startScan'' [(''timeout'', JNum 5)]], sampleProcess) (ps, w') \<and>
    scanning (trace w') \<and> timerEntries w' = []"
  using concurrent_scans_never_end [of sampleProcess "[(''timeout'', JNum 0)]" sampleEnv "[(''timeout'', JNum 5)]"]
  by (fastforce simp: sample_timeout_param HasLabel_def um_find_def)

subsection \<open>Power modes\<close>

text \<open>C33: the exact BTRMGR calls of a power mode change, which always ends and changes nothing else:
  leaving ON for OFF, STANDBY or LIGHT SLEEP disconnects the devices whose autoconnect is
  disabled, DEEP SLEEP every device, human interface devices never; ON switches the adapter on
  when the registry has such devices, counted in 16 bits.\<close>

theorem power_mode_calls:
  "\<exists>w'. onPowerModeChanged E cur new w = Some w' \<and>
    only_calls (if e_migration E \<and> isMigrated w
      then actionCalls E (e_order E (pairedDeviceCache w)) (powerAction cur new) else []) w w'"
  using onPowerModeChanged_calls [of E cur new w] by (simp add: powerCalls_action)

text \<open>With a multiple of 65536 such devices, an empty registry or not, switching ON does not switch
  the adapter on; with any other number it does.\<close>

lemma power_on_count_wraps:
  assumes "e_migration E" "isMigrated w" "iterates_all E" "cur \<noteq> POWER_STATE_ON"
  shows "\<exists>w'. onPowerModeChanged E cur POWER_STATE_ON w = Some w' \<and>
    only_calls (if 65536 dvd length (filter (\<lambda>e. deviceType (snd e) \<noteq> HID) (pairedDeviceCache w))
      then [] else [SetAdapterPowerStatus True]) w w'"
  using assms by (rule switch_on_calls)

lemma power_on_count_wraps_witness:
  "\<exists>w'. onPowerModeChanged sampleEnv POWER_STATE_OFF POWER_STATE_ON samplePlugin = Some w' \<and>
    only_calls [SetAdapterPowerStatus True] samplePlugin w'"
  using power_on_count_wraps [of sampleEnv samplePlugin POWER_STATE_OFF]
  by (simp add: sampleCache_def sampleInfo_def HID_def)

subsection \<open>Start and stop\<close>

text \<open>C34: in the migration build a successful start calls BTRMGR to register, to list the connected
  devices, and to disconnect some of them: never a human interface device, nor one whose handle
  is above the range of \<open>stoll\<close>; before the migration all the others; once migrated those of the
  others that the registry holds with autoconnect not enabled, while a device it does not know
  stays connected. The power state read on the way has no effect.\<close>

theorem start_up_calls:
  assumes "e_migration E" "json_accessors E" "\<not> isMigrated w"
    and "\<And>tr. e_bt E tr GetConnectedDevices = BTRMGR_RESULT_SUCCESS" "\<And>tr. e_connected E tr = ds"
    and "Initialize E srv w = Some ('''', w')"
  shows "\<exists>es. trace w' = trace w @ es \<and>
    bt_calls es = [RegisterForCallbacks, RegisterEventCallback, GetConnectedDevices] @
      map (\<lambda>d. connectionCall E (m_deviceHandle d) False (typeName E (m_deviceType d)))
        (filter (\<lambda>d. typeName E (m_deviceType d) \<noteq> HID \<and> uint (m_deviceHandle d) \<le> LLONG_MAX \<and>
          (\<not> isMigrated w' \<or> (\<exists>i. um_find (pairedDeviceCache w') (deviceId d) = Some i \<and>
             autoConnectStatus i \<noteq> AUTO_CONNECT_STATUS_ENABLED))) ds)"
  using Initialize_calls [OF assms] assms(1) by (simp add: disconnectedAtStart_def [abs_def])

lemma start_up_calls_witness:
  "\<exists>w' es. Initialize sampleEnv True (plugin0 asFiles) = Some ('''', w') \<and> trace w' = es \<and>
    bt_calls es = [RegisterForCallbacks, RegisterEventCallback, GetConnectedDevices, StopAudioStreamingOut 42]"
proof -
  obtain w' where i: "Initialize sampleEnv True (plugin0 asFiles) = Some ('''', w')" and u: "\<not> isMigrated w'"
    using sample_Initialize by blast
  have "typeName sampleEnv (m_deviceType sampleConnected) \<noteq> HID" "uint (m_deviceHandle sampleConnected) \<le> LLONG_MAX"
    by (simp_all add: typeName_def sampleConnected_def HID_def LLONG_MAX_def)
  with start_up_calls [OF _ _ _ _ _ i, of "[sampleConnected]"] i u show ?thesis
    by (simp add: sample_stop_headphones)
qed

subsection \<open>Events\<close>

text \<open>C35: once migrated, an external connection request of a registered device is answered by the
  plugin without a notification: accepted, and the device connected, exactly if its autoconnect
  is enabled; an exception leaves the handler exactly if the accepted device's type has no name.\<close>

theorem connection_request_answered:
  assumes "compares_words E" "answered E msg w"
    and "um_find (pairedDeviceCache w) (deviceId (m_externalDevice msg)) = Some i"
    and "notifyEventWrapper E msg w = Some (t, w')"
  shows "\<exists>es. trace w' = trace w @ es \<and> notifications es = [] \<and>
    bt_calls es = connectAnswer E (m_externalDevice msg) (autoConnectStatus i = AUTO_CONNECT_STATUS_ENABLED) \<and>
    (t \<noteq> None \<longleftrightarrow> autoConnectStatus i = AUTO_CONNECT_STATUS_ENABLED \<and>
       e_typeString E (m_deviceType (m_externalDevice msg)) = None)"
  using answerConnectRequest_calls [OF assms(1) assms(4) [unfolded notifyEventWrapper_answered [OF assms(2,3)]]] by blast

lemma connection_request_answered_witness:
  "\<exists>t w' es. notifyEventWrapper sampleEnv (sampleMessage BTRMGR_EVENT_RECEIVED_EXTERNAL_CONNECT_REQUEST) samplePlugin = Some (t, w') \<and>
    trace w' = trace samplePlugin @ es \<and> notifications es = [] \<and> t = None \<and>
    bt_calls es = connectAnswer sampleEnv sampleExternal True"
proof -
  let ?msg = "sampleMessage BTRMGR_EVENT_RECEIVED_EXTERNAL_CONNECT_REQUEST"
  obtain t w' where n: "notifyEventWrapper sampleEnv ?msg samplePlugin = Some (t, w')"
    using notifyEventWrapper_total [OF sample_retries, of ?msg samplePlugin] by auto
  have a: "answered sampleEnv ?msg samplePlugin" by (simp add: answered_def)
  from connection_request_answered [OF sample_compares a _ n, of sampleInfo] n show ?thesis
    by (auto simp: sampleInfo_def)
qed

text \<open>C36: any other event sends exactly one notification, which names the device of the event if it has
  one, and has no other effect; the events the plugin ignores have no effect at all; and where
  Thunder's \<open>Variant\<close> does not take a null pointer, an event about a device whose type has no name
  sends nothing and leaves the handler with an exception.\<close>

theorem event_notified_once:
  assumes "\<not> answered E msg w"
  shows "if \<exists>n. m_eventType msg = BTRMGR_EVENT_IGNORED n then notifyEventWrapper E msg w = Some (None, w)
    else if nullTypeThrows E msg then notifyEventWrapper E msg w = Some (Some null_c_string, w)
    else \<exists>ev ps. notifyEventWrapper E msg w = Some (None, w\<lparr>trace := trace w @ [EvNotify ev ps]\<rparr>) \<and>
      names_device E ps (eventDevice msg)"
  using assms by (rule notified_outcome)

lemma event_notified_once_witness:
  "\<exists>ev ps. notifyEventWrapper sampleEnv (sampleMessage BTRMGR_EVENT_DEVICE_CONNECTION_COMPLETE) samplePlugin =
      Some (None, samplePlugin\<lparr>trace := trace samplePlugin @ [EvNotify ev ps]\<rparr>) \<and>
    names_device sampleEnv ps (Some 42)"
  using event_notified_once [of sampleEnv "sampleMessage BTRMGR_EVENT_DEVICE_CONNECTION_COMPLETE" samplePlugin]
  by (simp add: answered_def eventDevice_def sampleMessage_def headphones_def nullTypeThrows_def namedType_def)

subsection \<open>Requests\<close>

text \<open>A request to a method on a device without a \<open>deviceID\<close> fails, and one whose \<open>deviceID\<close> is not
  a number, or out of range, throws; neither has any effect.\<close>

lemma bad_device_id:
  assumes "name \<in> deviceMethods"
  shows "\<exists>m. invoke E name = Some m \<and>
    (\<not> HasLabel ps ''deviceID'' \<longrightarrow> m ps w = Some (Returns [] False, w)) \<and>
    (\<forall>e. HasLabel ps ''deviceID'' \<and> stoll (e_getString E ps ''deviceID'' '''') = Inl e \<longrightarrow>
       m ps w = Some (Throws e, w))"
  using deviceMethods_id [OF assms, of E ps w] by (auto simp: deviceIDParam_def)

lemma bad_device_id_witness:
  "\<exists>m. invoke sampleEnv ''pair'' = Some m \<and>
    m [(''deviceID'', JStr ''abc'')] samplePlugin = Some (Throws invalid_argument, samplePlugin)"
proof -
  have "e_getString sampleEnv [(''deviceID'', JStr ''abc'')] ''deviceID'' '''' = ''abc''"
    by (simp add: sampleEnv_def um_find_def)
  moreover have "stoll ''abc'' = Inl invalid_argument" by code_simp
  ultimately show ?thesis
    using bad_device_id [of "''pair''" sampleEnv "[(''deviceID'', JStr ''abc'')]" samplePlugin]
    by (auto simp: deviceMethods_def)
qed

text \<open>C37: connecting or disconnecting reports what BTRMGR answered to the call for the device's type, and
  a connection that succeeded stamps the record of the device, if there is one, with the time;
  nothing else changes in the cache.\<close>

theorem connection_outcome:
  assumes "setDeviceConnection E i c t w = Some (ok, w')"
  shows "ok = (e_bt E (trace w) (connectionCall E (handle_of i) c t) = BTRMGR_RESULT_SUCCESS) \<and>
    (\<exists>tr. pairedDeviceCache w' =
      (case um_find (pairedDeviceCache w) (to_string_ull (handle_of i)) of
         Some d \<Rightarrow> if c \<and> ok
           then um_put (to_string_ull (handle_of i)) (d\<lparr>lastConnectTimeUtc := to_string_ll (e_now E tr)\<rparr>) (pairedDeviceCache w)
           else pairedDeviceCache w
       | None \<Rightarrow> pairedDeviceCache w))"
  using assms by (rule setDeviceConnection_outcome)

lemma connection_outcome_witness:
  "\<exists>w'. setDeviceConnection sampleEnv 42 True ''HEADPHONES'' samplePlugin = Some (True, w') \<and>
    um_find (pairedDeviceCache w') ''42'' = Some (sampleInfo\<lparr>lastConnectTimeUtc := ''7''\<rparr>)"
proof -
  obtain ok w' where s: "setDeviceConnection sampleEnv 42 True ''HEADPHONES'' samplePlugin = Some (ok, w')"
    using setDeviceConnection_total [OF sample_retries, of 42 True "''HEADPHONES''" samplePlugin] by auto
  from connection_outcome [OF s] s show ?thesis by (auto simp: sample_42 sample_utc)
qed

text \<open>C38: pairing a device that BTRMGR pairs and describes reports success and registers it, under its
  decimal id; but a negative id, a handle of \<open>2 ^ 63\<close> or more, is paired and never registered.\<close>

theorem pairing_registers:
  assumes "is_ll i" "e_bt E (trace w) (PairDevice (handle_of i)) = BTRMGR_RESULT_SUCCESS"
    and "\<And>tr. e_bt E tr (GetDeviceProperties (handle_of i)) = BTRMGR_RESULT_SUCCESS"
    and "setDevicePairing E i True w = Some (ok, w')"
  shows "ok \<and> (if 0 \<le> i
    then \<exists>tr. pairedDeviceCache w' =
      um_put (to_string_ll i) (addedInfo E (to_string_ll i) (e_devProps E tr (handle_of i))) (pairedDeviceCache w)
    else pairedDeviceCache w' = pairedDeviceCache w)"
  using assms by (rule setDevicePairing_outcome)

lemma pairing_registers_witness:
  "\<exists>w'. setDevicePairing sampleEnv (- 1) True samplePlugin = Some (True, w') \<and> pairedDeviceCache w' = sampleCache"
proof -
  obtain ok w' where s: "setDevicePairing sampleEnv (- 1) True samplePlugin = Some (ok, w')"
    using setDevicePairing_total [OF sample_retries, of "- 1" True samplePlugin] by auto
  have "is_ll (- 1)" by (simp add: is_ll_def LLONG_MAX_def LLONG_MIN_def)
  from pairing_registers [OF this _ _ s] s show ?thesis by simp
qed

text \<open>C39: setting the volume cuts volume and mute to eight bits, and when BTRMGR accepts them stores
  the cut volume in the record whose id is the text of the request: an id written in another
  way (leading zeros, spaces) reaches the device but no record.\<close>

theorem volume_outcome:
  assumes "deviceIDParam E ps = Id s n" "stringParam E ps ''deviceType'' = Some t"
    and "HasLabel ps ''volume''" "HasLabel ps ''mute''"
    and "c = SetDeviceVolumeMute (handle_of n) (btmgrDeviceOperationTypeFromString E t)
      (word_of_int (e_getNumber E ps ''volume'' 0)) (word_of_int (e_getNumber E ps ''mute'' 0))"
    and "setDeviceVolumeMuteInfoWrapper E ps w = Some (res, w')"
  shows "res = Returns [] (e_bt E (trace w) c = BTRMGR_RESULT_SUCCESS) \<and>
    pairedDeviceCache w' = (case um_find (pairedDeviceCache w) s of
        Some i \<Rightarrow> if e_bt E (trace w) c = BTRMGR_RESULT_SUCCESS
          then um_put s (i\<lparr>lastVolumeSetting := e_getNumber E ps ''volume'' 0 mod 256\<rparr>) (pairedDeviceCache w)
          else pairedDeviceCache w
      | None \<Rightarrow> pairedDeviceCache w)"
  using assms by (rule setDeviceVolumeMuteInfo_outcome)

lemma volume_outcome_witness:
  "let ps = [(''deviceID'', JStr ''42''), (''deviceType'', JStr ''HEADPHONES''), (''volume'', JNum 300), (''mute'', JNum 0)] in
   \<exists>w'. setDeviceVolumeMuteInfoWrapper sampleEnv ps samplePlugin = Some (Returns [] True, w') \<and>
     um_find (pairedDeviceCache w') ''42'' = Some (sampleInfo\<lparr>lastVolumeSetting := 44\<rparr>)"
proof -
  let ?ps = "[(''deviceID'', JStr ''42''), (''deviceType'', JStr ''HEADPHONES''), (''volume'', JNum 300), (''mute'', JNum 0)]"
  have g: "e_getString sampleEnv ?ps ''deviceID'' '''' = ''42''" "e_getString sampleEnv ?ps ''deviceType'' '''' = ''HEADPHONES''"
    "e_getNumber sampleEnv ?ps ''volume'' 0 = 300" by (simp_all add: sampleEnv_def um_find_def)
  obtain res w' where s: "setDeviceVolumeMuteInfoWrapper sampleEnv ?ps samplePlugin = Some (res, w')"
    using volume_wrapper_total [OF sample_retries] unfolding total_def by fastforce
  from volume_outcome [OF _ _ _ _ refl s, of "''42''" 42 "''HEADPHONES''"] g s show ?thesis
    by (simp add: deviceIDParam_def stringParam_def sample_42)
qed

text \<open>C40: every entry of the three device lists has its id, name and type as strings, \<open>autoconnect\<close> only
  as a boolean and \<open>lastConnectTimeUtc\<close> only as a nonempty string.\<close>

theorem device_lists_typed:
  "\<forall>v \<in> set (fst (getDiscoveredDevices E w)) \<union> set (fst (getPairedDevices E w)) \<union> set (fst (getConnectedDevices E w)).
    device_entry v"
  using lists_typed [of E w] by (metis UnE prod.collapse)

lemma device_lists_typed_witness:
  "device_entry (JObj (connectedDetails sampleEnv (snd (getConnectedDevices sampleEnv samplePlugin)) sampleConnected))"
  using device_lists_typed [of sampleEnv samplePlugin] by (simp add: getConnectedDevices_def btCall_def Let_def)

end
